(* ===== verification/Prelude.thy ===== *)
theory Prelude
  imports Main "HOL-Library.Word" "HOL-Library.List_Lexorder" "HOL-Library.Product_Lexorder"
begin

text \<open>
  What every component of the development shares: the machine integer types, Rust's
  \<^verbatim>\<open>Result\<close> and its \<^verbatim>\<open>?\<close> operator, big-endian integer layouts, saturating
  arithmetic, the ASCII classes of \<^verbatim>\<open>u8\<close>, and the UTF-8 check of
  \<^verbatim>\<open>core::str::from_utf8\<close>. The last part states the contract of a canonical codec as a
  locale; the CBOR profile, every typed message and the broker RPC frames interpret it.

  A \<^verbatim>\<open>u8\<close>, \<^verbatim>\<open>u32\<close>, \<^verbatim>\<open>u64\<close> is a word of its width; an \<^verbatim>\<open>i64\<close> is a 64-bit word
  read with \<open>sint\<close>; a \<^verbatim>\<open>usize\<close> (a length or an index) is a natural number; a
  \<^verbatim>\<open>Vec<u8>\<close>, a fixed array \<^verbatim>\<open>[u8; N]\<close> and the bytes of a \<^verbatim>\<open>String\<close> are lists of bytes.
\<close>

section \<open>Machine types\<close>

type_synonym u8 = "8 word"
type_synonym u16 = "16 word"
type_synonym u32 = "32 word"
type_synonym u64 = "64 word"
type_synonym i64 = "64 word"
type_synonym bytes = "8 word list"

text \<open>Collections of the development: facts that invert a successful computation.\<close>

named_theorems ok_iff \<open>when a fallible computation returns Inr\<close>
named_theorems run \<open>unfolding rules that evaluate the model on a concrete input\<close>

section \<open>Results and the question-mark operator\<close>

definition rbind :: "'e + 'a \<Rightarrow> ('a \<Rightarrow> 'e + 'b) \<Rightarrow> 'e + 'b" where
  "rbind m f = (case m of Inl e \<Rightarrow> Inl e | Inr x \<Rightarrow> f x)"

definition map_err :: "('e \<Rightarrow> 'f) \<Rightarrow> 'e + 'a \<Rightarrow> 'f + 'a" where
  "map_err g m = (case m of Inl e \<Rightarrow> Inl (g e) | Inr x \<Rightarrow> Inr x)"

definition map_ok :: "('a \<Rightarrow> 'b) \<Rightarrow> 'e + 'a \<Rightarrow> 'e + 'b" where
  "map_ok g m = (case m of Inl e \<Rightarrow> Inl e | Inr x \<Rightarrow> Inr (g x))"

definition guard :: "bool \<Rightarrow> 'e \<Rightarrow> 'e + unit" where
  "guard b e = (if b then Inr () else Inl e)"

definition ok_or :: "'e \<Rightarrow> 'a option \<Rightarrow> 'e + 'a" where
  "ok_or e x = (case x of None \<Rightarrow> Inl e | Some y \<Rightarrow> Inr y)"

lemma rbind_simps [simp]:
  "rbind (Inl e) f = Inl e"
  "rbind (Inr x) f = f x"
  by (simp_all add: rbind_def)

lemma rbind_cong [fundef_cong]:
  "m = m' \<Longrightarrow> (\<And>x. m' = Inr x \<Longrightarrow> f x = g x) \<Longrightarrow> rbind m f = rbind m' g"
  by (cases m') simp_all

text \<open>Evaluation of a concrete run: what follows a step is rewritten only once the step has a result.\<close>

lemma rbind_weak_cong: "m = m' \<Longrightarrow> rbind m f = rbind m' f"
  by simp

lemma rbind_ok [ok_iff]: "rbind m f = Inr y \<longleftrightarrow> (\<exists>x. m = Inr x \<and> f x = Inr y)"
  by (cases m) simp_all

lemma rbind_err: "rbind m f = Inl e \<longleftrightarrow> m = Inl e \<or> (\<exists>x. m = Inr x \<and> f x = Inl e)"
  by (cases m) simp_all

lemma map_err_simps [simp]:
  "map_err g (Inl e) = Inl (g e)"
  "map_err g (Inr x) = Inr x"
  by (simp_all add: map_err_def)

lemma map_err_ok [ok_iff]: "map_err g m = Inr y \<longleftrightarrow> m = Inr y"
  by (cases m) simp_all

lemma map_ok_simps [simp]:
  "map_ok g (Inl e) = Inl e"
  "map_ok g (Inr x) = Inr (g x)"
  by (simp_all add: map_ok_def)

lemma map_ok_ok [ok_iff]: "map_ok g m = Inr y \<longleftrightarrow> (\<exists>x. m = Inr x \<and> y = g x)"
  by (cases m) auto

lemma guard_simps [simp]:
  "guard True e = Inr ()"
  "guard False e = Inl e"
  by (simp_all add: guard_def)

lemma guard_ok [ok_iff]: "guard b e = Inr u \<longleftrightarrow> b"
  by (cases b) simp_all

lemma ok_or_simps [simp]:
  "ok_or e None = Inl e"
  "ok_or e (Some x) = Inr x"
  by (simp_all add: ok_or_def)

lemma ok_or_ok [ok_iff]: "ok_or e m = Inr y \<longleftrightarrow> m = Some y"
  by (cases m) simp_all

lemma case_prod_ok [ok_iff]: "(case p of (a, b) \<Rightarrow> f a b) = Inr y \<longleftrightarrow> f (fst p) (snd p) = Inr y"
  by (cases p) simp

lemma if_ok: "(if b then Inl e else m) = Inr y \<longleftrightarrow> \<not> b \<and> m = Inr y"
  by simp

text \<open>Running a fallible step over a list, stopping at the first error: \<^verbatim>\<open>collect()\<close> into a \<^verbatim>\<open>Result\<close>.\<close>

fun collect_results :: "('e + 'a) list \<Rightarrow> 'e + 'a list" where
  "collect_results [] = Inr []"
| "collect_results (r # rs) = rbind r (\<lambda>x. map_ok (\<lambda>xs. x # xs) (collect_results rs))"

lemma collect_results_ok [ok_iff]:
  "collect_results rs = Inr xs \<longleftrightarrow> rs = map Inr xs"
  by (induction rs arbitrary: xs) (auto simp: ok_iff Cons_eq_map_conv)

section \<open>Integers as bytes\<close>

text \<open>\<open>be_bytes n k\<close> is the big-endian layout of the low \<open>n\<close> bytes of \<open>k\<close>: Rust's
  \<^verbatim>\<open>to_be_bytes\<close> at width \<open>8 * n\<close>. \<open>be_nat\<close> reads it back (\<^verbatim>\<open>from_be_bytes\<close>).\<close>

primrec be_bytes :: "nat \<Rightarrow> nat \<Rightarrow> bytes" where
  "be_bytes 0 k = []"
| "be_bytes (Suc n) k = be_bytes n (k div 256) @ [of_nat k]"

definition be_nat :: "bytes \<Rightarrow> nat" where
  [run]: "be_nat bs = foldl (\<lambda>acc b. acc * 256 + unat b) 0 bs"

lemma be_bytes_numeral [run]:
  "be_bytes (numeral n) k = be_bytes (pred_numeral n) (k div 256) @ [of_nat k]"
  by (simp only: numeral_eq_Suc [of n] be_bytes.simps)

lemma length_be_bytes [simp]: "length (be_bytes n k) = n"
  by (induction n arbitrary: k) simp_all

lemma be_nat_Nil [simp]: "be_nat [] = 0"
  by (simp add: be_nat_def)

lemma be_nat_snoc [simp]: "be_nat (bs @ [b]) = be_nat bs * 256 + unat b"
  by (simp add: be_nat_def)

lemma unat_u8_less: "unat (b :: u8) < 256"
  using unsigned_less [of b] by simp

lemma unat_u32_less: "unat (w :: u32) < 2 ^ 32"
  using unsigned_less [of w, where 'a = nat] by simp

lemma unat_u64_less: "unat (w :: u64) < 2 ^ 64"
  using unsigned_less [of w, where 'a = nat] by simp

lemma u8_256: "(256 :: u8) = 0"
  using word_exp_length_eq_0 [where 'a = 8] by simp

lemma be_nat_less: "be_nat bs < 256 ^ length bs"
proof (induction bs rule: rev_induct)
  case Nil
  show ?case by simp
next
  case (snoc b bs)
  then have "be_nat bs * 256 + unat b < (be_nat bs + 1) * 256"
    using unat_u8_less [of b] by simp
  also have "\<dots> \<le> 256 ^ length bs * 256"
    using snoc by (intro mult_le_mono1) simp
  finally show ?case by simp
qed

lemma be_nat_be_bytes: "be_nat (be_bytes n k) = k mod 256 ^ n"
proof (induction n arbitrary: k)
  case 0
  show ?case by simp
next
  case (Suc n)
  have "be_nat (be_bytes (Suc n) k) = (k div 256) mod 256 ^ n * 256 + k mod 256"
    by (simp add: Suc.IH unat_of_nat)
  also have "\<dots> = k mod (256 * 256 ^ n)"
    by (simp add: mod_mult2_eq)
  finally show ?case by simp
qed

lemma be_bytes_be_nat: "length bs = n \<Longrightarrow> be_bytes n (be_nat bs) = bs"
proof (induction bs arbitrary: n rule: rev_induct)
  case Nil
  then show ?case by simp
next
  case (snoc b bs)
  have "(be_nat bs * 256 + unat b) div 256 = be_nat bs"
    using unat_u8_less [of b] by simp
  moreover have "(of_nat (be_nat bs * 256 + unat b) :: u8) = b"
    by (simp add: u8_256)
  ultimately show ?case
    using snoc by (cases n) simp_all
qed

lemma be_nat_Cons: "be_nat (b # bs) = unat b * 256 ^ length bs + be_nat bs"
  by (induction bs rule: rev_induct) (simp_all flip: append_Cons add: be_nat_def algebra_simps)

lemma be_nat_less_Cons:
  assumes "x < y" and "length xs = length ys"
  shows "be_nat (x # xs) < be_nat (y # ys)"
proof -
  have "unat x * 256 ^ length ys + be_nat xs < (unat x + 1) * 256 ^ length ys"
    using be_nat_less [of xs] assms(2) by simp
  also have "\<dots> \<le> unat y * 256 ^ length ys"
    using assms(1) by (intro mult_le_mono1) (simp add: word_less_nat_alt)
  finally show ?thesis using assms(2) by (simp add: be_nat_Cons)
qed

lemma be_nat_less_iff: "length xs = length ys \<Longrightarrow> xs < ys \<longleftrightarrow> be_nat xs < be_nat ys"
proof (induction xs ys rule: list_induct2)
  case Nil
  show ?case by simp
next
  case (Cons x xs y ys)
  consider "x < y" | "x = y" | "y < x" by (rule linorder_cases)
  then show ?case
  proof cases
    case 1
    then show ?thesis using be_nat_less_Cons [OF 1 Cons.hyps] by simp
  next
    case 2
    then show ?thesis using Cons by (simp add: be_nat_Cons)
  next
    case 3
    then show ?thesis using be_nat_less_Cons [OF 3 Cons.hyps [symmetric]] by auto
  qed
qed

lemma be_bytes_less:
  "a < b \<Longrightarrow> b < 256 ^ n \<Longrightarrow> be_bytes n a < be_bytes n b"
  by (simp add: be_nat_less_iff be_nat_be_bytes)

lemma drop_be_bytes: "drop m (be_bytes (m + n) k) = be_bytes n k"
proof (induction n arbitrary: k)
  case 0
  show ?case by simp
next
  case (Suc n)
  show ?case by (simp add: Suc.IH)
qed

lemma be_bytes_inject:
  "k < 256 ^ n \<Longrightarrow> k' < 256 ^ n \<Longrightarrow> be_bytes n k = be_bytes n k' \<longleftrightarrow> k = k'"
  by (metis be_nat_be_bytes mod_less)

text \<open>Big-endian conversion of the three unsigned widths the program serialises.\<close>

definition u32_to_be :: "u32 \<Rightarrow> bytes" where
  [run]: "u32_to_be w = be_bytes 4 (unat w)"

definition u32_from_be :: "bytes \<Rightarrow> u32" where
  [run]: "u32_from_be bs = of_nat (be_nat bs)"

definition u64_to_be :: "u64 \<Rightarrow> bytes" where
  [run]: "u64_to_be w = be_bytes 8 (unat w)"

definition u64_from_be :: "bytes \<Rightarrow> u64" where
  [run]: "u64_from_be bs = of_nat (be_nat bs)"

lemma length_u32_to_be [simp]: "length (u32_to_be w) = 4"
  by (simp add: u32_to_be_def)

lemma length_u64_to_be [simp]: "length (u64_to_be w) = 8"
  by (simp add: u64_to_be_def)

lemma u32_from_to_be [simp]: "u32_from_be (u32_to_be w) = w"
  using unat_u32_less [of w] by (simp add: u32_from_be_def u32_to_be_def be_nat_be_bytes)

lemma u64_from_to_be [simp]: "u64_from_be (u64_to_be w) = w"
  using unat_u64_less [of w] by (simp add: u64_from_be_def u64_to_be_def be_nat_be_bytes)

lemma u32_to_from_be: "length bs = 4 \<Longrightarrow> u32_to_be (u32_from_be bs) = bs"
  using be_nat_less [of bs]
  by (simp add: u32_from_be_def u32_to_be_def unat_of_nat be_bytes_be_nat)

lemma u64_to_from_be: "length bs = 8 \<Longrightarrow> u64_to_be (u64_from_be bs) = bs"
  using be_nat_less [of bs]
  by (simp add: u64_from_be_def u64_to_be_def unat_of_nat be_bytes_be_nat)

lemma u64_to_be_less: "a < b \<Longrightarrow> u64_to_be a < u64_to_be b"
  using unat_u64_less [of b] by (simp add: u64_to_be_def be_bytes_less word_less_nat_alt)

section \<open>Saturating arithmetic\<close>

definition saturating_add :: "'a::len word \<Rightarrow> 'a word \<Rightarrow> 'a word" where
  [run]: "saturating_add x y = (if unat x + unat y < 2 ^ LENGTH('a) then x + y else -1)"

definition saturating_mul :: "'a::len word \<Rightarrow> 'a word \<Rightarrow> 'a word" where
  [run]: "saturating_mul x y = (if unat x * unat y < 2 ^ LENGTH('a) then x * y else -1)"

lemma unat_saturating_add:
  "unat (saturating_add x (y :: 'a::len word)) = min (unat x + unat y) (2 ^ LENGTH('a) - 1)"
  by (auto simp: saturating_add_def unat_word_ariths unsigned_minus_1_eq_mask mask_eq_exp_minus_1 min_def)

lemma unat_saturating_mul:
  "unat (saturating_mul x (y :: 'a::len word)) = min (unat x * unat y) (2 ^ LENGTH('a) - 1)"
proof (cases "unat x * unat y < 2 ^ LENGTH('a)")
  case True
  then show ?thesis by (simp add: saturating_mul_def unat_word_ariths)
next
  case False
  then have "2 ^ LENGTH('a) - 1 \<le> unat x * unat y" by linarith
  with False show ?thesis
    by (simp add: saturating_mul_def unsigned_minus_1_eq_mask mask_eq_exp_minus_1)
qed

section \<open>Character classes and string literals\<close>

definition is_ascii_lowercase :: "u8 \<Rightarrow> bool" where
  [run]: "is_ascii_lowercase b \<longleftrightarrow> 97 \<le> b \<and> b \<le> 122"

definition is_ascii_uppercase :: "u8 \<Rightarrow> bool" where
  [run]: "is_ascii_uppercase b \<longleftrightarrow> 65 \<le> b \<and> b \<le> 90"

definition is_ascii_digit :: "u8 \<Rightarrow> bool" where
  [run]: "is_ascii_digit b \<longleftrightarrow> 48 \<le> b \<and> b \<le> 57"

definition is_ascii_alphanumeric :: "u8 \<Rightarrow> bool" where
  [run]: "is_ascii_alphanumeric b \<longleftrightarrow> is_ascii_lowercase b \<or> is_ascii_uppercase b \<or> is_ascii_digit b"

text \<open>A string literal of the source as its bytes.\<close>

definition str :: "string \<Rightarrow> bytes" where
  [run]: "str s = map of_char s"

text \<open>The well-formed byte sequences of the Unicode standard, as \<^verbatim>\<open>core::str::from_utf8\<close> checks them.\<close>

definition utf8_cont :: "u8 \<Rightarrow> bool" where
  [run]: "utf8_cont b \<longleftrightarrow> 0x80 \<le> b \<and> b \<le> 0xBF"

fun valid_utf8 :: "bytes \<Rightarrow> bool" where
  "valid_utf8 [] = True"
| "valid_utf8 (b # r) =
     (if b < 0x80 then valid_utf8 r
      else if 0xC2 \<le> b \<and> b \<le> 0xDF then
        (case r of c1 # r' \<Rightarrow> utf8_cont c1 \<and> valid_utf8 r' | _ \<Rightarrow> False)
      else if 0xE0 \<le> b \<and> b \<le> 0xEF then
        (case r of c1 # c2 # r' \<Rightarrow>
             utf8_cont c1 \<and> (b = 0xE0 \<longrightarrow> 0xA0 \<le> c1) \<and> (b = 0xED \<longrightarrow> c1 \<le> 0x9F)
           \<and> utf8_cont c2 \<and> valid_utf8 r'
         | _ \<Rightarrow> False)
      else if 0xF0 \<le> b \<and> b \<le> 0xF4 then
        (case r of c1 # c2 # c3 # r' \<Rightarrow>
             utf8_cont c1 \<and> (b = 0xF0 \<longrightarrow> 0x90 \<le> c1) \<and> (b = 0xF4 \<longrightarrow> c1 \<le> 0x8F)
           \<and> utf8_cont c2 \<and> utf8_cont c3 \<and> valid_utf8 r'
         | _ \<Rightarrow> False)
      else False)"

lemma valid_utf8_ascii: "(\<And>b. b \<in> set bs \<Longrightarrow> b < 0x80) \<Longrightarrow> valid_utf8 bs"
  by (induction bs) simp_all

section \<open>Canonical codecs\<close>

text \<open>
  The contract between a serialiser and its parser that makes a wire format canonical: parsing
  what was written gives the value back (up to \<open>norm\<close>, which orders what the serialiser
  orders), and whatever the parser accepts is exactly what the serialiser writes for the result.
\<close>

locale canonical_codec =
  fixes enc :: "'a \<Rightarrow> 'e + bytes"
    and dec :: "bytes \<Rightarrow> 'f + 'a"
    and norm :: "'a \<Rightarrow> 'a"
  assumes dec_of_enc: "enc a = Inr b \<Longrightarrow> dec b = Inr (norm a)"
    and enc_of_dec: "dec b = Inr a \<Longrightarrow> enc a = Inr b"
begin

lemma dec_inject: "dec b = Inr a \<Longrightarrow> dec b' = Inr a \<Longrightarrow> b = b'"
  by (metis enc_of_dec sum.inject(2))

lemma dec_normal: "dec b = Inr a \<Longrightarrow> norm a = a"
  by (metis dec_of_enc enc_of_dec sum.inject(2))

lemma enc_norm: "enc a = Inr b \<Longrightarrow> enc (norm a) = Inr b"
  by (rule enc_of_dec) (rule dec_of_enc)

lemma enc_eq_iff: "enc a = Inr b \<Longrightarrow> enc a' = Inr b' \<Longrightarrow> b = b' \<longleftrightarrow> norm a = norm a'"
  by (metis enc_norm dec_of_enc sum.inject(2))

lemma dec_iff: "dec b = Inr a \<longleftrightarrow> enc a = Inr b \<and> norm a = a"
  using dec_of_enc enc_of_dec dec_normal by metis

lemma accepted_iff_written: "(\<exists>a. dec b = Inr a) \<longleftrightarrow> (\<exists>a. enc a = Inr b)"
  by (metis dec_of_enc enc_of_dec)

end

end
