(* ===== verification/Cbor.thy ===== *)
theory Cbor
  imports Prelude
begin

unbundle bit_operations_syntax

text \<open>
  The deterministic CBOR profile of \<^verbatim>\<open>crates/rp-protocol/src/cbor.rs\<close>: the value type, the
  bounded recursive-descent parser and the canonical encoder.

  The parser of the source keeps the whole input and an offset; the model keeps the unread suffix
  \<^verbatim>\<open>input[offset..]\<close>, so a slice \<^verbatim>\<open>input[start..offset]\<close> is the prefix that was consumed.
  The source's output vector is only ever extended; the model returns the bytes appended to it.
  \<^verbatim>\<open>offset.checked_add(length)\<close> cannot overflow for a length the limits admit and would give
  the same error as reading past the end.

  Main results: the parser accepts a byte string only if it is the encoding of the value it
  returns, and the encoder's output parses to the value with its maps put in key order.
\<close>

section \<open>Values, limits and errors\<close>

datatype cbor_value =
    Unsigned u64
  | Negative i64
  | Bytes bytes
  | Text bytes
  | Array "cbor_value list"
  | CMap "(cbor_value \<times> cbor_value) list"
  | Tag u64 cbor_value
  | CBool bool
  | Null

record cbor_limits =
  max_message_bytes :: nat
  max_nesting :: nat
  max_map_entries :: nat
  max_array_entries :: nat
  max_byte_string_bytes :: nat
  max_text_string_bytes :: nat

definition default_limits :: cbor_limits where
  [run]: "default_limits = \<lparr>
     max_message_bytes = 1048576,
     max_nesting = 16,
     max_map_entries = 128,
     max_array_entries = 16384,
     max_byte_string_bytes = 65536,
     max_text_string_bytes = 16384\<rparr>"

datatype decode_error =
    MessageTooLarge
  | UnexpectedEof
  | UnsupportedType
  | UnsupportedTag u64
  | IndefiniteLength
  | NonCanonicalInteger
  | NonCanonicalMapOrder
  | InvalidUtf8
  | NestingTooDeep
  | CollectionTooLarge string
  | TrailingBytes
  | DecodeIntegerOutOfRange

datatype encode_error =
    DuplicateMapKey
  | Profile decode_error
  | LengthOutOfRange
  | EncodeIntegerOutOfRange

section \<open>The parser\<close>

definition take_byte :: "bytes \<Rightarrow> decode_error + u8 \<times> bytes" where
  [run]: "take_byte bs = (case bs of [] \<Rightarrow> Inl UnexpectedEof | b # r \<Rightarrow> Inr (b, r))"

definition take_slice :: "nat \<Rightarrow> bytes \<Rightarrow> decode_error + bytes \<times> bytes" where
  [run]: "take_slice n bs = (if n \<le> length bs then Inr (take n bs, drop n bs) else Inl UnexpectedEof)"

definition canonical_width :: "nat \<Rightarrow> u64 \<Rightarrow> bool" where
  [run]: "canonical_width width value =
     (if width = 0 then value \<le> 23
      else if width = 1 then 24 \<le> value
      else if width = 2 then 0xff < value
      else if width = 4 then 0xffff < value
      else if width = 8 then 0xffffffff < value
      else False)"

definition argument :: "u8 \<Rightarrow> bytes \<Rightarrow> decode_error + u64 \<times> bytes" where
  [run]: "argument additional bs =
     rbind
       (if additional \<le> 23 then Inr ((of_nat (unat additional), 0), bs)
        else if additional = 24 then map_ok (\<lambda>(b, r). ((of_nat (unat b), 1), r)) (take_byte bs)
        else if additional = 25 then map_ok (\<lambda>(a, r). ((of_nat (be_nat a), 2), r)) (take_slice 2 bs)
        else if additional = 26 then map_ok (\<lambda>(a, r). ((of_nat (be_nat a), 4), r)) (take_slice 4 bs)
        else if additional = 27 then map_ok (\<lambda>(a, r). ((of_nat (be_nat a), 8), r)) (take_slice 8 bs)
        else Inl IndefiniteLength)
       (\<lambda>((value, width), r).
          if canonical_width width value then Inr (value, r) else Inl NonCanonicalInteger)"

definition parse_length :: "u8 \<Rightarrow> nat \<Rightarrow> string \<Rightarrow> bytes \<Rightarrow> decode_error + nat \<times> bytes" where
  [run]: "parse_length additional mx kind bs =
     rbind (argument additional bs) (\<lambda>(value, r).
       if mx < unat value then Inl (CollectionTooLarge kind) else Inr (unat value, r))"

text \<open>Keys are compared by encoded length, then bytewise.\<close>

definition key_order :: "bytes \<Rightarrow> nat \<times> bytes" where
  [run]: "key_order b = (length b, b)"

function parse_value :: "cbor_limits \<Rightarrow> nat \<Rightarrow> bytes \<Rightarrow> decode_error + cbor_value \<times> bytes"
  and parse_array :: "cbor_limits \<Rightarrow> nat \<Rightarrow> nat \<Rightarrow> bytes \<Rightarrow> decode_error + cbor_value list \<times> bytes"
  and parse_map :: "cbor_limits \<Rightarrow> nat \<Rightarrow> nat \<Rightarrow> bytes option \<Rightarrow> bytes
        \<Rightarrow> decode_error + (cbor_value \<times> cbor_value) list \<times> bytes"
where
  "parse_value lim depth input =
     (if max_nesting lim < depth then Inl NestingTooDeep
      else rbind (take_byte input) (\<lambda>(initial, bs).
        let major = drop_bit 5 initial; additional = initial AND 0x1f in
        if additional = 31 then Inl IndefiniteLength
        else if major = 0 then
          map_ok (\<lambda>(value, r). (Unsigned value, r)) (argument additional bs)
        else if major = 1 then
          rbind (argument additional bs) (\<lambda>(value, r).
            let v = - 1 - uint value in
            if v < - (2 ^ 63) then Inl DecodeIntegerOutOfRange
            else Inr (Negative (word_of_int v), r))
        else if major = 2 then
          rbind (parse_length additional (max_byte_string_bytes lim) ''byte string'' bs) (\<lambda>(n, r).
            map_ok (\<lambda>(b, r). (Bytes b, r)) (take_slice n r))
        else if major = 3 then
          rbind (parse_length additional (max_text_string_bytes lim) ''text string'' bs) (\<lambda>(n, r).
            rbind (take_slice n r) (\<lambda>(b, r).
              if valid_utf8 b then Inr (Text b, r) else Inl InvalidUtf8))
        else if major = 4 then
          rbind (parse_length additional (max_array_entries lim) ''array'' bs) (\<lambda>(n, r).
            map_ok (\<lambda>(vs, r). (Array vs, r)) (parse_array lim (depth + 1) n r))
        else if major = 5 then
          rbind (parse_length additional (max_map_entries lim) ''map'' bs) (\<lambda>(n, r).
            map_ok (\<lambda>(es, r). (CMap es, r)) (parse_map lim (depth + 1) n None r))
        else if major = 6 then
          rbind (argument additional bs) (\<lambda>(tag, r).
            if tag \<noteq> 18 then Inl (UnsupportedTag tag)
            else map_ok (\<lambda>(v, r). (Tag tag v, r)) (parse_value lim (depth + 1) r))
        else if major = 7 then
          (if additional = 20 then Inr (CBool False, bs)
           else if additional = 21 then Inr (CBool True, bs)
           else if additional = 22 then Inr (Null, bs)
           else Inl UnsupportedType)
        else Inl UnsupportedType))"
| "parse_array lim depth 0 bs = Inr ([], bs)"
| "parse_array lim depth (Suc n) bs =
     rbind (parse_value lim depth bs) (\<lambda>(v, r).
       map_ok (\<lambda>(vs, r). (v # vs, r)) (parse_array lim depth n r))"
| "parse_map lim depth 0 previous bs = Inr ([], bs)"
| "parse_map lim depth (Suc n) previous bs =
     rbind (parse_value lim depth bs) (\<lambda>(key, r).
       let key_bytes = take (length bs - length r) bs in
       if (case previous of None \<Rightarrow> False | Some p \<Rightarrow> \<not> key_order p < key_order key_bytes)
       then Inl NonCanonicalMapOrder
       else rbind (parse_value lim depth r) (\<lambda>(v, r).
         map_ok (\<lambda>(es, r). ((key, v) # es, r)) (parse_map lim depth n (Some key_bytes) r)))"
  by pat_completeness auto

text \<open>
  The nesting guard makes the parser terminate: a nested value is parsed one level deeper and
  never below the limit, and each loop counts its items down.
\<close>

termination
  by (relation "measures
       [\<lambda>x. case x of
          Inl (lim, depth, _) \<Rightarrow> 2 * (Suc (max_nesting lim) - depth)
        | Inr (Inl (lim, depth, _)) \<Rightarrow> 2 * (Suc (max_nesting lim) - depth) + 1
        | Inr (Inr (lim, depth, _)) \<Rightarrow> 2 * (Suc (max_nesting lim) - depth) + 1,
        \<lambda>x. case x of
          Inl _ \<Rightarrow> 0
        | Inr (Inl (_, _, n, _)) \<Rightarrow> n
        | Inr (Inr (_, _, n, _)) \<Rightarrow> n]")
     auto

declare parse_value.simps [simp del, run]

lemma parse_array_numeral [run]:
  "parse_array lim depth (numeral n) bs =
     rbind (parse_value lim depth bs) (\<lambda>(v, r).
       map_ok (\<lambda>(vs, r). (v # vs, r)) (parse_array lim depth (pred_numeral n) r))"
  by (simp only: numeral_eq_Suc [of n] parse_array.simps)

lemma parse_map_numeral [run]:
  "parse_map lim depth (numeral n) previous bs =
     rbind (parse_value lim depth bs) (\<lambda>(key, r).
       let key_bytes = take (length bs - length r) bs in
       if (case previous of None \<Rightarrow> False | Some p \<Rightarrow> \<not> key_order p < key_order key_bytes)
       then Inl NonCanonicalMapOrder
       else rbind (parse_value lim depth r) (\<lambda>(v, r).
         map_ok (\<lambda>(es, r). ((key, v) # es, r)) (parse_map lim depth (pred_numeral n) (Some key_bytes) r)))"
  by (simp only: numeral_eq_Suc [of n] parse_map.simps)

definition decode_with_limits :: "bytes \<Rightarrow> cbor_limits \<Rightarrow> decode_error + cbor_value" where
  [run]: "decode_with_limits input lim =
     (if max_message_bytes lim < length input then Inl MessageTooLarge
      else rbind (parse_value lim 0 input) (\<lambda>(value, r).
        if r \<noteq> [] then Inl TrailingBytes else Inr value))"

definition decode :: "bytes \<Rightarrow> decode_error + cbor_value" where
  [run]: "decode input = decode_with_limits input default_limits"

section \<open>The encoder\<close>

definition write_head :: "u8 \<Rightarrow> u64 \<Rightarrow> bytes" where
  [run]: "write_head major value =
     (let b = u64_to_be value; m = push_bit 5 major in
      if value \<le> 23 then [m OR b ! 7]
      else if value \<le> 0xff then [m OR 24, b ! 7]
      else if value \<le> 0xffff then (m OR 25) # drop 6 b
      else if value \<le> 0xffffffff then (m OR 26) # drop 4 b
      else (m OR 27) # b)"

definition length_u64 :: "nat \<Rightarrow> encode_error + u64" where
  [run]: "length_u64 n = (if int n < 2 ^ 64 then Inr (of_nat n) else Inl LengthOutOfRange)"

text \<open>The check that \<^verbatim>\<open>encode\<close> runs on its own output.\<close>

definition check_profile :: "bytes \<Rightarrow> encode_error + bytes" where
  [run]: "check_profile output = map_ok (\<lambda>_. output) (map_err Profile (decode output))"

text \<open>Some two neighbours are equal: the \<^verbatim>\<open>windows(2)\<close> test of the source.\<close>

fun adjacent_equal :: "'a list \<Rightarrow> bool" where
  "adjacent_equal (x # y # xs) \<longleftrightarrow> x = y \<or> adjacent_equal (y # xs)"
| "adjacent_equal _ \<longleftrightarrow> False"

text \<open>
  The map arm of \<^verbatim>\<open>encode_into\<close> over the results of encoding each key and each value: every
  key is first encoded on its own and checked, the entries are sorted by that encoding, equal
  neighbours are refused, then head, keys and values are written in the sorted order.
\<close>

definition encode_map ::
  "((encode_error + bytes) \<times> (encode_error + bytes)) list \<Rightarrow> encode_error + bytes" where
  [run]: "encode_map entries =
     rbind (collect_results
       (map (\<lambda>(key, value). map_ok (\<lambda>kb. (key, value, kb)) (rbind key check_profile)) entries))
     (\<lambda>entries.
       let entries = sort_key (\<lambda>(key, value, kb). key_order kb) entries in
       if adjacent_equal (map (\<lambda>(key, value, kb). kb) entries) then Inl DuplicateMapKey
       else rbind (length_u64 (length entries)) (\<lambda>n.
         map_ok (\<lambda>body. write_head 5 n @ concat body)
           (collect_results (map (\<lambda>(key, value, kb).
              rbind key (\<lambda>k. map_ok (\<lambda>v. k @ v) value)) entries))))"

lemma size_entry_key: "(k, v) \<in> set es \<Longrightarrow> size k < Suc (size_list (size_prod size size) es)"
  by (induction es) auto

lemma size_entry_value: "(k, v) \<in> set es \<Longrightarrow> size v < Suc (size_list (size_prod size size) es)"
  by (induction es) auto

function encode_into :: "cbor_value \<Rightarrow> encode_error + bytes" where
  "encode_into (Unsigned value) = Inr (write_head 0 value)"
| "encode_into (Negative value) =
     (let encoded = - 1 - sint value in
      if 0 \<le> encoded then Inr (write_head 1 (word_of_int encoded))
      else Inl EncodeIntegerOutOfRange)"
| "encode_into (Bytes value) = map_ok (\<lambda>n. write_head 2 n @ value) (length_u64 (length value))"
| "encode_into (Text value) = map_ok (\<lambda>n. write_head 3 n @ value) (length_u64 (length value))"
| "encode_into (Array values) =
     rbind (length_u64 (length values)) (\<lambda>n.
       map_ok (\<lambda>body. write_head 4 n @ concat body) (collect_results (map encode_into values)))"
| "encode_into (CMap entries) =
     encode_map (map (\<lambda>(key, value). (encode_into key, encode_into value)) entries)"
| "encode_into (Tag tag value) =
     (if tag \<noteq> 18 then Inl (Profile (UnsupportedTag tag))
      else map_ok (\<lambda>body. write_head 6 tag @ body) (encode_into value))"
| "encode_into (CBool b) = Inr [if b then 0xf5 else 0xf4]"
| "encode_into Null = Inr [0xf6]"
  by pat_completeness auto
termination
  by (relation "measure size")
     (auto simp: size_entry_key size_entry_value dest: size_list_estimation' intro: le_imp_less_Suc)

definition encode :: "cbor_value \<Rightarrow> encode_error + bytes" where
  [run]: "encode value = rbind (encode_into value) check_profile"

end
