(* ===== verification/Cbor_Codec.thy ===== *)
theory Cbor_Codec
  imports Cbor "HOL-Library.Multiset"
begin

unbundle bit_operations_syntax

text \<open>
  Correctness of the CBOR profile. \<open>item lim depth w v\<close> is the specification: the byte string
  \<open>w\<close> is the deterministic encoding of \<open>v\<close>, within the limits \<open>lim\<close> when nested
  \<open>depth\<close> levels deep. The parser of \<open>Cbor\<close> is proved sound and complete for it, the
  encoder is proved to write exactly the item of a value, and the two together interpret the
  codec contract of \<open>Prelude\<close>.
\<close>

section \<open>Heads\<close>

lemma u8_mask5: "(31 :: u8) = mask 5" by (simp add: mask_eq_exp_minus_1)

lemma u8_bit_less5: 
  assumes "(a :: u8) < 32" "bit a n" shows "n < 5"
proof -
  have "take_bit 5 a = a" using assms(1) less_mask_eq [of a 5] by (simp add: take_bit_eq_mask)
  then show ?thesis using assms(2) by (metis bit_take_bit_iff)
qed

lemma u8_bit_less3: 
  assumes "(a :: u8) < 8" "bit a n" shows "n < 3"
proof -
  have "take_bit 3 a = a" using assms(1) less_mask_eq [of a 3] by (simp add: take_bit_eq_mask)
  then show ?thesis using assms(2) by (metis bit_take_bit_iff)
qed

lemma head_byte_low: "(a :: u8) < 32 \<Longrightarrow> (push_bit 5 m OR a) AND 31 = a"
  by (rule bit_word_eqI) (auto simp: u8_mask5 bit_simps dest: u8_bit_less5)

lemma head_byte_high: "(a :: u8) < 32 \<Longrightarrow> m < 8 \<Longrightarrow> drop_bit 5 (push_bit 5 m OR a) = m"
  by (rule bit_word_eqI) (auto simp: bit_simps dest: u8_bit_less5 u8_bit_less3)

lemma head_byte_split: "push_bit 5 (drop_bit 5 b) OR (b AND 31) = (b :: u8)"
  by (rule bit_word_eqI) (auto simp: u8_mask5 bit_simps)

lemma u8_low_less: "(b :: u8) AND 31 < 32"
  using and_mask_less' [of 5 b] by (simp add: u8_mask5)

lemma u8_high_less: "drop_bit 5 (b :: u8) < 8"
proof -
  have "unat (drop_bit 5 b) = unat b div 32"
    by (simp add: drop_bit_eq_div unat_div)
  then show ?thesis
    using unat_u8_less [of b] by (simp add: word_less_nat_alt less_mult_imp_div_less)
qed

lemma u64_to_be_nth7: "u64_to_be v ! 7 = of_nat (unat v)"
  by (simp add: u64_to_be_def be_bytes_numeral)

lemma drop_u64_to_be: "drop 6 (u64_to_be v) = be_bytes 2 (unat v)" "drop 4 (u64_to_be v) = be_bytes 4 (unat v)"
  using drop_be_bytes [of 6 2 "unat v"] drop_be_bytes [of 4 4 "unat v"] by (simp_all add: u64_to_be_def)

lemma take_slice_ok: "take_slice n bs = Inr (a, r) \<longleftrightarrow> bs = a @ r \<and> length a = n"
  by (auto simp: take_slice_def)

lemma take_byte_ok: "take_byte bs = Inr (b, r) \<longleftrightarrow> bs = b # r"
  by (auto simp: take_byte_def split: list.splits)

lemma unat_ucast_u8 [simp]: "unat (ucast (b :: u8) :: u64) = unat b"
  using unat_u8_less [of b] by (simp add: unsigned_ucast_eq take_bit_nat_eq_self)

lemma unat_ucast_u64: "unat v \<le> 255 \<Longrightarrow> unat (ucast (v :: u64) :: u8) = unat v"
  by (simp add: unsigned_ucast_eq take_bit_nat_eq_self)

lemma ucast_ucast_u64: "unat v \<le> 255 \<Longrightarrow> ucast (ucast (v :: u64) :: u8) = v"
  by (simp add: word_unat_eq_iff unat_ucast_u64)

lemma argument_cases:
  "argument a bs = Inr (v, r) \<longleftrightarrow>
     a \<le> 23 \<and> bs = r \<and> v = of_nat (unat a)
   \<or> a = 24 \<and> (\<exists>b. bs = b # r \<and> v = of_nat (unat b) \<and> 24 \<le> v)
   \<or> a = 25 \<and> (\<exists>w. bs = w @ r \<and> length w = 2 \<and> v = of_nat (be_nat w) \<and> 0xff < v)
   \<or> a = 26 \<and> (\<exists>w. bs = w @ r \<and> length w = 4 \<and> v = of_nat (be_nat w) \<and> 0xffff < v)
   \<or> a = 27 \<and> (\<exists>w. bs = w @ r \<and> length w = 8 \<and> v = of_nat (be_nat w) \<and> 0xffffffff < v)"
  apply (auto simp: argument_def ok_iff take_slice_ok take_byte_ok canonical_width_def word_le_nat_alt unat_of_nat split: if_splits)
  done


lemma write_head_argument:
  assumes "m < 8"
  obtains b w where "write_head m v = b # w" "drop_bit 5 b = m" "b AND 31 \<noteq> 31"
    "\<And>r. argument (b AND 31) (w @ r) = Inr (v, r)"
proof -
  consider "unat v \<le> 23" | "23 < unat v" "unat v \<le> 0xff" | "0xff < unat v" "unat v \<le> 0xffff"
    | "0xffff < unat v" "unat v \<le> 0xffffffff" | "0xffffffff < unat v" by linarith
  then show thesis
  proof cases
    case 1
    let ?a = "of_nat (unat v) :: u8"
    have a: "unat ?a = unat v" using 1 by (simp add: unat_ucast_u64)
    have "?a < 32" "?a \<noteq> 31" using 1 a by (auto simp: word_less_nat_alt)
    moreover have "argument ?a r = Inr (v, r)" for r
      unfolding argument_cases using 1 a by (simp add: word_le_nat_alt ucast_ucast_u64)
    ultimately show thesis
      using 1 assms by (intro that)
        (auto simp: write_head_def word_le_nat_alt u64_to_be_nth7 head_byte_low head_byte_high
          simp del: drop_bit_or)
  next
    case 2
    let ?b = "of_nat (unat v) :: u8"
    have "argument 24 ([?b] @ r) = Inr (v, r)" for r
      unfolding argument_cases using 2 by (simp add: word_le_nat_alt unat_ucast_u64 ucast_ucast_u64)
    then show thesis
      using 2 assms by (intro that)
        (auto simp: write_head_def word_le_nat_alt u64_to_be_nth7 head_byte_low head_byte_high simp del: drop_bit_or)
  next
    case 3
    have "argument 25 (be_bytes 2 (unat v) @ r) = Inr (v, r)" for r
      unfolding argument_cases using 3 by (simp add: word_less_nat_alt be_nat_be_bytes)
    then show thesis
      using 3 assms by (intro that)
        (auto simp: write_head_def word_le_nat_alt drop_u64_to_be head_byte_low head_byte_high simp del: drop_bit_or)
  next
    case 4
    have "argument 26 (be_bytes 4 (unat v) @ r) = Inr (v, r)" for r
      unfolding argument_cases using 4 by (simp add: word_less_nat_alt be_nat_be_bytes)
    then show thesis
      using 4 assms by (intro that)
        (auto simp: write_head_def word_le_nat_alt drop_u64_to_be head_byte_low head_byte_high simp del: drop_bit_or)
  next
    case 5
    have "argument 27 (u64_to_be v @ r) = Inr (v, r)" for r
      unfolding argument_cases using 5 unat_u64_less [of v] by (simp add: word_less_nat_alt be_nat_be_bytes u64_to_be_def)
    then show thesis
      using 5 assms by (intro that)
        (auto simp: write_head_def word_le_nat_alt drop_u64_to_be head_byte_low head_byte_high simp del: drop_bit_or)
  qed
qed

lemma argument_write_head:
  assumes "argument a bs = Inr (v, r)"
  obtains w where "bs = w @ r" "\<And>m. write_head m v = (push_bit 5 m OR a) # w"
proof -
  from assms consider 
     "a \<le> 23" "bs = r" "v = of_nat (unat a)"
   | b where "a = 24" "bs = b # r" "v = of_nat (unat b)" "24 \<le> v"
   | w where "a = 25" "bs = w @ r" "length w = 2" "v = of_nat (be_nat w)" "0xff < v"
   | w where "a = 26" "bs = w @ r" "length w = 4" "v = of_nat (be_nat w)" "0xffff < v"
   | w where "a = 27" "bs = w @ r" "length w = 8" "v = of_nat (be_nat w)" "0xffffffff < v"
    unfolding argument_cases by blast
  then show thesis
  proof cases
    case 1
    then show ?thesis
      by (intro that [of "[]"]) (auto simp: write_head_def word_le_nat_alt u64_to_be_nth7)
  next
    case (2 b)
    then show ?thesis using unat_u8_less [of b]
      by (intro that [of "[b]"]) (auto simp: write_head_def word_le_nat_alt u64_to_be_nth7)
  next
    case (3 w)
    have "unat v = be_nat w" using 3 be_nat_less [of w] by (simp add: unat_of_nat)
    then show ?thesis using 3 be_nat_less [of w]
      by (intro that [of w]) (auto simp: write_head_def word_le_nat_alt word_less_nat_alt drop_u64_to_be be_bytes_be_nat)
  next
    case (4 w)
    have "unat v = be_nat w" using 4 be_nat_less [of w] by (simp add: unat_of_nat)
    then show ?thesis using 4 be_nat_less [of w]
      by (intro that [of w]) (auto simp: write_head_def word_le_nat_alt word_less_nat_alt drop_u64_to_be be_bytes_be_nat)
  next
    case (5 w)
    have "unat v = be_nat w" using 5 be_nat_less [of w] by (simp add: unat_of_nat)
    then show ?thesis using 5 be_nat_less [of w]
      by (intro that [of w]) (auto simp: write_head_def word_le_nat_alt word_less_nat_alt u64_to_be_def be_bytes_be_nat)
  qed
qed


text \<open>The key order agrees with the order of integer keys.\<close>

lemma write_head_mono:
  assumes "a < b"
  shows "key_order (write_head 0 a) < key_order (write_head 0 b)" and "write_head 0 a < write_head 0 b"
proof -
  note defs = write_head_def Let_def key_order_def word_le_nat_alt word_less_nat_alt u64_to_be_nth7 drop_u64_to_be
  have ab: "unat a < unat b" using assms by (simp add: word_less_nat_alt)
  consider "unat b \<le> 23" | "unat a \<le> 23" "23 < unat b" | "23 < unat a" "unat b \<le> 0xff"
    | "23 < unat a" "unat a \<le> 0xff" "0xff < unat b" | "0xff < unat a" "unat b \<le> 0xffff"
    | "0xff < unat a" "unat a \<le> 0xffff" "0xffff < unat b" | "0xffff < unat a" "unat b \<le> 0xffffffff"
    | "0xffff < unat a" "unat a \<le> 0xffffffff" "0xffffffff < unat b" | "0xffffffff < unat a"
    by linarith
  then have "key_order (write_head 0 a) < key_order (write_head 0 b) \<and> write_head 0 a < write_head 0 b"
    using ab u64_to_be_less [OF assms] be_bytes_less [OF ab, of 2] be_bytes_less [OF ab, of 4]
    by cases (auto simp: defs unat_ucast_u64)
  then show "key_order (write_head 0 a) < key_order (write_head 0 b)" and "write_head 0 a < write_head 0 b" by blast+
qed

lemma write_head_less_iff:
  "key_order (write_head 0 a) < key_order (write_head 0 b) \<longleftrightarrow> a < b"
  "write_head 0 a < write_head 0 b \<longleftrightarrow> a < b"
  by (metis write_head_mono linorder_less_linear order_less_asym)+

section \<open>The specification\<close>

inductive item :: "cbor_limits \<Rightarrow> nat \<Rightarrow> bytes \<Rightarrow> cbor_value \<Rightarrow> bool" for lim where
  item_unsigned: "depth \<le> max_nesting lim \<Longrightarrow> item lim depth (write_head 0 v) (Unsigned v)"
| item_negative: "depth \<le> max_nesting lim \<Longrightarrow> sint v < 0 \<Longrightarrow>
    item lim depth (write_head 1 (- 1 - v)) (Negative v)"
| item_bytes: "depth \<le> max_nesting lim \<Longrightarrow> length b \<le> max_byte_string_bytes lim \<Longrightarrow>
    length b < 2 ^ 64 \<Longrightarrow> item lim depth (write_head 2 (of_nat (length b)) @ b) (Bytes b)"
| item_text: "depth \<le> max_nesting lim \<Longrightarrow> length b \<le> max_text_string_bytes lim \<Longrightarrow>
    length b < 2 ^ 64 \<Longrightarrow> valid_utf8 b \<Longrightarrow>
    item lim depth (write_head 3 (of_nat (length b)) @ b) (Text b)"
| item_array: "depth \<le> max_nesting lim \<Longrightarrow> length vs \<le> max_array_entries lim \<Longrightarrow>
    length vs < 2 ^ 64 \<Longrightarrow> list_all2 (item lim (Suc depth)) ws vs \<Longrightarrow>
    item lim depth (write_head 4 (of_nat (length vs)) @ concat ws) (Array vs)"
| item_map: "depth \<le> max_nesting lim \<Longrightarrow> length es \<le> max_map_entries lim \<Longrightarrow>
    length es < 2 ^ 64 \<Longrightarrow>
    list_all2 (item lim (Suc depth)) kws (map fst es) \<Longrightarrow>
    list_all2 (item lim (Suc depth)) vws (map snd es) \<Longrightarrow>
    sorted_wrt (<) (map key_order kws) \<Longrightarrow>
    item lim depth (write_head 5 (of_nat (length es)) @ concat (map2 (@) kws vws)) (CMap es)"
| item_tag: "depth \<le> max_nesting lim \<Longrightarrow> item lim (Suc depth) w v \<Longrightarrow>
    item lim depth (write_head 6 18 @ w) (Tag 18 v)"
| item_false: "depth \<le> max_nesting lim \<Longrightarrow> item lim depth [0xf4] (CBool False)"
| item_true: "depth \<le> max_nesting lim \<Longrightarrow> item lim depth [0xf5] (CBool True)"
| item_null: "depth \<le> max_nesting lim \<Longrightarrow> item lim depth [0xf6] Null"

section \<open>The parser meets the specification\<close>

lemma head_of_argument:
  assumes "argument (b AND 31) bs = Inr (v, r)"
  shows "b # bs = write_head (drop_bit 5 b) v @ r"
  using assms by (rule argument_write_head) (simp add: head_byte_split)

lemma parse_length_ok:
  "parse_length a mx kind bs = Inr (n, r) \<longleftrightarrow>
     (\<exists>v. argument a bs = Inr (v, r) \<and> n = unat v \<and> n \<le> mx)"
  by (force simp: parse_length_def ok_iff split: if_splits)

lemma head_of_length:
  assumes "parse_length (b AND 31) mx kind bs = Inr (n, r)"
  shows "b # bs = write_head (drop_bit 5 b) (of_nat n) @ r" and "n \<le> mx" and "n < 2 ^ 64"
  using assms unat_u64_less head_of_argument [of b bs]
  by (auto simp: parse_length_ok)

lemma u8_less_8_cases:
  assumes "(m :: u8) < 8"
  shows "m \<in> {0, 1, 2, 3, 4, 5, 6, 7}"
proof -
  have "unat m \<in> {0, 1, 2, 3, 4, 5, 6, 7}" using assms by (auto simp: word_less_nat_alt)
  then show ?thesis by (auto simp: word_unat_eq_iff)
qed

lemma sint_word_of_int_i64: "- (2 ^ 63) \<le> x \<Longrightarrow> x < 2 ^ 63 \<Longrightarrow> sint (word_of_int x :: i64) = x"
  by (simp add: int_word_sint)

lemma negative_item:
  assumes "depth \<le> max_nesting lim" and "- (2 ^ 63) \<le> - 1 - uint v"
  shows "item lim depth (write_head 1 v) (Negative (word_of_int (- 1 - uint v)))"
proof -
  have "sint (word_of_int (- 1 - uint v) :: i64) = - 1 - uint v"
    using assms(2) uint_nonnegative [of v]
    by (intro sint_word_of_int_i64) linarith+
  then have "sint (word_of_int (- 1 - uint v) :: i64) < 0"
    using uint_nonnegative [of v] by linarith
  from item_negative [OF assms(1) this] show ?thesis by simp
qed

lemma parse_value_elim:
  assumes "parse_value lim depth input = Inr (v, r)"
  obtains (unsigned) u where "input = write_head 0 u @ r" "v = Unsigned u"
  | (negative) u where "input = write_head 1 u @ r" "- (2 ^ 63) \<le> - 1 - uint u"
      "v = Negative (word_of_int (- 1 - uint u))"
  | (bytes) b where "input = write_head 2 (of_nat (length b)) @ b @ r"
      "length b \<le> max_byte_string_bytes lim" "length b < 2 ^ 64" "v = Bytes b"
  | (utf8) b where "input = write_head 3 (of_nat (length b)) @ b @ r"
      "length b \<le> max_text_string_bytes lim" "length b < 2 ^ 64" "valid_utf8 b" "v = Text b"
  | (array) n r' vs where "input = write_head 4 (of_nat n) @ r'"
      "n \<le> max_array_entries lim" "n < 2 ^ 64"
      "parse_array lim (Suc depth) n r' = Inr (vs, r)" "v = Array vs"
  | (map) n r' es where "input = write_head 5 (of_nat n) @ r'"
      "n \<le> max_map_entries lim" "n < 2 ^ 64"
      "parse_map lim (Suc depth) n None r' = Inr (es, r)" "v = CMap es"
  | (tag) r' x where "input = write_head 6 18 @ r'"
      "parse_value lim (Suc depth) r' = Inr (x, r)" "v = Tag 18 x"
  | (bool) b where "input = (if b then 0xf5 else 0xf4) # r" "v = CBool b"
  | (null) "input = 0xf6 # r" "v = Null"
proof -
  from assms obtain b bs where input: "input = b # bs" and d: "\<not> max_nesting lim < depth"
    and a: "b AND 31 \<noteq> 31"
    by (auto simp: parse_value.simps [of lim depth] ok_iff take_byte_ok Let_def split: if_splits)
  note pv = assms [unfolded parse_value.simps [of lim depth] input take_byte_def list.case rbind_simps
      prod.case Let_def if_not_P [OF d] if_not_P [OF a]]
  have simple: "b = push_bit 5 (drop_bit 5 b) OR (b AND 31)" by (simp add: head_byte_split)
  consider "drop_bit 5 b = 0" | "drop_bit 5 b = 1" | "drop_bit 5 b = 2" | "drop_bit 5 b = 3"
    | "drop_bit 5 b = 4" | "drop_bit 5 b = 5" | "drop_bit 5 b = 6" | "drop_bit 5 b = 7"
    using u8_less_8_cases [OF u8_high_less] by auto
  then show thesis
  proof cases
    case 1
    with pv head_of_argument [of b bs] show ?thesis
      by (auto simp: ok_iff input intro: unsigned)
  next
    case 2
    with pv head_of_argument [of b bs] show ?thesis
      by (auto simp: ok_iff input intro: negative split: if_splits)
  next
    case 3
    with pv head_of_length [of b _ _ bs] show ?thesis
      by (fastforce simp: ok_iff input take_slice_ok intro: bytes)
  next
    case 4
    with pv head_of_length [of b _ _ bs] show ?thesis
      by (fastforce simp: ok_iff input take_slice_ok intro: utf8 split: if_splits)
  next
    case 5
    with pv head_of_length [of b _ _ bs] show ?thesis
      by (fastforce simp: ok_iff input intro: array)
  next
    case 6
    with pv head_of_length [of b _ _ bs] show ?thesis
      by (fastforce simp: ok_iff input intro: map)
  next
    case 7
    with pv head_of_argument [of b bs] show ?thesis
      by (fastforce simp: ok_iff input intro: tag split: if_splits)
  next
    case 8
    with pv simple show ?thesis
      by (auto simp: ok_iff input intro: bool [of True] bool [of False] null split: if_splits)
  qed
qed

lemma parse_value_depth: "parse_value lim depth input = Inr (v, r) \<Longrightarrow> depth \<le> max_nesting lim"
  by (auto simp: parse_value.simps [of lim depth] split: if_splits)

text \<open>Lifting a property of parsed values to the two loops.\<close>

lemma parse_array_sound:
  assumes "\<And>bs v r. parse_value lim depth bs = Inr (v, r) \<Longrightarrow> \<exists>w. bs = w @ r \<and> item lim depth w v"
    and "parse_array lim depth n bs = Inr (vs, r)"
  shows "\<exists>ws. bs = concat ws @ r \<and> length vs = n \<and> list_all2 (item lim depth) ws vs"
  using assms(2)
proof (induction n arbitrary: bs vs)
  case 0
  then show ?case by (auto intro: exI [of _ "[]"])
next
  case (Suc n)
  then obtain v r' vs' where v: "parse_value lim depth bs = Inr (v, r')"
    and vs': "parse_array lim depth n r' = Inr (vs', r)" and vs: "vs = v # vs'"
    by (auto simp: ok_iff)
  from assms(1) [OF v] obtain w where w: "bs = w @ r'" "item lim depth w v" by blast
  from Suc.IH [OF vs'] obtain ws where
    "r' = concat ws @ r" "length vs' = n" "list_all2 (item lim depth) ws vs'" by blast
  with w vs show ?case by (intro exI [of _ "w # ws"]) simp
qed

lemma parse_map_sound:
  assumes "\<And>bs v r. parse_value lim depth bs = Inr (v, r) \<Longrightarrow> \<exists>w. bs = w @ r \<and> item lim depth w v"
    and "parse_map lim depth n previous bs = Inr (es, r)"
  shows "\<exists>kws vws. bs = concat (map2 (@) kws vws) @ r \<and> length es = n
       \<and> list_all2 (item lim depth) kws (map fst es) \<and> list_all2 (item lim depth) vws (map snd es)
       \<and> sorted_wrt (<) (map key_order (case previous of None \<Rightarrow> kws | Some p \<Rightarrow> p # kws))"
  using assms(2)
proof (induction n arbitrary: bs es previous)
  case 0
  then show ?case by (auto intro!: exI [of _ "[]"] split: option.splits)
next
  case (Suc n)
  then obtain k r1 v r2 es' where k: "parse_value lim depth bs = Inr (k, r1)"
    and ord: "case previous of None \<Rightarrow> True
       | Some p \<Rightarrow> key_order p < key_order (take (length bs - length r1) bs)"
    and v: "parse_value lim depth r1 = Inr (v, r2)"
    and es': "parse_map lim depth n (Some (take (length bs - length r1) bs)) r2 = Inr (es', r)"
    and es: "es = (k, v) # es'"
    by (fastforce simp: ok_iff Let_def split: if_splits option.splits)
  from assms(1) [OF k] obtain kw where kw: "bs = kw @ r1" "item lim depth kw k" by blast
  from assms(1) [OF v] obtain vw where vw: "r1 = vw @ r2" "item lim depth vw v" by blast
  have slice: "take (length bs - length r1) bs = kw" using kw by simp
  from Suc.IH [OF es'] obtain kws vws where
    IH: "r2 = concat (map2 (@) kws vws) @ r" "length es' = n"
      "list_all2 (item lim depth) kws (map fst es')" "list_all2 (item lim depth) vws (map snd es')"
      "sorted_wrt (<) (key_order kw # map key_order kws)"
    by (auto simp: slice)
  then show ?case
    using kw vw es ord slice
    by (intro exI [of _ "kw # kws"] exI [of _ "vw # vws"])
       (fastforce split: option.splits)
qed

lemma parse_value_sound:
  "parse_value lim depth bs = Inr (v, r) \<Longrightarrow> \<exists>w. bs = w @ r \<and> item lim depth w v"
proof (induction "Suc (max_nesting lim) - depth" arbitrary: depth bs v r rule: less_induct)
  case less
  note d = parse_value_depth [OF less.prems]
  have "Suc (max_nesting lim) - Suc depth < Suc (max_nesting lim) - depth"
    using d by simp
  note IH = less.hyps [OF this]
  from less.prems show ?case
  proof (cases rule: parse_value_elim)
    case (unsigned u)
    with d show ?thesis by (auto intro!: item_unsigned)
  next
    case (negative u)
    with negative_item [OF d negative(2)] show ?thesis by auto
  next
    case (bytes b)
    with d show ?thesis by (auto intro!: item_bytes)
  next
    case (utf8 b)
    with d show ?thesis by (auto intro!: item_text)
  next
    case (array n r' vs)
    with d parse_array_sound [OF IH array(4)] show ?thesis by (auto intro!: item_array)
  next
    case (map n r' es)
    with d parse_map_sound [OF IH map(4)] show ?thesis by (auto intro!: item_map)
  next
    case (tag r' x)
    with d IH [OF tag(2)] show ?thesis by (auto intro!: item_tag)
  next
    case (bool b)
    with item_true [OF d] item_false [OF d] show ?thesis by (cases b) auto
  next
    case null
    with item_null [OF d] show ?thesis by auto
  qed
qed


text \<open>What the parser does on a head the encoder wrote.\<close>

lemma parse_value_write_head:
  assumes d: "\<not> max_nesting lim < depth"
  shows
  "parse_value lim depth (write_head 0 u @ r) = Inr (Unsigned u, r)"
  "parse_value lim depth (write_head 1 u @ r) =
     (if - 1 - uint u < - (2 ^ 63) then Inl DecodeIntegerOutOfRange
      else Inr (Negative (word_of_int (- 1 - uint u)), r))"
  "parse_value lim depth (write_head 2 u @ r) =
     (if max_byte_string_bytes lim < unat u then Inl (CollectionTooLarge ''byte string'')
      else map_ok (\<lambda>(b, r). (Bytes b, r)) (take_slice (unat u) r))"
  "parse_value lim depth (write_head 3 u @ r) =
     (if max_text_string_bytes lim < unat u then Inl (CollectionTooLarge ''text string'')
      else rbind (take_slice (unat u) r) (\<lambda>(b, r).
        if valid_utf8 b then Inr (Text b, r) else Inl InvalidUtf8))"
  "parse_value lim depth (write_head 4 u @ r) =
     (if max_array_entries lim < unat u then Inl (CollectionTooLarge ''array'')
      else map_ok (\<lambda>(vs, r). (Array vs, r)) (parse_array lim (Suc depth) (unat u) r))"
  "parse_value lim depth (write_head 5 u @ r) =
     (if max_map_entries lim < unat u then Inl (CollectionTooLarge ''map'')
      else map_ok (\<lambda>(es, r). (CMap es, r)) (parse_map lim (Suc depth) (unat u) None r))"
  "parse_value lim depth (write_head 6 u @ r) =
     (if u \<noteq> 18 then Inl (UnsupportedTag u)
      else map_ok (\<lambda>(v, r). (Tag u v, r)) (parse_value lim (Suc depth) r))"
proof -
  have head: "\<exists>b w. write_head m u = b # w \<and> drop_bit 5 b = m \<and> b AND 31 \<noteq> 31
      \<and> (\<forall>r. argument (b AND 31) (w @ r) = Inr (u, r))" if "m < 8" for m
    using write_head_argument [OF that, of u] by metis
  note unfold = parse_value.simps [of lim depth] take_byte_def parse_length_def Let_def
  show "parse_value lim depth (write_head 0 u @ r) = Inr (Unsigned u, r)"
    using head [of 0] d by (auto simp: unfold)
  show "parse_value lim depth (write_head 1 u @ r) =
     (if - 1 - uint u < - (2 ^ 63) then Inl DecodeIntegerOutOfRange
      else Inr (Negative (word_of_int (- 1 - uint u)), r))"
    using head [of 1] d by (auto simp: unfold)
  show "parse_value lim depth (write_head 2 u @ r) =
     (if max_byte_string_bytes lim < unat u then Inl (CollectionTooLarge ''byte string'')
      else map_ok (\<lambda>(b, r). (Bytes b, r)) (take_slice (unat u) r))"
    using head [of 2] d by (auto simp: unfold)
  show "parse_value lim depth (write_head 3 u @ r) =
     (if max_text_string_bytes lim < unat u then Inl (CollectionTooLarge ''text string'')
      else rbind (take_slice (unat u) r) (\<lambda>(b, r).
        if valid_utf8 b then Inr (Text b, r) else Inl InvalidUtf8))"
    using head [of 3] d by (auto simp: unfold)
  show "parse_value lim depth (write_head 4 u @ r) =
     (if max_array_entries lim < unat u then Inl (CollectionTooLarge ''array'')
      else map_ok (\<lambda>(vs, r). (Array vs, r)) (parse_array lim (Suc depth) (unat u) r))"
    using head [of 4] d by (auto simp: unfold)
  show "parse_value lim depth (write_head 5 u @ r) =
     (if max_map_entries lim < unat u then Inl (CollectionTooLarge ''map'')
      else map_ok (\<lambda>(es, r). (CMap es, r)) (parse_map lim (Suc depth) (unat u) None r))"
    using head [of 5] d by (auto simp: unfold)
  show "parse_value lim depth (write_head 6 u @ r) =
     (if u \<noteq> 18 then Inl (UnsupportedTag u)
      else map_ok (\<lambda>(v, r). (Tag u v, r)) (parse_value lim (Suc depth) r))"
    using head [of 6] d by (auto simp: unfold)
qed

lemma parse_value_simple:
  assumes d: "\<not> max_nesting lim < depth"
  shows
  "parse_value lim depth (0xf4 # r) = Inr (CBool False, r)"
  "parse_value lim depth (0xf5 # r) = Inr (CBool True, r)"
  "parse_value lim depth (0xf6 # r) = Inr (Null, r)"
  using d by (simp_all add: parse_value.simps [of lim depth] take_byte_def)

lemma parse_array_complete:
  assumes "list_all2 (\<lambda>w v. \<forall>r. parse_value lim depth (w @ r) = Inr (v, r)) ws vs"
  shows "parse_array lim depth (length vs) (concat ws @ r) = Inr (vs, r)"
  using assms by (induction ws vs rule: list_all2_induct) simp_all

lemma parse_map_complete:
  assumes "list_all2 (\<lambda>w v. \<forall>r. parse_value lim depth (w @ r) = Inr (v, r)) kws (map fst es)"
    and "list_all2 (\<lambda>w v. \<forall>r. parse_value lim depth (w @ r) = Inr (v, r)) vws (map snd es)"
    and "sorted_wrt (<) (map key_order (case previous of None \<Rightarrow> kws | Some p \<Rightarrow> p # kws))"
  shows "parse_map lim depth (length es) previous (concat (map2 (@) kws vws) @ r) = Inr (es, r)"
  using assms
proof (induction es arbitrary: kws vws previous)
  case Nil
  then show ?case by simp
next
  case (Cons e es)
  obtain k v where e: "e = (k, v)" by (cases e)
  from Cons.prems e obtain kw kws' vw vws' where ws: "kws = kw # kws'" "vws = vw # vws'"
    by (auto simp: list_all2_Cons2)
  have "sorted_wrt (<) (map key_order (case Some kw of None \<Rightarrow> kws' | Some p \<Rightarrow> p # kws'))"
    and "case previous of None \<Rightarrow> True | Some p \<Rightarrow> key_order p < key_order kw"
    using Cons.prems(3) ws by (auto split: option.splits)
  moreover from Cons.prems ws e
  have "list_all2 (\<lambda>w v. \<forall>r. parse_value lim depth (w @ r) = Inr (v, r)) kws' (map fst es)"
    and "list_all2 (\<lambda>w v. \<forall>r. parse_value lim depth (w @ r) = Inr (v, r)) vws' (map snd es)"
    and "\<And>r. parse_value lim depth (kw @ r) = Inr (k, r)"
    and "\<And>r. parse_value lim depth (vw @ r) = Inr (v, r)"
    by auto
  ultimately show ?case
    using Cons.IH [of kws' vws' "Some kw"] ws e by (auto split: option.splits)
qed

lemma uint_neg_arg:
  assumes "sint (v :: i64) < 0"
  shows "uint (- 1 - v) = - 1 - sint v"
proof -
  have "uint (word_of_int (- 1 - sint v) :: u64) = (- 1 - sint v) mod 2 ^ 64"
    by (subst uint_word_of_int) simp
  moreover have "- 1 - sint v < 2 ^ 64" using sint_ge [of v] by simp
  ultimately show ?thesis using assms by simp
qed

lemma parse_value_complete: "item lim depth w v \<Longrightarrow> parse_value lim depth (w @ r) = Inr (v, r)"
proof (induction arbitrary: r rule: item.induct)
  case (item_negative depth v)
  then show ?case
    using sint_ge [of v] by (simp add: parse_value_write_head uint_neg_arg)
next
  case (item_array depth vs ws)
  then have "list_all2 (\<lambda>w v. \<forall>r. parse_value lim (Suc depth) (w @ r) = Inr (v, r)) ws vs"
    by (auto elim: list_all2_mono)
  with item_array parse_array_complete [OF this] show ?case
    by (simp add: parse_value_write_head unat_of_nat)
next
  case (item_map depth es kws vws)
  then have "list_all2 (\<lambda>w v. \<forall>r. parse_value lim (Suc depth) (w @ r) = Inr (v, r)) kws (map fst es)"
    and "list_all2 (\<lambda>w v. \<forall>r. parse_value lim (Suc depth) (w @ r) = Inr (v, r)) vws (map snd es)"
    by (auto elim: list_all2_mono)
  with item_map parse_map_complete [OF this, of None] show ?case
    by (simp add: parse_value_write_head unat_of_nat)
qed (auto simp: parse_value_write_head parse_value_simple unat_of_nat take_slice_def)

lemma item_depth_antimono: "item lim depth w v \<Longrightarrow> depth' \<le> depth \<Longrightarrow> item lim depth' w v"
proof (induction arbitrary: depth' rule: item.induct)
  case (item_array depth vs ws)
  then have "list_all2 (item lim (Suc depth')) ws vs"
    by (auto elim: list_all2_mono)
  with item_array show ?case by (auto intro!: item.item_array)
next
  case (item_map depth es kws vws)
  then have "list_all2 (item lim (Suc depth')) kws (map fst es)"
    and "list_all2 (item lim (Suc depth')) vws (map snd es)"
    by (auto elim: list_all2_mono)
  with item_map show ?case by (auto intro!: item.item_map)
next
  case (item_tag depth w v)
  then show ?case by (auto intro!: item.item_tag)
qed (auto intro: item.intros)

lemma decode_iff_item:
  "decode bs = Inr v \<longleftrightarrow> length bs \<le> max_message_bytes default_limits \<and> item default_limits 0 bs v"
proof
  assume "decode bs = Inr v"
  then have len: "length bs \<le> max_message_bytes default_limits"
    and "parse_value default_limits 0 bs = Inr (v, [])"
    by (auto simp: decode_def decode_with_limits_def ok_iff split: if_splits)
  from parse_value_sound [OF this(2)] len
  show "length bs \<le> max_message_bytes default_limits \<and> item default_limits 0 bs v" by simp
next
  assume "length bs \<le> max_message_bytes default_limits \<and> item default_limits 0 bs v"
  with parse_value_complete [of default_limits 0 bs v "[]"] show "decode bs = Inr v"
    by (simp add: decode_def decode_with_limits_def)
qed

definition encoded :: "cbor_value \<Rightarrow> bytes" where
  "encoded v = (case encode_into v of Inl e \<Rightarrow> [] | Inr w \<Rightarrow> w)"

lemma encoded_eq: "encode_into v = Inr w \<Longrightarrow> encoded v = w"
  by (simp add: encoded_def)

lemma check_profile_ok [ok_iff]: "check_profile w = Inr w' \<longleftrightarrow> w' = w \<and> (\<exists>v. decode w = Inr v)"
  by (auto simp: check_profile_def ok_iff)

lemma encode_ok [ok_iff]: "encode v = Inr w \<longleftrightarrow> encode_into v = Inr w \<and> (\<exists>v. decode w = Inr v)"
  by (auto simp: encode_def ok_iff)

lemma encode_encoded: "encode v = Inr w \<Longrightarrow> encoded v = w"
  by (auto simp: ok_iff encoded_eq)

lemma sort_key_map: "sort_key f (map g xs) = map g (sort_key (\<lambda>x. f (g x)) xs)"
proof -
  have ins: "insort_key f (g x) (map g ys) = map g (insort_key (\<lambda>x. f (g x)) x ys)" for x ys
    by (induction ys) auto
  show ?thesis by (induction xs) (simp_all add: ins)
qed

lemma key_order_inject [simp]: "key_order a = key_order b \<longleftrightarrow> a = b"
  by (auto simp: key_order_def)

lemma adjacent_equal_sorted:
  "sorted (map key_order xs) \<Longrightarrow> adjacent_equal xs \<longleftrightarrow> \<not> distinct xs"
  by (induction xs rule: adjacent_equal.induct) (auto simp: dest: order.antisym)

abbreviation entry_order :: "cbor_value \<times> cbor_value \<Rightarrow> nat \<times> bytes" where
  "entry_order e \<equiv> key_order (encoded (fst e))"

lemma collect_map_ok:
  "collect_results (map f xs) = Inr ys \<longleftrightarrow> (\<forall>x\<in>set xs. \<exists>y. f x = Inr y) \<and> ys = map (\<lambda>x. projr (f x)) xs"
  by (induction xs arbitrary: ys) (auto simp: ok_iff)

lemma collect_map_Inr:
  assumes "\<And>x. x \<in> set xs \<Longrightarrow> (\<exists>y. f x = Inr y) \<longleftrightarrow> P x" and "\<And>x. x \<in> set xs \<Longrightarrow> P x \<Longrightarrow> f x = Inr (g x)"
  shows "collect_results (map f xs) = Inr ys \<longleftrightarrow> (\<forall>x\<in>set xs. P x) \<and> ys = map g xs"
proof
  assume "collect_results (map f xs) = Inr ys"
  then have eq: "map f xs = map Inr ys" by (simp add: ok_iff)
  then have "\<exists>y. f x = Inr y" if "x \<in> set xs" for x
    using that by (metis (no_types, lifting) ex_map_conv image_eqI list.set_map)
  then have P: "\<forall>x\<in>set xs. P x" using assms(1) by blast
  then have "map f xs = map Inr (map g xs)" using assms(2) by simp
  with eq have "ys = map g xs"
    by (metis inj_Inr inj_map_eq_map)
  with P show "(\<forall>x\<in>set xs. P x) \<and> ys = map g xs" by blast
next
  assume "(\<forall>x\<in>set xs. P x) \<and> ys = map g xs"
  then show "collect_results (map f xs) = Inr ys" using assms(2) by (simp add: ok_iff)
qed

lemma encode_into_map_iff:
  "encode_into (CMap es) = Inr w \<longleftrightarrow>
     (\<forall>e\<in>set es. encode (fst e) = Inr (encoded (fst e)) \<and> encode_into (snd e) = Inr (encoded (snd e)))
   \<and> distinct (map (\<lambda>e. encoded (fst e)) es) \<and> length es < 2 ^ 64
   \<and> w = write_head 5 (of_nat (length es))
       @ concat (map (\<lambda>e. encoded (fst e) @ encoded (snd e)) (sort_key entry_order es))"
  (is "?L = ?R")
proof -
  let ?T = "\<lambda>e. (encode_into (fst e), encode_into (snd e), encoded (fst e))"
  let ?ss = "sort_key entry_order es"
  let ?K = "\<forall>e\<in>set es. encode (fst e) = Inr (encoded (fst e))"
  let ?V = "\<forall>e\<in>set es. encode_into (snd e) = Inr (encoded (snd e))"
  have keys: "collect_results (map (\<lambda>e. map_ok (\<lambda>kb. (encode_into (fst e), encode_into (snd e), kb))
       (encode (fst e))) es) = Inr ts \<longleftrightarrow> ?K \<and> ts = map ?T es" for ts
    by (rule collect_map_Inr) (auto simp: map_ok_ok dest: encode_encoded)
  have body: "collect_results (map (\<lambda>e. rbind (encode_into (fst e)) (\<lambda>k. map_ok (\<lambda>v. k @ v)
       (encode_into (snd e)))) ?ss) = Inr body
     \<longleftrightarrow> ?V \<and> body = map (\<lambda>e. encoded (fst e) @ encoded (snd e)) ?ss" if ?K for body
  proof -
    have "collect_results (map (\<lambda>e. rbind (encode_into (fst e)) (\<lambda>k. map_ok (\<lambda>v. k @ v)
       (encode_into (snd e)))) ?ss) = Inr body
     \<longleftrightarrow> (\<forall>e\<in>set ?ss. encode_into (snd e) = Inr (encoded (snd e)))
       \<and> body = map (\<lambda>e. encoded (fst e) @ encoded (snd e)) ?ss"
      using that by (intro collect_map_Inr) (auto simp: rbind_ok map_ok_ok encode_ok dest: encoded_eq)
    then show ?thesis by simp
  qed
  have "sorted (map key_order (map (\<lambda>e. encoded (fst e)) ?ss))"
    using sorted_sort_key [of entry_order es] by (simp add: comp_def)
  from adjacent_equal_sorted [OF this]
  have dup: "adjacent_equal (map (\<lambda>e. encoded (fst e)) ?ss) \<longleftrightarrow> \<not> distinct (map (\<lambda>e. encoded (fst e)) es)"
    by (simp add: distinct_map)
  let ?F = "\<lambda>ts.
       let ts = sort_key (\<lambda>(key, value, kb). key_order kb) ts in
       if adjacent_equal (map (\<lambda>(key, value, kb). kb) ts) then Inl DuplicateMapKey
       else rbind (length_u64 (length ts)) (\<lambda>n.
         map_ok (\<lambda>body. write_head 5 n @ concat body)
           (collect_results (map (\<lambda>(key, value, kb).
              rbind key (\<lambda>k. map_ok (\<lambda>v. k @ v) value)) ts)))"
  have "encode_into (CMap es) =
     rbind (collect_results (map (\<lambda>e. map_ok (\<lambda>kb. (encode_into (fst e), encode_into (snd e), kb))
       (encode (fst e))) es)) ?F"
    by (simp add: encode_map_def encode_def case_prod_beta comp_def)
  then have "?L \<longleftrightarrow> (\<exists>ts. (?K \<and> ts = map ?T es) \<and> ?F ts = Inr w)"
    by (simp only: rbind_ok keys)
  also have "\<dots> \<longleftrightarrow> ?K \<and> ?F (map ?T es) = Inr w"
    by blast
  also have "?F (map ?T es) = (if adjacent_equal (map (\<lambda>e. encoded (fst e)) ?ss) then Inl DuplicateMapKey
       else rbind (length_u64 (length es)) (\<lambda>n.
         map_ok (\<lambda>body. write_head 5 n @ concat body) (collect_results (map (\<lambda>e.
           rbind (encode_into (fst e)) (\<lambda>k. map_ok (\<lambda>v. k @ v) (encode_into (snd e)))) ?ss))))"
    by (simp add: sort_key_map comp_def)
  also have "(?K \<and> \<dots> = Inr w) \<longleftrightarrow> ?R"
  proof (cases ?K)
    case True
    then show ?thesis
      by (auto simp: rbind_ok map_ok_ok body [OF True] dup length_u64_def)
  next
    case False
    then show ?thesis by blast
  qed
  finally show ?thesis .
qed

lemma sort_key_sorted_id:
  assumes "sorted_wrt (<) (map f xs)"
  shows "sort_key f xs = xs"
proof (rule sort_key_inj_key_eq)
  show "inj_on f (set xs)" and "sorted (map f xs)"
    using assms by (auto simp: strict_sorted_iff distinct_map)
qed simp

lemma sort_key_perm:
  assumes "mset xs = mset ys" and "distinct (map f ys)"
  shows "sort_key f xs = sort_key f ys"
proof (rule sort_key_inj_key_eq)
  show "mset xs = mset (sort_key f ys)" using assms(1) by simp
  show "inj_on f (set xs)" using assms mset_eq_setD [OF assms(1)] by (simp add: distinct_map)
qed (simp add: sorted_sort_key)

text \<open>A map is encoded the same whatever order its entries are given in.\<close>

lemma encode_into_map_perm:
  assumes "mset es = mset es'" and "encode_into (CMap es') = Inr w"
  shows "encode_into (CMap es) = Inr w"
proof -
  have d: "distinct (map (\<lambda>e. encoded (fst e)) es')"
    using assms(2) by (simp only: encode_into_map_iff)
  then have "distinct (map entry_order es')"
    by (simp add: distinct_map inj_on_def)
  then have "sort_key entry_order es = sort_key entry_order es'"
    using assms(1) by (rule sort_key_perm [rotated])
  moreover have "distinct (map (\<lambda>e. encoded (fst e)) es)"
    using d assms(1) by (metis mset_eq_imp_distinct_iff mset_map)
  moreover have "set es = set es'" and "length es = length es'"
    using assms(1) by (auto dest: mset_eq_setD mset_eq_length)
  ultimately show ?thesis
    using assms(2) by (simp only: encode_into_map_iff) simp
qed

section \<open>The encoder meets the specification\<close>

lemma list_all2_encoded:
  "list_all2 (\<lambda>w v. encode_into v = Inr w) ws vs \<longleftrightarrow>
     ws = map encoded vs \<and> (\<forall>v\<in>set vs. encode_into v = Inr (encoded v))"
  by (induction vs arbitrary: ws) (auto simp: list_all2_Cons2 dest: encoded_eq)

lemma length_le_concat: "w \<in> set ws \<Longrightarrow> length w \<le> length (concat ws)"
  by (induction ws) auto

lemma length_le_concat_map2:
  "length kws = length vws \<Longrightarrow> w \<in> set kws \<or> w \<in> set vws \<Longrightarrow>
     length w \<le> length (concat (map2 (@) kws vws))"
  by (induction kws vws rule: list_induct2) (auto simp: le_diff_conv)

abbreviation within_message :: "bytes \<Rightarrow> bool" where
  "within_message w \<equiv> length w \<le> max_message_bytes default_limits"

lemma item_encode_into:
  "item default_limits depth w v \<Longrightarrow> within_message w \<Longrightarrow> encode_into v = Inr w"
proof (induction rule: item.induct)
  case (item_array depth vs ws)
  have "within_message u" if "u \<in> set ws" for u
    using length_le_concat [OF that] item_array.prems by simp
  with item_array(4) have "list_all2 (\<lambda>w v. encode_into v = Inr w) ws vs"
    by (auto simp: list_all2_conv_all_nth)
  then have "collect_results (map encode_into vs) = Inr ws"
    by (simp add: list_all2_encoded ok_iff)
  with item_array show ?case
    by (simp add: length_u64_def)
next
  case (item_map depth es kws vws)
  have len: "length kws = length vws"
    using list_all2_lengthD [OF item_map(5)] list_all2_lengthD [OF item_map(6)] by simp
  have within: "within_message u" if "u \<in> set kws \<or> u \<in> set vws" for u
    using length_le_concat_map2 [OF len that] item_map.prems by simp
  have "list_all2 (\<lambda>w v. encode_into v = Inr w) kws (map fst es)"
    and "list_all2 (\<lambda>w v. encode_into v = Inr w) vws (map snd es)"
    using item_map(5,6) within by (auto simp: list_all2_conv_all_nth)
  then have kws: "kws = map (\<lambda>e. encoded (fst e)) es" and vws: "vws = map (\<lambda>e. encoded (snd e)) es"
    and enc: "\<forall>e\<in>set es. encode_into (fst e) = Inr (encoded (fst e))
       \<and> encode_into (snd e) = Inr (encoded (snd e))"
    by (auto simp: list_all2_encoded)
  have "\<exists>v. item default_limits (Suc depth) w v" if "w \<in> set kws" for w
    using that item_map(5) by (auto simp: list_all2_conv_all_nth in_set_conv_nth)
  then have "\<exists>v. decode w = Inr v" if "w \<in> set kws" for w
    using that within by (metis decode_iff_item item_depth_antimono le0)
  with enc have "\<forall>e\<in>set es. encode (fst e) = Inr (encoded (fst e))
       \<and> encode_into (snd e) = Inr (encoded (snd e))"
    by (auto simp: encode_ok kws)
  moreover have "sort_key entry_order es = es"
    using item_map(4) kws by (intro sort_key_sorted_id) (simp add: comp_def)
  moreover have "distinct kws"
    using item_map(4) by (auto simp: strict_sorted_iff distinct_map)
  moreover have "concat (map2 (@) kws vws) = concat (map (\<lambda>e. encoded (fst e) @ encoded (snd e)) es)"
    by (simp add: kws vws zip_map_map zip_same_conv_map comp_def case_prod_beta)
  ultimately show ?case
    using item_map(3) by (simp add: encode_into_map_iff kws del: encode_into.simps)
next
  case (item_negative depth v)
  then show ?case
    using sint_ge [of v] by simp
qed (auto simp: length_u64_def)

text \<open>The value a written message is read back as: every map in key order.\<close>

function canon :: "cbor_value \<Rightarrow> cbor_value" where
  "canon (Array vs) = Array (map canon vs)"
| "canon (CMap es) = CMap (map (\<lambda>(k, v). (canon k, canon v)) (sort_key entry_order es))"
| "canon (Tag t v) = Tag t (canon v)"
| "canon (Unsigned u) = Unsigned u"
| "canon (Negative i) = Negative i"
| "canon (Bytes b) = Bytes b"
| "canon (Text b) = Text b"
| "canon (CBool b) = CBool b"
| "canon Null = Null"
  by pat_completeness auto
termination
  by (relation "measure size")
     (auto simp: size_entry_key size_entry_value dest: size_list_estimation' intro: le_imp_less_Suc)

definition reads_back :: "cbor_limits \<Rightarrow> nat \<Rightarrow> cbor_value \<Rightarrow> bool" where
  "reads_back lim depth v \<longleftrightarrow> (\<forall>w r x s. encode_into v = Inr w \<longrightarrow>
     parse_value lim depth (w @ r) = Inr (x, s) \<longrightarrow> x = canon v \<and> s = r)"

lemma reads_backD:
  "reads_back lim depth v \<Longrightarrow> encode_into v = Inr w \<Longrightarrow>
     parse_value lim depth (w @ r) = Inr (x, s) \<Longrightarrow> x = canon v \<and> s = r"
  unfolding reads_back_def by blast

lemma parse_array_written:
  assumes "\<forall>v\<in>set vs. reads_back lim depth v"
    and "collect_results (map encode_into vs) = Inr ws"
    and "parse_array lim depth (length vs) (concat ws @ r) = Inr (xs, s)"
  shows "xs = map canon vs \<and> s = r"
  using assms
proof (induction vs arbitrary: ws xs)
  case Nil
  then show ?case by simp
next
  case (Cons v vs)
  from Cons.prems(2) obtain w ws' where ws: "ws = w # ws'" "encode_into v = Inr w"
    "collect_results (map encode_into vs) = Inr ws'" by (auto simp: ok_iff)
  from Cons.prems(3) ws obtain x xs' t where
    "parse_value lim depth (w @ concat ws' @ r) = Inr (x, t)"
    "parse_array lim depth (length vs) t = Inr (xs', s)" "xs = x # xs'"
    by (auto simp: ok_iff)
  moreover from Cons.prems(1) have "reads_back lim depth v" by simp
  note reads_backD [OF this ws(2) calculation(1)]
  ultimately show ?case using Cons.IH [of ws' xs'] Cons.prems(1) ws(3) by simp
qed

lemma parse_map_written:
  assumes "\<forall>e\<in>set es. reads_back lim depth (fst e) \<and> reads_back lim depth (snd e)"
    and "\<forall>e\<in>set es. encode_into (fst e) = Inr (encoded (fst e)) \<and> encode_into (snd e) = Inr (encoded (snd e))"
    and "parse_map lim depth (length es) previous
      (concat (map (\<lambda>e. encoded (fst e) @ encoded (snd e)) es) @ r) = Inr (xs, s)"
  shows "xs = map (\<lambda>(k, v). (canon k, canon v)) es \<and> s = r"
  using assms
proof (induction es arbitrary: previous xs)
  case Nil
  then show ?case by simp
next
  case (Cons e es)
  let ?rest = "concat (map (\<lambda>e. encoded (fst e) @ encoded (snd e)) es) @ r"
  from Cons.prems(3) obtain k t v u xs' previous' where
    k: "parse_value lim depth (encoded (fst e) @ encoded (snd e) @ ?rest) = Inr (k, t)" and
    v: "parse_value lim depth t = Inr (v, u)" and
    rest: "parse_map lim depth (length es) previous' u = Inr (xs', s)" and xs: "xs = (k, v) # xs'"
    by (auto simp: ok_iff Let_def split: if_splits)
  have e: "reads_back lim depth (fst e)" "reads_back lim depth (snd e)"
    "encode_into (fst e) = Inr (encoded (fst e))" "encode_into (snd e) = Inr (encoded (snd e))"
    using Cons.prems by simp_all
  have kt: "k = canon (fst e) \<and> t = encoded (snd e) @ ?rest"
    using e(1,3) k by (rule reads_backD)
  with v have vu: "v = canon (snd e) \<and> u = ?rest"
    by (intro reads_backD [OF e(2,4)]) simp
  with rest have "parse_map lim depth (length es) previous' ?rest = Inr (xs', s)" by simp
  from Cons.IH [OF _ _ this] Cons.prems(1,2) kt vu xs show ?case by (simp add: case_prod_beta)
qed

lemma reads_backI:
  assumes "\<And>w r x s. \<not> max_nesting lim < depth \<Longrightarrow> encode_into v = Inr w \<Longrightarrow>
     parse_value lim depth (w @ r) = Inr (x, s) \<Longrightarrow> x = canon v \<and> s = r"
  shows "reads_back lim depth v"
  unfolding reads_back_def using assms parse_value_depth leD by blast

lemma parse_value_written: "reads_back lim depth v"
proof (induction v arbitrary: depth rule: canon.induct)
  case (1 vs)
  show ?case
  proof (rule reads_backI)
    fix w r x s
    assume d: "\<not> max_nesting lim < depth" and enc: "encode_into (Array vs) = Inr w"
      and parse: "parse_value lim depth (w @ r) = Inr (x, s)"
    from enc obtain ws where ws: "collect_results (map encode_into vs) = Inr ws" "length vs < 2 ^ 64"
      "w = write_head 4 (of_nat (length vs)) @ concat ws"
      by (auto simp: rbind_ok map_ok_ok length_u64_def split: if_splits)
    with parse obtain xs where
      "parse_array lim (Suc depth) (length vs) (concat ws @ r) = Inr (xs, s)" "x = Array xs"
      by (auto simp: parse_value_write_head [OF d] map_ok_ok unat_of_nat split: if_splits)
    with parse_array_written [OF _ ws(1) this(1)] 1 show "x = canon (Array vs) \<and> s = r" by simp
  qed
next
  case (2 es)
  let ?ss = "sort_key entry_order es"
  have IH: "\<forall>e\<in>set ?ss. reads_back lim (Suc depth) (fst e) \<and> reads_back lim (Suc depth) (snd e)"
    using 2 by fastforce
  show ?case
  proof (rule reads_backI)
    fix w r x s
    assume d: "\<not> max_nesting lim < depth" and enc: "encode_into (CMap es) = Inr w"
      and parse: "parse_value lim depth (w @ r) = Inr (x, s)"
    note enc = enc [unfolded encode_into_map_iff]
    then have w: "w = write_head 5 (of_nat (length es)) @ concat (map (\<lambda>e. encoded (fst e) @ encoded (snd e)) ?ss)"
      and len: "length es < 2 ^ 64" by blast+
    from parse obtain xs where x: "x = CMap xs" and
      "parse_map lim (Suc depth) (length ?ss) None
        (concat (map (\<lambda>e. encoded (fst e) @ encoded (snd e)) ?ss) @ r) = Inr (xs, s)"
      using len by (auto simp: w parse_value_write_head [OF d] map_ok_ok unat_of_nat split: if_splits)
    from parse_map_written [OF IH _ this(2)] enc x show "x = canon (CMap es) \<and> s = r"
      by (simp add: encode_ok)
  qed
next
  case (3 t v)
  show ?case
    by (rule reads_backI)
       (auto simp: map_ok_ok parse_value_write_head split: if_splits dest: reads_backD [OF 3])
next
  case (5 i)
  show ?case
    by (rule reads_backI)
       (auto simp: parse_value_write_head Let_def uint_neg_arg split: if_splits)
qed (auto intro!: reads_backI simp: map_ok_ok length_u64_def parse_value_write_head take_slice_def
      parse_value_simple unat_of_nat rbind_ok split: if_splits)

section \<open>The profile is a canonical codec\<close>

lemma encode_decode:
  assumes "decode bs = Inr v"
  shows "encode v = Inr bs"
  using assms item_encode_into [of 0 bs v] by (auto simp: encode_ok decode_iff_item)

lemma decode_encode:
  assumes "encode v = Inr bs"
  shows "decode bs = Inr (canon v)"
proof -
  from assms obtain x where enc: "encode_into v = Inr bs" and dec: "decode bs = Inr x"
    by (auto simp: encode_ok)
  then have "parse_value default_limits 0 (bs @ []) = Inr (x, [])"
    by (auto simp: decode_def decode_with_limits_def ok_iff split: if_splits)
  with reads_backD [OF parse_value_written enc] dec show ?thesis by blast
qed

interpretation cbor: canonical_codec encode decode canon
  by unfold_locales (auto intro: encode_decode decode_encode)

text \<open>Values that occur in some accepted message.\<close>

definition canonical :: "cbor_value \<Rightarrow> bool" where
  "canonical v \<longleftrightarrow> (\<exists>depth w. item default_limits depth w v)"

inductive_cases item_unsignedE: "item lim depth w (Unsigned v)"
inductive_cases item_negativeE: "item lim depth w (Negative v)"
inductive_cases item_arrayE: "item lim depth w (Array vs)"
inductive_cases item_mapE: "item lim depth w (CMap es)"

lemma canonical_decode: "decode bs = Inr v \<Longrightarrow> canonical v"
  by (auto simp: decode_iff_item canonical_def)

lemma canonical_negative: "canonical (Negative i) \<Longrightarrow> sint i < 0"
  by (auto simp: canonical_def elim: item_negativeE)

lemma canonical_array: "canonical (Array vs) \<Longrightarrow> v \<in> set vs \<Longrightarrow> canonical v"
  by (force simp: canonical_def list_all2_conv_all_nth in_set_conv_nth elim!: item_arrayE)

lemma canonical_map_value: "canonical (CMap es) \<Longrightarrow> e \<in> set es \<Longrightarrow> canonical (snd e)"
  by (force simp: canonical_def list_all2_conv_all_nth in_set_conv_nth elim!: item_mapE)

text \<open>The entries of a map whose keys are unsigned integers, as every message has them.\<close>

abbreviation ukey :: "u64 \<times> cbor_value \<Rightarrow> cbor_value \<times> cbor_value" where
  "ukey e \<equiv> (Unsigned (fst e), snd e)"

lemma canonical_map_ascending:
  assumes "canonical (CMap (map ukey ps))"
  shows "sorted_wrt (<) (map fst ps)"
proof -
  from assms obtain depth kws where kws: "list_all2 (item default_limits (Suc depth)) kws (map (\<lambda>e. Unsigned (fst e)) ps)"
    and sorted: "sorted_wrt (<) (map key_order kws)"
    by (auto simp: canonical_def comp_def elim!: item_mapE)
  from kws have "kws = map (\<lambda>e. write_head 0 (fst e)) ps"
    by (induction ps arbitrary: kws) (auto simp: list_all2_Cons2 elim: item_unsignedE)
  with sorted show ?thesis by (simp add: sorted_wrt_map write_head_less_iff)
qed


section \<open>Properties\<close>

text \<open>C19: the decoder accepts exactly one encoding of each value, the one of the profile that
  \<^verbatim>\<open>cbor.rs\<close> implements: it returns \<open>v\<close> if and only if the input is at most 1 MiB long and is the item of \<open>v\<close>
  in the grammar \<open>item\<close> (shortest heads, map keys in ascending order of encoded length, then bytes, UTF-8
  text, tag 18 only, all size limits, at most 16 levels of nesting). This order of keys is not the
  bytewise one of the RFC 8949 core profile that the comment on \<^verbatim>\<open>encode\<close> and the test vectors name. The
  two agree on unsigned keys, of any size; on the keys 100 and -1 they do not, and there the encoding of
  the core profile is refused and the other one accepted.\<close>

theorem decode_accepts_exactly:
  "(decode bs = Inr v \<longleftrightarrow> length bs \<le> 1048576 \<and> item default_limits 0 bs v)
   \<and> (key_order (write_head 0 m) < key_order (write_head 0 n) \<longleftrightarrow> write_head 0 m < write_head 0 n)
   \<and> [0x18, 0x64] < [0x20 :: u8]
   \<and> decode [0xa2, 0x18, 0x64, 0xf6, 0x20, 0xf6] = Inl NonCanonicalMapOrder
   \<and> decode [0xa2, 0x20, 0xf6, 0x18, 0x64, 0xf6] = Inr (CMap [(Negative (- 1), Null), (Unsigned 100, Null)])"
proof (intro conjI)
  show "decode bs = Inr v \<longleftrightarrow> length bs \<le> 1048576 \<and> item default_limits 0 bs v"
    by (simp add: decode_iff_item) (simp add: default_limits_def)
  show "decode [0xa2, 0x18, 0x64, 0xf6, 0x20, 0xf6] = Inl NonCanonicalMapOrder"
    "decode [0xa2, 0x20, 0xf6, 0x18, 0x64, 0xf6] = Inr (CMap [(Negative (- 1), Null), (Unsigned 100, Null)])"
    by (simp_all add: run)
qed (simp_all add: write_head_less_iff)

text \<open>Every accepted message is in canonical form: encoding the decoded value gives back the
  very bytes that were received.\<close>

theorem decoded_is_canonical:
  assumes "decode bs = Inr v"
  shows "encode v = Inr bs"
  using assms by (rule cbor.enc_of_dec)

theorem decoded_is_canonical_witness:
  "decode [0xa2, 0x01, 0x20, 0x02, 0x62, 0x68, 0x69] =
     Inr (CMap [(Unsigned 1, Negative (- 1)), (Unsigned 2, Text (str ''hi''))]) \<and>
   encode (CMap [(Unsigned 1, Negative (- 1)), (Unsigned 2, Text (str ''hi''))]) =
     Inr [0xa2, 0x01, 0x20, 0x02, 0x62, 0x68, 0x69]"
proof -
  have "decode [0xa2, 0x01, 0x20, 0x02, 0x62, 0x68, 0x69] =
     Inr (CMap [(Unsigned 1, Negative (- 1)), (Unsigned 2, Text (str ''hi''))])"
    by (simp add: run)
  with decoded_is_canonical [OF this] show ?thesis by blast
qed

text \<open>Whatever the encoder writes is decoded, to the value itself with the entries of every
  map in canonical key order.\<close>

theorem encoded_is_decoded:
  assumes "encode v = Inr bs"
  shows "decode bs = Inr (canon v)"
  using assms by (rule cbor.dec_of_enc)

theorem encoded_is_decoded_witness:
  "decode [0xa2, 0x01, 0xf5, 0x18, 0x20, 0xf6] = Inr (canon (CMap [(Unsigned 32, Null), (Unsigned 1, CBool True)]))"
  by (rule encoded_is_decoded) (simp add: run)

text \<open>The order in which the entries of a map are given does not matter: two permutations of the
  same entries have the same encoding.\<close>

theorem map_order_irrelevant:
  assumes "mset es = mset es'" and "encode (CMap es') = Inr w"
  shows "encode (CMap es) = Inr w"
  using assms encode_into_map_perm [of es es' w] by (simp add: encode_ok del: encode_into.simps)

theorem map_order_irrelevant_witness:
  "encode (CMap [(Unsigned 32, Null), (Unsigned 1, CBool True)]) = Inr [0xa2, 0x01, 0xf5, 0x18, 0x20, 0xf6]"
  by (rule map_order_irrelevant [where es' = "[(Unsigned 1, CBool True), (Unsigned 32, Null)]"])
     (simp_all add: run)

text \<open>A map with a repeated key is never encoded.\<close>

theorem repeated_key_refused:
  assumes "\<not> distinct (map fst es)"
  shows "\<exists>e. encode (CMap es) = Inl e"
proof (cases "encode (CMap es)")
  case (Inr w)
  then have "encode_into (CMap es) = Inr w" by (simp add: encode_ok del: encode_into.simps)
  then have "distinct (map (\<lambda>e. encoded (fst e)) es)" unfolding encode_into_map_iff by blast
  then have "distinct (map encoded (map fst es))" by (simp add: comp_def)
  with assms show ?thesis by (metis distinct_map)
qed simp

theorem repeated_key_refused_witness:
  "\<exists>e. encode (CMap [(Unsigned 1, Null), (Unsigned 2, Null), (Unsigned 1, CBool True)]) = Inl e"
  by (rule repeated_key_refused) simp

text \<open>No accepted message is a proper prefix of another input that is accepted; appended bytes
  are reported as \<^verbatim>\<open>TrailingBytes\<close> (or the whole as too large).\<close>

theorem trailing_bytes_refused:
  assumes "decode bs = Inr v" and "r \<noteq> []"
  shows "decode (bs @ r) = Inl (if length bs + length r \<le> 1048576 then TrailingBytes else MessageTooLarge)"
proof -
  have "item default_limits 0 bs v" using assms(1) by (simp add: decode_iff_item)
  from parse_value_complete [OF this, of r] assms(2) show ?thesis
    by (simp add: decode_def decode_with_limits_def) (simp add: default_limits_def)
qed

theorem trailing_bytes_refused_witness:
  "decode ([0xf6] @ [0xf6]) = Inl (if length [0xf6 :: u8] + length [0xf6 :: u8] \<le> 1048576 then TrailingBytes else MessageTooLarge)"
  by (rule trailing_bytes_refused [where v = Null]) (simp_all add: run)

section \<open>Resources\<close>

text \<open>What a decoded value holds: one cell per item and the bytes of its strings; and how deep it nests.\<close>

fun footprint :: "cbor_value \<Rightarrow> nat" where
  "footprint (Bytes b) = 1 + length b"
| "footprint (Text b) = 1 + length b"
| "footprint (Array vs) = 1 + sum_list (map footprint vs)"
| "footprint (CMap es) = 1 + sum_list (map (\<lambda>e. footprint (fst e) + footprint (snd e)) es)"
| "footprint (Tag t v) = 1 + footprint v"
| "footprint _ = 1"

fun nesting :: "cbor_value \<Rightarrow> nat" where
  "nesting (Array vs) = fold max (map (\<lambda>v. Suc (nesting v)) vs) 0"
| "nesting (CMap es) = fold max (map (\<lambda>e. max (Suc (nesting (fst e))) (Suc (nesting (snd e)))) es) 0"
| "nesting (Tag t v) = Suc (nesting v)"
| "nesting _ = 0"

lemma length_write_head: "1 \<le> length (write_head m v)"
  by (simp add: write_head_def Let_def)

lemma list_all2_footprint:
  "list_all2 (\<lambda>w v. footprint v \<le> length w) ws vs \<Longrightarrow> sum_list (map footprint vs) \<le> length (concat ws)"
  by (induction rule: list_all2_induct) auto

lemma list_all2_entries:
  "list_all2 (\<lambda>w v. footprint v \<le> length w) kws (map fst es) \<Longrightarrow> list_all2 (\<lambda>w v. footprint v \<le> length w) vws (map snd es)
     \<Longrightarrow> sum_list (map (\<lambda>e. footprint (fst e) + footprint (snd e)) es) \<le> length (concat (map2 (@) kws vws))"
proof (induction es arbitrary: kws vws)
  case (Cons e es)
  then obtain k kws' v vws' where "kws = k # kws'" "vws = v # vws'" by (auto simp: list_all2_Cons2)
  with Cons show ?case by force
qed simp

lemma item_footprint: "item lim depth w v \<Longrightarrow> footprint v \<le> length w"
proof (induction rule: item.induct)
  case (item_array depth vs ws)
  then have "list_all2 (\<lambda>w v. footprint v \<le> length w) ws vs" by (auto elim: list_all2_mono)
  from list_all2_footprint [OF this] show ?case
    using length_write_head [of 4 "of_nat (length vs)"] by simp
next
  case (item_map depth es kws vws)
  then have "list_all2 (\<lambda>w v. footprint v \<le> length w) kws (map fst es)" "list_all2 (\<lambda>w v. footprint v \<le> length w) vws (map snd es)"
    by (auto elim: list_all2_mono)
  from list_all2_entries [OF this] show ?case
    using length_write_head [of 5 "of_nat (length es)"] by simp
next
  case (item_bytes depth b)
  then show ?case using length_write_head [of 2 "of_nat (length b)"] by simp
next
  case (item_text depth b)
  then show ?case using length_write_head [of 3 "of_nat (length b)"] by simp
next
  case (item_tag depth w v)
  then show ?case using length_write_head [of 6 18] by simp
qed (use length_write_head in simp_all)

lemma fold_max_le: "fold max xs (a :: nat) \<le> n \<longleftrightarrow> a \<le> n \<and> (\<forall>x\<in>set xs. x \<le> n)"
  by (induction xs arbitrary: a) auto

lemma item_nesting: "item lim depth w v \<Longrightarrow> depth + nesting v \<le> max_nesting lim"
proof (induction rule: item.induct)
  case (item_array depth vs ws)
  then have "\<forall>v\<in>set vs. Suc (depth + nesting v) \<le> max_nesting lim"
    by (fastforce simp: list_all2_conv_all_nth in_set_conv_nth)
  then have "fold max (map (\<lambda>v. Suc (nesting v)) vs) 0 \<le> max_nesting lim - depth"
    by (auto simp: fold_max_le)
  with item_array(1) show ?case by simp
next
  case (item_map depth es kws vws)
  then have "list_all2 (\<lambda>_ v. Suc (depth + nesting v) \<le> max_nesting lim) kws (map fst es)"
    "list_all2 (\<lambda>_ v. Suc (depth + nesting v) \<le> max_nesting lim) vws (map snd es)"
    by (auto elim!: list_all2_mono)
  then have "Suc (depth + nesting (fst e)) \<le> max_nesting lim \<and> Suc (depth + nesting (snd e)) \<le> max_nesting lim"
    if "e \<in> set es" for e
    using that by (auto simp: list_all2_conv_all_nth in_set_conv_nth)
  then have "max (Suc (nesting (fst e))) (Suc (nesting (snd e))) \<le> max_nesting lim - depth" if "e \<in> set es" for e
    using that by (simp add: max_def) (metis Suc_leD add_Suc_right le_diff_conv2 add.commute item_map.hyps(1))
  then have "fold max (map (\<lambda>e. max (Suc (nesting (fst e))) (Suc (nesting (snd e)))) es) 0 \<le> max_nesting lim - depth"
    by (simp add: fold_max_le)
  with item_map(1) show ?case by simp
qed auto

text \<open>C20: decoding cannot be made to expand. The value built from a message has at most as many items and
  string bytes together as the message has bytes, so at most 1 MiB, and nests at most 16 levels.\<close>

theorem decoding_is_bounded:
  assumes "decode bs = Inr v"
  shows "footprint v \<le> length bs \<and> nesting v \<le> 16 \<and> length bs \<le> 1048576"
proof -
  from assms have "item default_limits 0 bs v" "length bs \<le> 1048576"
    by (simp_all add: decode_iff_item) (simp_all add: default_limits_def)
  with item_footprint [OF this(1)] item_nesting [OF this(1)] show ?thesis by (simp add: default_limits_def)
qed

theorem decoding_is_bounded_witness:
  "decode [0x82, 0x41, 0x07, 0x80] = Inr (Array [Bytes [7], Array []])
   \<and> footprint (Array [Bytes [7], Array []]) \<le> length [0x82 :: u8, 0x41, 0x07, 0x80]"
proof -
  have d: "decode [0x82, 0x41, 0x07, 0x80] = Inr (Array [Bytes [7], Array []])" by (simp add: run)
  from decoding_is_bounded [OF d] d show ?thesis by blast
qed

end
