(* ===== verification/Digest.thy ===== *)
theory Digest
  imports Cbor_Codec
begin

text \<open>
  Domain-separated digests (\<^verbatim>\<open>crates/rp-protocol/src/digest.rs\<close>) and the fixed-length
  identifiers (\<^verbatim>\<open>crates/rp-protocol/src/ids.rs\<close>). SHA-256 comes from the \<^verbatim>\<open>sha2\<close> crate and
  is the parameter \<open>sha\<close> of every definition that hashes. The lemmas say what a digest commits
  to: the domain label and the encoded value can both be recovered from the hashed bytes, so two
  equal digests are digests of the same object unless the two hashed strings collide under
  \<open>sha\<close>.
\<close>

section \<open>Identifiers\<close>

datatype identifier_error = WrongLength string nat nat

text \<open>The conversion the \<^verbatim>\<open>fixed_bytes!\<close> macro defines for an identifier type with label
  \<open>name\<close> and length \<open>len\<close>.\<close>

definition fixed_bytes_try_from :: "string \<Rightarrow> nat \<Rightarrow> bytes \<Rightarrow> identifier_error + bytes" where
  [run]: "fixed_bytes_try_from name len value =
     (if length value = len then Inr value else Inl (WrongLength name len (length value)))"

definition RequestId_try_from :: "bytes \<Rightarrow> identifier_error + bytes" where
  [run]: "RequestId_try_from = fixed_bytes_try_from ''request ID'' 16"

definition ReceiptId_try_from :: "bytes \<Rightarrow> identifier_error + bytes" where
  [run]: "ReceiptId_try_from = fixed_bytes_try_from ''receipt ID'' 16"

definition ServiceEventId_try_from :: "bytes \<Rightarrow> identifier_error + bytes" where
  [run]: "ServiceEventId_try_from = fixed_bytes_try_from ''service event ID'' 16"

definition DeviceId_try_from :: "bytes \<Rightarrow> identifier_error + bytes" where
  [run]: "DeviceId_try_from = fixed_bytes_try_from ''device ID'' 16"

definition BootId_try_from :: "bytes \<Rightarrow> identifier_error + bytes" where
  [run]: "BootId_try_from = fixed_bytes_try_from ''boot ID'' 16"

definition PolicyId_try_from :: "bytes \<Rightarrow> identifier_error + bytes" where
  [run]: "PolicyId_try_from = fixed_bytes_try_from ''policy ID'' 16"

definition Nonce_try_from :: "bytes \<Rightarrow> identifier_error + bytes" where
  [run]: "Nonce_try_from = fixed_bytes_try_from ''approval nonce'' 32"

lemma fixed_bytes_ok [ok_iff]:
  "fixed_bytes_try_from name len value = Inr b \<longleftrightarrow> b = value \<and> length value = len"
  by (auto simp: fixed_bytes_try_from_def)

lemmas id_defs = RequestId_try_from_def ReceiptId_try_from_def ServiceEventId_try_from_def
  DeviceId_try_from_def BootId_try_from_def PolicyId_try_from_def Nonce_try_from_def

section \<open>Domains\<close>

datatype domain =
    DomainRequest
  | DomainAptPlan
  | DomainDecision
  | DomainWebAuthnChallenge
  | DomainEnrollment
  | DomainServiceKeyset
  | DomainDecisionAccepted
  | DomainRevocation
  | DomainReceipt

text \<open>Each label of the source is a byte string closed by a NUL byte.\<close>

fun label_text :: "domain \<Rightarrow> bytes" where
  "label_text DomainRequest = str ''rootpermit/v1/request''"
| "label_text DomainAptPlan = str ''rootpermit/v1/apt-plan''"
| "label_text DomainDecision = str ''rootpermit/v1/decision''"
| "label_text DomainWebAuthnChallenge = str ''rootpermit/v1/webauthn.challenge''"
| "label_text DomainEnrollment = str ''rootpermit/v1/enrollment''"
| "label_text DomainServiceKeyset = str ''rootpermit/v1/service-keyset''"
| "label_text DomainDecisionAccepted = str ''rootpermit/v1/decision-accepted''"
| "label_text DomainRevocation = str ''rootpermit/v1/revocation''"
| "label_text DomainReceipt = str ''rootpermit/v1/receipt''"

definition label :: "domain \<Rightarrow> bytes" where
  [run]: "label d = label_text d @ [0]"

type_synonym digest = bytes
type_synonym hash = "bytes \<Rightarrow> bytes"

definition digest_cbor :: "hash \<Rightarrow> domain \<Rightarrow> cbor_value \<Rightarrow> encode_error + digest" where
  [run]: "digest_cbor sha d value = rbind (encode value) (\<lambda>encoded. Inr (sha (label d @ encoded)))"

section \<open>What a digest commits to\<close>

lemma append_sentinel_cancel:
  assumes "a @ z # x = b @ z # y" and "z \<notin> set a" and "z \<notin> set b"
  shows "a = b \<and> x = y"
proof -
  have "takeWhile (\<lambda>c. c \<noteq> z) (a @ z # x) = a" if "z \<notin> set a" for a x
    using that by (induction a) auto
  from this [of a x] this [of b y] assms have "a = b" by simp
  with assms(1) show ?thesis by simp
qed

lemma label_text_nonzero: "0 \<notin> set (label_text d)"
  by (cases d) (simp_all add: str_def)

lemma label_text_inject: "label_text d = label_text d' \<Longrightarrow> d = d'"
  by (cases d; cases d') (simp_all add: str_def)

lemma label_cancel: "label d @ x = label d' @ y \<Longrightarrow> d = d' \<and> x = y"
  using append_sentinel_cancel [of "label_text d" 0 x "label_text d'" y] label_text_nonzero
  by (auto simp: label_def dest: label_text_inject)

text \<open>The byte string a digest is the hash of.\<close>

definition preimage :: "domain \<Rightarrow> cbor_value \<Rightarrow> bytes" where
  [run]: "preimage d value = label d @ (case encode value of Inl _ \<Rightarrow> [] | Inr e \<Rightarrow> e)"

lemma digest_cbor_ok [ok_iff]:
  "digest_cbor sha d v = Inr h \<longleftrightarrow> (\<exists>e. encode v = Inr e) \<and> h = sha (preimage d v)"
  by (auto simp: digest_cbor_def preimage_def rbind_def split: sum.splits)

lemma preimage_inject:
  assumes "preimage d v = preimage d' v'" and "encode v = Inr e" and "encode v' = Inr e'"
  shows "d = d' \<and> canon v = canon v'"
  using assms label_cancel [of d e d' e'] cbor.enc_eq_iff [of v e v' e']
  by (auto simp: preimage_def)

text \<open>Two strings that do not collide under \<open>sha\<close>.\<close>

definition no_collision :: "hash \<Rightarrow> bytes \<Rightarrow> bytes \<Rightarrow> bool" where
  "no_collision sha p q \<longleftrightarrow> (sha p = sha q \<longrightarrow> p = q)"

lemma digest_cbor_binding:
  assumes "digest_cbor sha d v = Inr h" and "digest_cbor sha d' v' = Inr h"
    and "no_collision sha (preimage d v) (preimage d' v')"
  shows "d = d' \<and> canon v = canon v'"
  using assms preimage_inject [of d v d' v'] by (auto simp: ok_iff no_collision_def)

end
