(* ===== verification/Ordered_Map.thy ===== *)
theory Ordered_Map
  imports Prelude
begin

text \<open>
  \<^verbatim>\<open>std::collections::BTreeMap\<close>, the ordered map of Rust's standard library, which the message
  decoders (\<^verbatim>\<open>fields\<close>), the relay spool, the hosted projection and the fake planner keep their
  entries in. The locale states the contract the program relies on; the model is an association
  list in strictly ascending key order, the order in which \<^verbatim>\<open>iter\<close>, \<^verbatim>\<open>keys\<close> and
  \<^verbatim>\<open>values\<close> visit a \<^verbatim>\<open>BTreeMap\<close>.
\<close>

section \<open>The interface\<close>

lemma assoc_list_of_map_of:
  "distinct (map fst xs) \<Longrightarrow> xs = map (\<lambda>k. (k, the (map_of xs k))) (map fst xs)"
  by (rule sym) (auto simp: map_of_is_SomeI intro!: map_idI)

locale ordered_map =
  fixes empty :: "'m"
    and get :: "'m \<Rightarrow> 'k::linorder \<Rightarrow> 'v option"
    and insert :: "'k \<Rightarrow> 'v \<Rightarrow> 'm \<Rightarrow> 'm"
    and remove :: "'k \<Rightarrow> 'm \<Rightarrow> 'm"
    and entries :: "'m \<Rightarrow> ('k \<times> 'v) list"
    and invar :: "'m \<Rightarrow> bool"
  assumes invar_empty: "invar empty"
    and invar_insert: "invar m \<Longrightarrow> invar (insert k v m)"
    and invar_remove: "invar m \<Longrightarrow> invar (remove k m)"
    and get_empty: "get empty = Map.empty"
    and get_insert: "invar m \<Longrightarrow> get (insert k v m) = (get m)(k \<mapsto> v)"
    and get_remove: "invar m \<Longrightarrow> get (remove k m) = (get m)(k := None)"
    and map_of_entries: "invar m \<Longrightarrow> map_of (entries m) = get m"
    and entries_ascending: "invar m \<Longrightarrow> sorted_wrt (<) (map fst (entries m))"
begin

lemma distinct_keys: "invar m \<Longrightarrow> distinct (map fst (entries m))"
  using entries_ascending strict_sorted_iff by blast

lemma set_entries: "invar m \<Longrightarrow> set (entries m) = {(k, v). get m k = Some v}"
  using map_of_eq_Some_iff [OF distinct_keys [of m]] by (auto simp: map_of_entries)

lemma entries_eqI:
  assumes "invar m" and "invar m'" and "get m = get m'"
  shows "entries m = entries m'"
proof -
  have "set (entries m) = set (entries m')"
    using assms by (simp add: set_entries)
  then have "map fst (entries m) = map fst (entries m')"
    using assms entries_ascending by (metis list.set_map strict_sorted_equal)
  moreover have "entries m = map (\<lambda>k. (k, the (get m k))) (map fst (entries m))"
    and "entries m' = map (\<lambda>k. (k, the (get m' k))) (map fst (entries m'))"
    using assms distinct_keys map_of_entries assoc_list_of_map_of by metis+
  ultimately show ?thesis
    using assms(3) by simp
qed

lemma length_entries: "invar m \<Longrightarrow> length (entries m) = card (dom (get m))"
  using distinct_keys [of m] map_of_entries [of m]
  by (metis distinct_card dom_map_of_conv_image_fst length_map list.set_map)

lemma finite_dom: "invar m \<Longrightarrow> finite (dom (get m))"
  using map_of_entries [of m] finite_dom_map_of by metis

lemma length_insert_fresh:
  "invar m \<Longrightarrow> get m k = None \<Longrightarrow> length (entries (insert k v m)) = Suc (length (entries m))"
  by (simp add: length_entries invar_insert get_insert finite_dom domIff)

lemma length_insert_present:
  "invar m \<Longrightarrow> get m k = Some w \<Longrightarrow> length (entries (insert k v m)) = length (entries m)"
  by (simp add: length_entries invar_insert get_insert domI insert_absorb)

lemma length_remove_present:
  "invar m \<Longrightarrow> get m k = Some v \<Longrightarrow> Suc (length (entries (remove k m))) = length (entries m)"
  using card_Suc_Diff1 [OF finite_dom, of m k]
  by (simp add: length_entries invar_remove get_remove domI dom_fun_upd)

lemma remove_insert_fresh:
  "invar m \<Longrightarrow> get m k = None \<Longrightarrow> entries (remove k (insert k v m)) = entries m"
  by (rule entries_eqI) (auto simp: invar_insert invar_remove get_insert get_remove)

end

section \<open>The model\<close>

type_synonym ('k, 'v) btree = "('k \<times> 'v) list"

abbreviation bt_empty :: "('k, 'v) btree" where
  "bt_empty \<equiv> []"

definition bt_get :: "('k, 'v) btree \<Rightarrow> 'k \<Rightarrow> 'v option" where
  "bt_get m k = map_of m k"

fun bt_insert :: "'k::linorder \<Rightarrow> 'v \<Rightarrow> ('k, 'v) btree \<Rightarrow> ('k, 'v) btree" where
  "bt_insert k v [] = [(k, v)]"
| "bt_insert k v ((k', v') # m) =
     (if k < k' then (k, v) # (k', v') # m
      else if k = k' then (k, v) # m
      else (k', v') # bt_insert k v m)"

definition bt_remove :: "'k \<Rightarrow> ('k, 'v) btree \<Rightarrow> ('k, 'v) btree" where
  "bt_remove k m = filter (\<lambda>e. fst e \<noteq> k) m"

definition bt_wf :: "('k::linorder, 'v) btree \<Rightarrow> bool" where
  "bt_wf m \<longleftrightarrow> sorted_wrt (<) (map fst m)"

lemma keys_bt_insert: "set (map fst (bt_insert k v m)) = insert k (set (map fst m))"
  by (induction k v m rule: bt_insert.induct) auto

lemma bt_wf_insert: "bt_wf m \<Longrightarrow> bt_wf (bt_insert k v m)"
proof (induction k v m rule: bt_insert.induct)
  case (1 k v)
  show ?case by (simp add: bt_wf_def)
next
  case (2 k v k' v' m)
  then show ?case
    using keys_bt_insert [of k v m] by (auto simp: bt_wf_def)
qed

lemma bt_get_insert: "bt_get (bt_insert k v m) = (bt_get m)(k \<mapsto> v)"
  by (induction k v m rule: bt_insert.induct) (auto simp: bt_get_def)

lemma bt_get_remove: "bt_get (bt_remove k m) = (bt_get m)(k := None)"
  by (induction m) (auto simp: bt_get_def bt_remove_def)

lemma bt_wf_remove: "bt_wf m \<Longrightarrow> bt_wf (bt_remove k m)"
  by (induction m) (auto simp: bt_wf_def bt_remove_def)

interpretation bt: ordered_map bt_empty bt_get bt_insert bt_remove "\<lambda>m. m" bt_wf
  by unfold_locales
     (auto simp: bt_wf_def [of "[]"] bt_wf_insert bt_wf_remove bt_get_insert bt_get_remove
        bt_get_def fun_eq_iff simp flip: bt_wf_def)

lemma bt_remove_simps [simp]:
  "bt_remove k [] = []"
  "bt_remove k ((k', v) # m) = (if k' = k then bt_remove k m else (k', v) # bt_remove k m)"
  by (simp_all add: bt_remove_def)

lemma bt_get_simps [simp]:
  "bt_get [] k = None"
  "bt_get ((k', v) # m) k = (if k' = k then Some v else bt_get m k)"
  by (simp_all add: bt_get_def)

text \<open>Updating the value under a present key keeps every key in place.\<close>

definition bt_adjust :: "'k \<Rightarrow> ('v \<Rightarrow> 'v) \<Rightarrow> ('k, 'v) btree \<Rightarrow> ('k, 'v) btree" where
  "bt_adjust k f m = map (\<lambda>e. if fst e = k then (k, f (snd e)) else e) m"

lemma keys_bt_adjust [simp]: "map fst (bt_adjust k f m) = map fst m"
  by (induction m) (auto simp: bt_adjust_def)

lemma bt_wf_adjust [simp]: "bt_wf (bt_adjust k f m) = bt_wf m"
  by (simp add: bt_wf_def)

lemma length_bt_adjust [simp]: "length (bt_adjust k f m) = length m"
  by (simp add: bt_adjust_def)

lemma bt_get_adjust:
  "bt_get (bt_adjust k f m) = (bt_get m)(k := map_option f (bt_get m k))"
  by (induction m) (auto simp: bt_adjust_def fun_eq_iff)

end
