(* ===== verification/Schema_Fields.thy ===== *)
theory Schema_Fields
  imports Digest Ordered_Map
begin

text \<open>
  The field readers of \<^verbatim>\<open>crates/rp-protocol/src/schema.rs\<close> that every message decoder is built
  from, and the contract of a message type as a locale. A decoder turns the message map into a
  \<^verbatim>\<open>BTreeMap\<close> and removes one field after the other; a reader of the model takes the remaining
  fields and returns the value together with what is left.

  \<open>schema_message\<close> collects what a message type has to provide (its fields, its decoder, its
  validator) and derives once that \<^verbatim>\<open>canonical_bytes\<close> and \<^verbatim>\<open>decode\<close> are a canonical codec.
\<close>

section \<open>Errors and fields\<close>

datatype schema_error =
    SchemaCbor decode_error
  | SchemaIdentifier identifier_error
  | SchemaEncode encode_error
  | ProtocolMismatch u64
  | MissingField u64
  | UnknownField u64
  | WrongType u64
  | InvalidField u64
  | RootNotMap

type_synonym field_map = "(u64, cbor_value) btree"
type_synonym 'a reader = "field_map \<Rightarrow> schema_error + 'a \<times> field_map"

definition VERSION :: u64 where
  [run]: "VERSION = 1"

fun fields_loop :: "(cbor_value \<times> cbor_value) list \<Rightarrow> field_map \<Rightarrow> schema_error + field_map" where
  "fields_loop [] m = Inr m"
| "fields_loop ((k, value) # entries) m =
     (case k of
        Unsigned key \<Rightarrow>
          if bt_get m key \<noteq> None then Inl (InvalidField key)
          else fields_loop entries (bt_insert key value m)
      | _ \<Rightarrow> Inl RootNotMap)"

definition cbor_fields :: "cbor_value \<Rightarrow> schema_error + field_map" where
  [run]: "cbor_fields value = (case value of CMap entries \<Rightarrow> fields_loop entries bt_empty | _ \<Rightarrow> Inl RootNotMap)"

fun reject_unknown :: "field_map \<Rightarrow> u64 list \<Rightarrow> schema_error + unit" where
  "reject_unknown [] known = Inr ()"
| "reject_unknown ((key, value) # m) known =
     (if key \<in> set known then reject_unknown m known else Inl (UnknownField key))"

section \<open>Readers\<close>

text \<open>Sequencing, and a fallible step that reads nothing.\<close>

definition r_bind :: "'a reader \<Rightarrow> ('a \<Rightarrow> 'b reader) \<Rightarrow> 'b reader" where
  [run]: "r_bind r f m = rbind (r m) (\<lambda>(x, m). f x m)"

definition r_lift :: "schema_error + 'a \<Rightarrow> 'a reader" where
  [run]: "r_lift x m = map_ok (\<lambda>y. (y, m)) x"

definition r_return :: "'a \<Rightarrow> 'a reader" where
  [run]: "r_return x m = Inr (x, m)"

definition required :: "u64 \<Rightarrow> cbor_value reader" where
  [run]: "required fld m = (case bt_get m fld of
     None \<Rightarrow> Inl (MissingField fld)
   | Some value \<Rightarrow> Inr (value, bt_remove fld m))"

definition required_unsigned :: "u64 \<Rightarrow> u64 reader" where
  [run]: "required_unsigned fld = r_bind (required fld) (\<lambda>v. r_lift (case v of
     Unsigned value \<Rightarrow> Inr value
   | _ \<Rightarrow> Inl (WrongType fld)))"

definition version :: "unit reader" where
  [run]: "version = r_bind (required_unsigned 1) (\<lambda>actual. r_lift
     (if actual = VERSION then Inr () else Inl (ProtocolMismatch actual)))"

definition required_signed :: "u64 \<Rightarrow> i64 reader" where
  [run]: "required_signed fld = r_bind (required fld) (\<lambda>v. r_lift (case v of
     Unsigned value \<Rightarrow> (if uint value < 2 ^ 63 then Inr value else Inl (InvalidField fld))
   | Negative value \<Rightarrow> Inr value
   | _ \<Rightarrow> Inl (WrongType fld)))"

definition required_bytes :: "u64 \<Rightarrow> nat \<Rightarrow> bytes reader" where
  [run]: "required_bytes fld len = r_bind (required fld) (\<lambda>v. r_lift (case v of
     Bytes value \<Rightarrow> (if length value = len then Inr value else Inl (InvalidField fld))
   | _ \<Rightarrow> Inl (WrongType fld)))"

definition required_bounded_bytes :: "u64 \<Rightarrow> nat \<Rightarrow> nat \<Rightarrow> bytes reader" where
  [run]: "required_bounded_bytes fld minimum maximum = r_bind (required fld) (\<lambda>v. r_lift (case v of
     Bytes value \<Rightarrow>
       (if minimum \<le> length value \<and> length value \<le> maximum then Inr value else Inl (InvalidField fld))
   | _ \<Rightarrow> Inl (WrongType fld)))"

text \<open>An absent field is \<^verbatim>\<open>None\<close>; a present one is read with the required reader.\<close>

definition r_optional :: "u64 \<Rightarrow> 'a reader \<Rightarrow> 'a option reader" where
  [run]: "r_optional fld r m =
     (if bt_get m fld = None then Inr (None, m) else map_ok (\<lambda>(x, m). (Some x, m)) (r m))"

definition optional_bounded_bytes :: "u64 \<Rightarrow> nat \<Rightarrow> nat \<Rightarrow> bytes option reader" where
  [run]: "optional_bounded_bytes fld minimum maximum =
     r_optional fld (required_bounded_bytes fld minimum maximum)"

definition required_array :: "u64 \<Rightarrow> cbor_value list reader" where
  [run]: "required_array fld = r_bind (required fld) (\<lambda>v. r_lift (case v of
     Array values \<Rightarrow> Inr values
   | _ \<Rightarrow> Inl (WrongType fld)))"

definition required_map :: "u64 \<Rightarrow> cbor_value reader" where
  [run]: "required_map fld = r_bind (required fld) (\<lambda>v. r_lift (case v of
     CMap entries \<Rightarrow> Inr (CMap entries)
   | _ \<Rightarrow> Inl (WrongType fld)))"

definition digest_field :: "u64 \<Rightarrow> digest reader" where
  [run]: "digest_field fld = r_bind (required_bytes fld 32) (\<lambda>b. r_lift
     (if length b = 32 then Inr b else Inl (InvalidField fld)))"

definition optional_digest :: "u64 \<Rightarrow> digest option reader" where
  [run]: "optional_digest fld = r_optional fld (digest_field fld)"

definition required_text :: "u64 \<Rightarrow> nat \<Rightarrow> bytes reader" where
  [run]: "required_text fld maximum = r_bind (required fld) (\<lambda>v. r_lift (case v of
     Text value \<Rightarrow> (if length value \<le> maximum then Inr value else Inl (InvalidField fld))
   | _ \<Rightarrow> Inl (WrongType fld)))"

definition optional_text :: "u64 \<Rightarrow> nat \<Rightarrow> bytes option reader" where
  [run]: "optional_text fld maximum = r_optional fld (required_text fld maximum)"

definition non_empty :: "bytes \<Rightarrow> u64 \<Rightarrow> schema_error + bytes" where
  [run]: "non_empty value fld = (if value = [] then Inl (InvalidField fld) else Inr value)"

text \<open>An identifier field: the bytes at their exact length, then the identifier's conversion.\<close>

definition id_field :: "u64 \<Rightarrow> nat \<Rightarrow> (bytes \<Rightarrow> identifier_error + bytes) \<Rightarrow> bytes reader" where
  [run]: "id_field fld len try_from = r_bind (required_bytes fld len) (\<lambda>b.
     r_lift (map_err SchemaIdentifier (try_from b)))"

text \<open>The start of every decoder: no field outside the schema, then the fields one after the other.\<close>

definition read_message :: "u64 list \<Rightarrow> 'a reader \<Rightarrow> field_map \<Rightarrow> schema_error + 'a" where
  [run]: "read_message known r m = rbind (reject_unknown m known) (\<lambda>_. map_ok fst (r m))"

section \<open>Field constructors\<close>

definition signed_value :: "i64 \<Rightarrow> cbor_value" where
  [run]: "signed_value value = (if 0 \<le> sint value then Unsigned value else Negative value)"

text \<open>The test \<^verbatim>\<open>matches!(value, CborValue::Map(_))\<close>.\<close>

definition is_map :: "cbor_value \<Rightarrow> bool" where
  [run]: "is_map v \<longleftrightarrow> (case v of CMap es \<Rightarrow> True | _ \<Rightarrow> False)"

section \<open>What the readers accept\<close>

lemma r_bind_ok [ok_iff]: "r_bind r f m = Inr p \<longleftrightarrow> (\<exists>x m'. r m = Inr (x, m') \<and> f x m' = Inr p)"
  by (auto simp: r_bind_def rbind_ok)

lemma r_lift_ok [ok_iff]: "r_lift y m = Inr (x, m') \<longleftrightarrow> y = Inr x \<and> m' = m"
  by (cases y) (auto simp: r_lift_def)

lemma r_return_ok [ok_iff]: "r_return y m = Inr (x, m') \<longleftrightarrow> x = y \<and> m' = m"
  by (auto simp: r_return_def)

lemma required_ok [ok_iff]:
  "required fld m = Inr (x, m') \<longleftrightarrow> bt_get m fld = Some x \<and> m' = bt_remove fld m"
  by (auto simp: required_def split: option.splits)

lemmas read_defs = required_def r_bind_def r_lift_def

lemma required_unsigned_ok [ok_iff]:
  "required_unsigned fld m = Inr (x, m') \<longleftrightarrow> bt_get m fld = Some (Unsigned x) \<and> m' = bt_remove fld m"
  by (cases "bt_get m fld") (auto simp: required_unsigned_def read_defs split: cbor_value.splits if_splits)

lemma version_ok [ok_iff]:
  "version m = Inr (x, m') \<longleftrightarrow> bt_get m 1 = Some (Unsigned VERSION) \<and> m' = bt_remove 1 m"
  by (auto simp: version_def ok_iff split: if_splits)

lemma uint_less_signed: "uint (v :: i64) < 2 ^ 63 \<longleftrightarrow> 0 \<le> sint v"
proof (cases "sint v < 0")
  case True
  have "uint v = (sint v + 2 ^ 64) mod 2 ^ 64"
    by (simp add: uint_sint take_bit_eq_mod)
  also have "\<dots> = sint v + 2 ^ 64"
    using True sint_ge [of v] by (intro mod_pos_pos_trivial) simp_all
  finally show ?thesis using True sint_ge [of v] by simp
next
  case False
  then have "uint v = sint v"
    using sint_lt [of v] by (simp add: uint_sint take_bit_eq_mod)
  then show ?thesis using False sint_lt [of v] by simp
qed

text \<open>An integer field: unsigned below \<open>2^63\<close>, or negative.\<close>

definition reads_signed :: "cbor_value option \<Rightarrow> i64 \<Rightarrow> bool" where
  "reads_signed v x \<longleftrightarrow> v = Some (signed_value x) \<or> v = Some (Negative x)"

lemma reads_signed_value [simp]: "reads_signed (Some (signed_value y)) x \<longleftrightarrow> x = y"
  by (auto simp: reads_signed_def signed_value_def split: if_splits)

lemma required_signed_ok [ok_iff]:
  "required_signed fld m = Inr (x, m') \<longleftrightarrow> reads_signed (bt_get m fld) x \<and> m' = bt_remove fld m"
  by (cases "bt_get m fld")
     (auto simp: required_signed_def signed_value_def reads_signed_def read_defs
        uint_less_signed [simplified] split: cbor_value.splits if_splits)

lemma required_bytes_ok [ok_iff]:
  "required_bytes fld len m = Inr (x, m') \<longleftrightarrow>
     bt_get m fld = Some (Bytes x) \<and> length x = len \<and> m' = bt_remove fld m"
  by (cases "bt_get m fld") (auto simp: required_bytes_def read_defs split: cbor_value.splits if_splits)

lemma required_bounded_bytes_ok [ok_iff]:
  "required_bounded_bytes fld lo hi m = Inr (x, m') \<longleftrightarrow>
     bt_get m fld = Some (Bytes x) \<and> lo \<le> length x \<and> length x \<le> hi \<and> m' = bt_remove fld m"
  by (cases "bt_get m fld") (auto simp: required_bounded_bytes_def read_defs split: cbor_value.splits if_splits)

lemma required_array_ok [ok_iff]:
  "required_array fld m = Inr (x, m') \<longleftrightarrow> bt_get m fld = Some (Array x) \<and> m' = bt_remove fld m"
  by (cases "bt_get m fld") (auto simp: required_array_def read_defs split: cbor_value.splits if_splits)

lemma required_map_ok [ok_iff]:
  "required_map fld m = Inr (x, m') \<longleftrightarrow> bt_get m fld = Some x \<and> is_map x \<and> m' = bt_remove fld m"
  by (cases "bt_get m fld") (auto simp: required_map_def is_map_def read_defs split: cbor_value.splits)

lemma digest_field_ok [ok_iff]:
  "digest_field fld m = Inr (x, m') \<longleftrightarrow>
     bt_get m fld = Some (Bytes x) \<and> length x = 32 \<and> m' = bt_remove fld m"
  by (auto simp: digest_field_def ok_iff split: if_splits)

lemma required_text_ok [ok_iff]:
  "required_text fld mx m = Inr (x, m') \<longleftrightarrow>
     bt_get m fld = Some (Text x) \<and> length x \<le> mx \<and> m' = bt_remove fld m"
  by (cases "bt_get m fld") (auto simp: required_text_def read_defs split: cbor_value.splits if_splits)

lemma non_empty_ok [ok_iff]: "non_empty value fld = Inr x \<longleftrightarrow> x = value \<and> value \<noteq> []"
  by (auto simp: non_empty_def)

lemma id_field_ok:
  assumes "try_from = fixed_bytes_try_from name len"
  shows "id_field fld len try_from m = Inr (x, m') \<longleftrightarrow>
     bt_get m fld = Some (Bytes x) \<and> length x = len \<and> m' = bt_remove fld m"
  by (auto simp: id_field_def ok_iff assms)

lemmas id_fields_ok [ok_iff] = id_defs [THEN id_field_ok]

lemma r_optional_ok [ok_iff]:
  "r_optional fld r m = Inr (x, m') \<longleftrightarrow>
     (case x of None \<Rightarrow> bt_get m fld = None \<and> m' = m
      | Some y \<Rightarrow> bt_get m fld \<noteq> None \<and> r m = Inr (y, m'))"
  by (auto simp: r_optional_def ok_iff split: option.splits)

lemma bt_remove_absent: "bt_get m k = None \<Longrightarrow> bt_remove k m = m"
  by (induction m) (auto split: if_splits)

lemma optional_bounded_bytes_ok [ok_iff]:
  "optional_bounded_bytes fld lo hi m = Inr (x, m') \<longleftrightarrow>
     bt_get m fld = map_option Bytes x \<and> (\<forall>b. x = Some b \<longrightarrow> lo \<le> length b \<and> length b \<le> hi)
   \<and> m' = bt_remove fld m"
  by (auto simp: optional_bounded_bytes_def ok_iff bt_remove_absent split: option.splits)

lemma optional_digest_ok [ok_iff]:
  "optional_digest fld m = Inr (x, m') \<longleftrightarrow>
     bt_get m fld = map_option Bytes x \<and> (\<forall>b. x = Some b \<longrightarrow> length b = 32)
   \<and> m' = bt_remove fld m"
  by (auto simp: optional_digest_def ok_iff bt_remove_absent split: option.splits)

lemma optional_text_ok [ok_iff]:
  "optional_text fld mx m = Inr (x, m') \<longleftrightarrow>
     bt_get m fld = map_option Text x \<and> (\<forall>b. x = Some b \<longrightarrow> length b \<le> mx)
   \<and> m' = bt_remove fld m"
  by (auto simp: optional_text_def ok_iff bt_remove_absent split: option.splits)

lemma reject_unknown_ok [ok_iff]: "reject_unknown m known = Inr u \<longleftrightarrow> fst ` set m \<subseteq> set known"
  by (induction m) (auto split: if_splits)

lemma read_message_ok:
  "read_message known r m = Inr x \<longleftrightarrow> fst ` set m \<subseteq> set known \<and> (\<exists>m'. r m = Inr (x, m'))"
  by (auto simp: read_message_def rbind_ok map_ok_ok reject_unknown_ok)

lemma Some_eq_map_option [simp]: "Some y = map_option f x \<longleftrightarrow> (\<exists>z. x = Some z \<and> f z = y)"
  by (cases x) auto

section \<open>Messages as field maps\<close>

lemma map_of_mset:
  assumes "mset xs = mset ys" and "distinct (map fst ys)"
  shows "map_of xs = map_of ys"
proof -
  have "distinct (map fst xs)" using assms by (metis mset_eq_imp_distinct_iff mset_map)
  with assms show ?thesis by (metis map_of_inject_set mset_eq_setD)
qed

lemma bt_get_mset: "bt_wf m \<Longrightarrow> mset es = mset m \<Longrightarrow> map_of es = bt_get m"
  using map_of_mset [of es m] bt.distinct_keys [of m] by (auto simp: bt_get_def)

lemma mset_eqI_bt_get:
  assumes "bt_wf m" and "distinct (map fst es)" and "map_of es = bt_get m"
  shows "mset es = mset m"
proof -
  have "distinct es" and "distinct m"
    using assms(2) bt.distinct_keys [OF assms(1)] by (auto simp: distinct_map)
  moreover have "set es = set m"
    using map_of_inject_set [of es m] assms bt.distinct_keys [OF assms(1)] by (simp add: bt_get_def fun_eq_iff)
  ultimately show ?thesis by (simp add: set_eq_iff_mset_eq_distinct)
qed

lemma bt_wf_mset_eq: "bt_wf m \<Longrightarrow> bt_wf m' \<Longrightarrow> mset m = mset m' \<Longrightarrow> m = m'"
  by (rule bt.entries_eqI) (use bt_get_mset [of m' m] in \<open>auto simp: bt_get_def\<close>)

lemma mset_bt_insert: "bt_get m k = None \<Longrightarrow> mset (bt_insert k v m) = add_mset (k, v) (mset m)"
  by (induction k v m rule: bt_insert.induct) (auto split: if_splits)

lemma fields_loop_ok:
  assumes "bt_wf m"
  shows "fields_loop es m = Inr m' \<longleftrightarrow>
     (\<exists>ps. es = map ukey ps \<and> bt_wf m' \<and> mset ps + mset m = mset m')"
  using assms
proof (induction es arbitrary: m)
  case Nil
  then show ?case by (auto dest: bt_wf_mset_eq)
next
  case (Cons e es)
  obtain k v where e: "e = (k, v)" by (cases e)
  show ?case
  proof (cases "\<exists>key. k = Unsigned key \<and> bt_get m key = None")
    case True
    then obtain key where key: "k = Unsigned key" "bt_get m key = None" by blast
    with Cons.IH [OF bt_wf_insert [OF Cons.prems]]
    have "fields_loop (e # es) m = Inr m' \<longleftrightarrow>
        (\<exists>ps. es = map ukey ps \<and> bt_wf m' \<and> mset ((key, v) # ps) + mset m = mset m')"
      by (simp add: e mset_bt_insert)
    also have "\<dots> \<longleftrightarrow> (\<exists>ps. e # es = map ukey ps \<and> bt_wf m' \<and> mset ps + mset m = mset m')"
      using key(1) e by (fastforce simp: Cons_eq_map_conv)
    finally show ?thesis .
  next
    case False
    have "\<not> (e # es = map ukey ps \<and> bt_wf m' \<and> mset ps + mset m = mset m')" for ps
    proof
      assume asm: "e # es = map ukey ps \<and> bt_wf m' \<and> mset ps + mset m = mset m'"
      with False e obtain key v' where "(key, v) \<in> set ps" "k = Unsigned key" "bt_get m key = Some v'"
        by (fastforce simp: Cons_eq_map_conv)
      then have "key \<in> set (map fst ps)" and "key \<in> set (map fst m)"
        by (force simp: bt_get_def dest: map_of_SomeD)+
      moreover have "distinct (map fst (ps @ m))"
        using asm bt.distinct_keys [of m'] by (metis mset_append mset_eq_imp_distinct_iff mset_map)
      ultimately show False by auto
    qed
    with False show ?thesis by (auto simp: e split: cbor_value.splits)
  qed
qed

lemma cbor_fields_ok [ok_iff]:
  "cbor_fields v = Inr m \<longleftrightarrow> (\<exists>ps. v = CMap (map ukey ps) \<and> bt_wf m \<and> mset ps = mset m)"
  by (auto simp: cbor_fields_def fields_loop_ok bt.invar_empty split: cbor_value.splits)

lemma map_of_eq_known:
  assumes "fst ` set es \<subseteq> set known" and "fst ` set m \<subseteq> set known"
    and "\<forall>k\<in>set known. map_of es k = bt_get m k"
  shows "map_of es = bt_get m"
proof
  fix k
  show "map_of es k = bt_get m k"
  proof (cases "k \<in> set known")
    case True
    with assms(3) show ?thesis by blast
  next
    case False
    with assms(1,2) have "k \<notin> fst ` set es" and "k \<notin> fst ` set m" by auto
    then show ?thesis by (simp add: bt_get_def map_of_eq_None_iff [THEN iffD2])
  qed
qed

text \<open>A decoder that finds every known field where the entries of its result have it.\<close>

lemma read_message_entries:
  assumes "read_message known r m = Inr x" and "fst ` set es \<subseteq> set known"
    and "\<And>m'. r m = Inr (x, m') \<Longrightarrow> \<forall>k\<in>set known. map_of es k = bt_get m k"
  shows "map_of es = bt_get m"
  using assms map_of_eq_known [of es known m] by (auto simp: read_message_ok)

section \<open>Reading a canonicalised message\<close>

definition canon_fields :: "field_map \<Rightarrow> field_map" where
  "canon_fields m = map (\<lambda>(k, v). (k, canon v)) m"

lemma map_fst_canon_fields [simp]: "map fst (canon_fields m) = map fst m"
  by (simp add: canon_fields_def comp_def case_prod_beta)

lemma keys_canon_fields [simp]: "fst ` set (canon_fields m) = fst ` set m"
  by (metis list.set_map map_fst_canon_fields)

lemma bt_wf_canon_fields [simp]: "bt_wf (canon_fields m) = bt_wf m"
  by (simp add: bt_wf_def)

lemma bt_get_canon_fields [simp]: "bt_get (canon_fields m) k = map_option canon (bt_get m k)"
  by (induction m) (auto simp: canon_fields_def)

lemma bt_remove_canon_fields [simp]: "bt_remove k (canon_fields m) = canon_fields (bt_remove k m)"
  by (induction m) (auto simp: canon_fields_def)

lemma mset_canon_fields: "mset ps = mset m \<Longrightarrow> mset (canon_fields ps) = mset (canon_fields m)"
  by (simp add: canon_fields_def)

lemma fields_canon: 
  assumes "cbor_fields v = Inr m"
  shows "cbor_fields (canon v) = Inr (canon_fields m)"
proof -
  from assms obtain ps where v: "v = CMap (map ukey ps)" "bt_wf m" "mset ps = mset m"
    by (auto simp: ok_iff)
  let ?ss = "sort_key (\<lambda>e. entry_order (ukey e)) ps"
  have "canon v = CMap (map ukey (canon_fields ?ss))"
    by (simp add: v(1) sort_key_map canon_fields_def comp_def case_prod_beta)
  moreover have "mset (canon_fields ?ss) = mset (canon_fields m)"
    using v(3) by (intro mset_canon_fields) simp
  ultimately show ?thesis using v(2) by (auto simp: ok_iff)
qed

text \<open>\<open>sim n r r'\<close>: where \<open>r'\<close> reads a value, \<open>r\<close> reads its image under \<open>n\<close> from the
  canonicalised fields.\<close>

definition sim :: "('a \<Rightarrow> 'b) \<Rightarrow> 'b reader \<Rightarrow> 'a reader \<Rightarrow> bool" where
  "sim n r r' \<longleftrightarrow> (\<forall>m x m'. r' m = Inr (x, m') \<longrightarrow> r (canon_fields m) = Inr (n x, canon_fields m'))"

named_theorems sim_intros \<open>reading canonicalised fields\<close>

lemma sim_bind [sim_intros]:
  assumes "sim n r r'" and "\<And>x. sim n' (f (n x)) (f' x)"
  shows "sim n' (r_bind r f) (r_bind r' f')"
  using assms by (fastforce simp: sim_def ok_iff)

lemma sim_lift: "(\<And>a. y = Inr a \<Longrightarrow> x = Inr (n a)) \<Longrightarrow> sim n (r_lift x) (r_lift y)"
  by (auto simp: sim_def ok_iff)

lemma sim_lift_same [sim_intros]: "sim (\<lambda>x. x) (r_lift x) (r_lift x)"
  by (rule sim_lift)

lemma sim_return: "x = n y \<Longrightarrow> sim n (r_return x) (r_return y)"
  by (auto simp: sim_def ok_iff)

lemma sim_required [sim_intros]: "sim canon (required fld) (required fld)"
  by (auto simp: sim_def ok_iff)

lemma sim_scalars [sim_intros]:
  "sim (\<lambda>x. x) (required_unsigned fld) (required_unsigned fld)"
  "sim (\<lambda>x. x) version version"
  "sim (\<lambda>x. x) (required_signed fld) (required_signed fld)"
  "sim (\<lambda>x. x) (required_bytes fld len) (required_bytes fld len)"
  "sim (\<lambda>x. x) (required_bounded_bytes fld lo hi) (required_bounded_bytes fld lo hi)"
  "sim (\<lambda>x. x) (digest_field fld) (digest_field fld)"
  "sim (\<lambda>x. x) (required_text fld mx) (required_text fld mx)"
  "sim (\<lambda>x. x) (id_field fld len f) (id_field fld len f)"
  "sim (\<lambda>x. x) (optional_bounded_bytes fld lo hi) (optional_bounded_bytes fld lo hi)"
  "sim (\<lambda>x. x) (optional_digest fld) (optional_digest fld)"
  "sim (\<lambda>x. x) (optional_text fld mx) (optional_text fld mx)"
  by (auto simp: sim_def ok_iff reads_signed_def signed_value_def id_field_def option.map_comp comp_def)

lemma sim_array [sim_intros]: "sim (map canon) (required_array fld) (required_array fld)"
  by (auto simp: sim_def ok_iff)

lemma read_message_canon:
  assumes "sim n r r" and "read_message known r m = Inr x"
  shows "read_message known r (canon_fields m) = Inr (n x)"
  using assms by (auto simp: read_message_ok sim_def)

lemma is_map_canon: "is_map v \<Longrightarrow> is_map (canon v)"
  by (cases v) (simp_all add: is_map_def)

lemma sim_map [sim_intros]: "sim canon (required_map fld) (required_map fld)"
  by (auto simp: sim_def ok_iff is_map_canon)

section \<open>The contract of a message type\<close>

definition canonical_fields :: "field_map \<Rightarrow> bool" where
  "canonical_fields m \<longleftrightarrow> (\<forall>k v. bt_get m k = Some v \<longrightarrow> canonical v)"

lemma canonical_fieldsD: "canonical_fields m \<Longrightarrow> bt_get m k = Some v \<Longrightarrow> canonical v"
  by (auto simp: canonical_fields_def)

lemma canonical_signed:
  "canonical_fields m \<Longrightarrow> reads_signed (bt_get m k) x \<Longrightarrow> bt_get m k = Some (signed_value x)"
  using canonical_negative [of x] by (force simp: canonical_fields_def reads_signed_def signed_value_def)

text \<open>
  \<open>schema_fields\<close>: a message is written as the map of its \<open>entries\<close> and read by a reader of
  field maps, which recovers it from its entries and reads nothing but them.
\<close>

locale schema_fields =
  fixes entries :: "'r \<Rightarrow> field_map"
    and to_cbor :: "'r \<Rightarrow> cbor_value"
    and from_fields :: "field_map \<Rightarrow> schema_error + 'r"
    and from_cbor :: "cbor_value \<Rightarrow> schema_error + 'r"
    and norm :: "'r \<Rightarrow> 'r"
  assumes to_cbor_entries: "to_cbor r = CMap (map ukey (entries r))"
    and from_cbor_fields: "from_cbor v = rbind (cbor_fields v) from_fields"
    and distinct_entries: "distinct (map fst (entries r))"
    and entries_read: "from_fields m = Inr r \<Longrightarrow> canonical_fields m \<Longrightarrow> map_of (entries r) = bt_get m"
    and read_entries: "from_fields m = Inr r' \<Longrightarrow> map_of (entries r) = bt_get m \<Longrightarrow> r' = r"
    and read_canon: "from_fields m = Inr r \<Longrightarrow> from_fields (canon_fields m) = Inr (norm r)"
begin

lemma from_cbor_canon: "from_cbor v = Inr r \<Longrightarrow> from_cbor (canon v) = Inr (norm r)"
  using fields_canon read_canon by (auto simp: from_cbor_fields rbind_ok)

lemma sim_nested: "sim norm (r_lift (from_cbor (canon v))) (r_lift (from_cbor v))"
  by (rule sim_lift) (rule from_cbor_canon)

lemma from_to_cbor:
  assumes "from_cbor (to_cbor r) = Inr r'"
  shows "r' = r"
proof -
  from assms obtain ps m where "map ukey (entries r) = map ukey ps" and m: "bt_wf m" "mset ps = mset m"
    and "from_fields m = Inr r'"
    by (auto simp: from_cbor_fields to_cbor_entries ok_iff)
  moreover then have "entries r = ps"
    by (auto simp: inj_def elim!: map_injective)
  ultimately show ?thesis using read_entries bt_get_mset by blast
qed

lemma canonical_to_cbor:
  assumes "canonical v" and "from_cbor v = Inr r"
  shows "\<exists>ps. v = CMap (map ukey ps) \<and> mset ps = mset (entries r)"
    and "from_cbor (to_cbor r) = Inr r"
proof -
  from assms(2) obtain ps m where v: "v = CMap (map ukey ps)" and m: "bt_wf m" "mset ps = mset m"
    and r: "from_fields m = Inr r" by (auto simp: from_cbor_fields ok_iff)
  have "canonical_fields m"
    unfolding canonical_fields_def
  proof (intro allI impI)
    fix k x
    assume "bt_get m k = Some x"
    then have "(k, x) \<in> set ps" using m by (metis bt_get_mset map_of_SomeD)
    then show "canonical x" using canonical_map_value [OF assms(1) [unfolded v]] by force
  qed
  then have mset: "mset (entries r) = mset m"
    using m(1) distinct_entries entries_read [OF r] by (intro mset_eqI_bt_get)
  then show "\<exists>ps. v = CMap (map ukey ps) \<and> mset ps = mset (entries r)"
    using v m(2) by auto
  have "cbor_fields (to_cbor r) = Inr m"
    using mset m(1) by (auto simp: to_cbor_entries ok_iff)
  then show "from_cbor (to_cbor r) = Inr r"
    using r by (simp add: from_cbor_fields)
qed

lemma encode_to_cbor:
  assumes "decode b = Inr v" and "from_cbor v = Inr r"
  shows "encode (to_cbor r) = Inr b"
proof -
  from canonical_to_cbor(1) [OF canonical_decode [OF assms(1)] assms(2)] obtain ps
    where "v = CMap (map ukey ps)" and "mset ps = mset (entries r)" by blast
  moreover from assms(1) have "encode_into v = Inr b" "\<exists>v. decode b = Inr v"
    using encode_decode by (auto simp: encode_ok)
  ultimately show ?thesis
    using encode_into_map_perm [of "map ukey (entries r)" "map ukey ps" b]
    by (simp add: encode_ok to_cbor_entries del: encode_into.simps)
qed

text \<open>In ascending key order the map is the only one with these entries.\<close>

lemma canonical_to_cbor_eq:
  assumes "canonical v" and "from_cbor v = Inr r" and "sorted_wrt (<) (map fst (entries r))"
  shows "v = to_cbor r"
proof -
  from canonical_to_cbor(1) [OF assms(1,2)] obtain ps
    where v: "v = CMap (map ukey ps)" and "mset ps = mset (entries r)" by blast
  moreover have "bt_wf ps" and "bt_wf (entries r)"
    using assms(1,3) canonical_map_ascending v by (auto simp: bt_wf_def)
  ultimately show ?thesis using bt_wf_mset_eq by (simp add: to_cbor_entries) blast
qed

end

text \<open>\<open>schema_message\<close> adds the wire functions of a top-level message.\<close>

locale schema_message = schema_fields +
  fixes valid :: "'a \<Rightarrow> bool"
    and validate :: "'a \<Rightarrow> schema_error + unit"
    and canonical_bytes :: "'a \<Rightarrow> schema_error + bytes"
    and decode_message :: "bytes \<Rightarrow> schema_error + 'a"
  assumes validate_iff: "validate r = Inr () \<longleftrightarrow> (\<exists>r'. from_cbor (to_cbor r) = Inr r' \<and> valid r')"
    and valid_norm: "valid r \<Longrightarrow> valid (norm r)"
    and canonical_bytes_def:
      "canonical_bytes r = rbind (validate r) (\<lambda>_. map_err SchemaEncode (encode (to_cbor r)))"
    and decode_message_elim:
      "decode_message b = Inr r \<Longrightarrow>
        \<exists>v. decode b = Inr v \<and> from_cbor v = Inr r \<and> (valid r \<or> validate r = Inr ())"
    and decode_message_intro:
      "decode b = Inr v \<Longrightarrow> from_cbor v = Inr r \<Longrightarrow> validate r = Inr () \<Longrightarrow> decode_message b = Inr r"
begin

lemma encode_decode_message:
  assumes "decode_message b = Inr r"
  shows "canonical_bytes r = Inr b"
proof -
  from decode_message_elim [OF assms] obtain v
    where v: "decode b = Inr v" "from_cbor v = Inr r" "valid r \<or> validate r = Inr ()" by blast
  have "validate r = Inr ()"
    using canonical_to_cbor(2) [OF canonical_decode] v by (auto simp: validate_iff)
  with encode_to_cbor v show ?thesis by (simp add: canonical_bytes_def)
qed

lemma decode_encode_message:
  assumes "canonical_bytes r = Inr b"
  shows "decode_message b = Inr (norm r)"
proof -
  from assms have "validate r = Inr ()" and enc: "encode (to_cbor r) = Inr b"
    by (auto simp: canonical_bytes_def ok_iff)
  then have r: "from_cbor (to_cbor r) = Inr r" "valid r"
    using from_to_cbor by (auto simp: validate_iff)
  have dec: "decode b = Inr (canon (to_cbor r))"
    using enc by (rule decode_encode)
  have norm: "from_cbor (canon (to_cbor r)) = Inr (norm r)"
    using r(1) by (rule from_cbor_canon)
  moreover have "validate (norm r) = Inr ()"
    using canonical_to_cbor(2) [OF canonical_decode [OF dec] norm] valid_norm [OF r(2)]
    by (auto simp: validate_iff)
  ultimately show ?thesis using dec by (intro decode_message_intro)
qed

end

sublocale schema_message \<subseteq> canonical_codec canonical_bytes decode_message norm
  by unfold_locales (auto intro: encode_decode_message decode_encode_message)

end
