(* ===== verification/Schema.thy ===== *)
theory Schema
  imports Schema_Fields
begin

text \<open>
  The three messages of an authorization (\<^verbatim>\<open>Request\<close>, \<^verbatim>\<open>ApprovalContext\<close>,
  \<^verbatim>\<open>DecisionSubmission\<close> of \<^verbatim>\<open>crates/rp-protocol/src/schema.rs\<close>) with the values nested in
  them. Every message has its record, the list of its entries, \<^verbatim>\<open>to_cbor\<close>, \<^verbatim>\<open>from_cbor\<close>,
  \<^verbatim>\<open>validate\<close>, \<^verbatim>\<open>canonical_bytes\<close>, \<^verbatim>\<open>decode\<close> and its digests, and interprets the message
  contract of \<open>Schema_Fields\<close>. A message whose fields include opaque CBOR values is read back
  with those values in canonical map order; the others are read back as they were written.
\<close>

section \<open>Operation, operation input and decision\<close>

datatype operation = PackageInstall

definition Operation_from_code :: "u64 \<Rightarrow> schema_error + operation" where
  [run]: "Operation_from_code code = (if code = 1 then Inr PackageInstall else Inl (InvalidField 12))"

fun Operation_code :: "operation \<Rightarrow> u64" where
  "Operation_code PackageInstall = 1"

datatype decision = Approve | Deny

definition Decision_from_code :: "u64 \<Rightarrow> schema_error + decision" where
  [run]: "Decision_from_code code =
     (if code = 1 then Inr Approve else if code = 2 then Inr Deny else Inl (InvalidField 10))"

fun Decision_code :: "decision \<Rightarrow> u64" where
  "Decision_code Approve = 1"
| "Decision_code Deny = 2"

lemma Operation_from_code_ok [ok_iff]: "Operation_from_code c = Inr x \<longleftrightarrow> c = Operation_code x"
  by (cases x) (auto simp: Operation_from_code_def)

lemma Operation_code_inject [simp]: "Operation_code x = Operation_code y \<longleftrightarrow> x = y"
  by (cases x; cases y) simp_all

lemma Decision_from_code_ok [ok_iff]: "Decision_from_code c = Inr x \<longleftrightarrow> c = Decision_code x"
  by (cases x) (auto simp: Decision_from_code_def)

lemma Decision_code_inject [simp]: "Decision_code x = Decision_code y \<longleftrightarrow> x = y"
  by (cases x; cases y) simp_all

definition valid_package_name :: "bytes \<Rightarrow> bool" where
  [run]: "valid_package_name b \<longleftrightarrow>
     1 \<le> length b \<and> length b \<le> 255 \<and> is_ascii_lowercase (hd b)
   \<and> list_all (\<lambda>c. is_ascii_lowercase c \<or> is_ascii_digit c \<or> c \<in> set (str ''+.-'')) (tl b)"

record operation_input =
  oi_package_name :: bytes

definition OperationInput_package_install :: "bytes \<Rightarrow> schema_error + operation_input" where
  [run]: "OperationInput_package_install package_name =
     (if \<not> valid_package_name package_name then Inl (InvalidField 13)
      else Inr \<lparr>oi_package_name = package_name\<rparr>)"

definition OperationInput_entries :: "operation_input \<Rightarrow> field_map" where
  [run]: "OperationInput_entries r = [(1, Text (oi_package_name r))]"

definition OperationInput_to_cbor :: "operation_input \<Rightarrow> cbor_value" where
  [run]: "OperationInput_to_cbor r = CMap (map ukey (OperationInput_entries r))"

definition OperationInput_from_fields :: "field_map \<Rightarrow> schema_error + operation_input" where
  [run]: "OperationInput_from_fields = read_message [1]
    (r_bind (required_text 1 255) (\<lambda>package_name. r_lift
      (if \<not> valid_package_name package_name then Inl (InvalidField 13)
       else Inr \<lparr>oi_package_name = package_name\<rparr>)))"

definition OperationInput_from_cbor :: "cbor_value \<Rightarrow> schema_error + operation_input" where
  [run]: "OperationInput_from_cbor value = rbind (cbor_fields value) OperationInput_from_fields"

interpretation operation_input: schema_fields
  OperationInput_entries OperationInput_to_cbor OperationInput_from_fields OperationInput_from_cbor
  "\<lambda>r. r"
proof
  note defs = OperationInput_from_fields_def OperationInput_entries_def read_message_ok ok_iff
  fix m r r'
  show "map_of (OperationInput_entries r) = bt_get m"
    if "OperationInput_from_fields m = Inr r" "canonical_fields m"
    using that by (intro map_of_eq_known [where known = "[1]"]) (auto simp: defs split: if_splits)
  show "r' = r"
    if "OperationInput_from_fields m = Inr r'" "map_of (OperationInput_entries r) = bt_get m"
    using that(1) by (cases r; cases r') (auto simp: defs that(2) [symmetric] split: if_splits)
  show "OperationInput_from_fields (canon_fields m) = Inr r" if "OperationInput_from_fields m = Inr r"
    using that unfolding OperationInput_from_fields_def
    by (rule read_message_canon [rotated]) (rule sim_intros)+
qed (simp_all add: OperationInput_to_cbor_def OperationInput_from_cbor_def OperationInput_entries_def)

lemma operation_input_to_cbor:
  "canonical v \<Longrightarrow> OperationInput_from_cbor v = Inr r \<Longrightarrow> v = OperationInput_to_cbor r"
  by (rule operation_input.canonical_to_cbor_eq) (simp_all add: OperationInput_entries_def)

section \<open>Request\<close>

record request =
  rq_request_id :: bytes
  rq_device_id :: bytes
  rq_broker_epoch :: u64
  rq_generation :: u64
  rq_created_utc :: i64
  rq_expires_utc :: i64
  rq_boot_id :: bytes
  rq_deadline_mono_ns :: u64
  rq_nonce :: bytes
  rq_requester_uid :: u64
  rq_operation :: operation
  rq_operation_input :: operation_input
  rq_policy_id :: bytes
  rq_policy_digest :: digest
  rq_plan_digest :: digest
  rq_frozen_plan :: cbor_value
  rq_agent_note :: "bytes option"

definition Request_entries :: "request \<Rightarrow> field_map" where
  [run]: "Request_entries r =
    [(1, Unsigned VERSION),
     (2, Bytes (rq_request_id r)),
     (3, Bytes (rq_device_id r)),
     (4, Unsigned (rq_broker_epoch r)),
     (5, Unsigned (rq_generation r)),
     (6, signed_value (rq_created_utc r)),
     (7, signed_value (rq_expires_utc r)),
     (8, Bytes (rq_boot_id r)),
     (9, Unsigned (rq_deadline_mono_ns r)),
     (10, Bytes (rq_nonce r)),
     (11, Unsigned (rq_requester_uid r)),
     (12, Unsigned (Operation_code (rq_operation r))),
     (13, OperationInput_to_cbor (rq_operation_input r)),
     (14, Bytes (rq_policy_id r)),
     (15, Bytes (rq_policy_digest r)),
     (16, Bytes (rq_plan_digest r)),
     (17, rq_frozen_plan r)]
    @ (case rq_agent_note r of None \<Rightarrow> [] | Some note \<Rightarrow> [(18, Text note)])"

definition Request_to_cbor :: "request \<Rightarrow> cbor_value" where
  [run]: "Request_to_cbor r = CMap (map ukey (Request_entries r))"

definition Request_reader :: "request reader" where
  [run]: "Request_reader =
    r_bind version (\<lambda>_.
    r_bind (id_field 2 16 RequestId_try_from) (\<lambda>request_id.
    r_bind (id_field 3 16 DeviceId_try_from) (\<lambda>device_id.
    r_bind (required_unsigned 4) (\<lambda>broker_epoch.
    r_bind (required_unsigned 5) (\<lambda>generation.
    r_bind (required_signed 6) (\<lambda>created_utc.
    r_bind (required_signed 7) (\<lambda>expires_utc.
    r_bind (id_field 8 16 BootId_try_from) (\<lambda>boot_id.
    r_bind (required_unsigned 9) (\<lambda>deadline_mono_ns.
    r_bind (id_field 10 32 Nonce_try_from) (\<lambda>nonce.
    r_bind (required_unsigned 11) (\<lambda>requester_uid.
    r_bind (required_unsigned 12) (\<lambda>code.
    r_bind (r_lift (Operation_from_code code)) (\<lambda>operation.
    r_bind (required 13) (\<lambda>input.
    r_bind (r_lift (OperationInput_from_cbor input)) (\<lambda>operation_input.
    r_bind (id_field 14 16 PolicyId_try_from) (\<lambda>policy_id.
    r_bind (digest_field 15) (\<lambda>policy_digest.
    r_bind (digest_field 16) (\<lambda>plan_digest.
    r_bind (required 17) (\<lambda>frozen_plan.
    r_bind (optional_text 18 512) (\<lambda>agent_note.
    r_return \<lparr>
      rq_request_id = request_id, rq_device_id = device_id, rq_broker_epoch = broker_epoch,
      rq_generation = generation, rq_created_utc = created_utc, rq_expires_utc = expires_utc,
      rq_boot_id = boot_id, rq_deadline_mono_ns = deadline_mono_ns, rq_nonce = nonce,
      rq_requester_uid = requester_uid, rq_operation = operation,
      rq_operation_input = operation_input, rq_policy_id = policy_id,
      rq_policy_digest = policy_digest, rq_plan_digest = plan_digest,
      rq_frozen_plan = frozen_plan, rq_agent_note = agent_note\<rparr>))))))))))))))))))))"

abbreviation Request_known :: "u64 list" where
  "Request_known \<equiv> [1, 2, 3, 4, 5, 6, 7, 8, 9, 10, 11, 12, 13, 14, 15, 16, 17, 18]"

definition Request_from_fields :: "field_map \<Rightarrow> schema_error + request" where
  [run]: "Request_from_fields = read_message Request_known
    (r_bind Request_reader (\<lambda>request. r_lift
      (if sint (rq_expires_utc request) < sint (rq_created_utc request) then Inl (InvalidField 7)
       else if \<not> is_map (rq_frozen_plan request) then Inl (WrongType 17)
       else Inr request)))"

definition Request_from_cbor :: "cbor_value \<Rightarrow> schema_error + request" where
  [run]: "Request_from_cbor value = rbind (cbor_fields value) Request_from_fields"

definition Request_validate :: "request \<Rightarrow> schema_error + unit" where
  [run]: "Request_validate r = rbind (Request_from_cbor (Request_to_cbor r)) (\<lambda>validated.
     if \<not> is_map (rq_frozen_plan validated) then Inl (WrongType 17) else Inr ())"

definition Request_canonical_bytes :: "request \<Rightarrow> schema_error + bytes" where
  [run]: "Request_canonical_bytes r =
     rbind (Request_validate r) (\<lambda>_. map_err SchemaEncode (encode (Request_to_cbor r)))"

definition Request_digest :: "hash \<Rightarrow> request \<Rightarrow> schema_error + digest" where
  [run]: "Request_digest sha r = rbind (Request_validate r) (\<lambda>_.
     map_err SchemaEncode (digest_cbor sha DomainRequest (Request_to_cbor r)))"

definition Request_decode :: "bytes \<Rightarrow> schema_error + request" where
  [run]: "Request_decode input = rbind (map_err SchemaCbor (decode input)) Request_from_cbor"

definition Request_norm :: "request \<Rightarrow> request" where
  "Request_norm r = r\<lparr>rq_frozen_plan := canon (rq_frozen_plan r)\<rparr>"

text \<open>What the reader found in the field map.\<close>

lemma Request_reader_ok:
  "Request_reader m = Inr (r, m') \<Longrightarrow>
     bt_get m 1 = Some (Unsigned VERSION)
   \<and> bt_get m 2 = Some (Bytes (rq_request_id r)) \<and> length (rq_request_id r) = 16
   \<and> bt_get m 3 = Some (Bytes (rq_device_id r)) \<and> length (rq_device_id r) = 16
   \<and> bt_get m 4 = Some (Unsigned (rq_broker_epoch r))
   \<and> bt_get m 5 = Some (Unsigned (rq_generation r))
   \<and> reads_signed (bt_get m 6) (rq_created_utc r)
   \<and> reads_signed (bt_get m 7) (rq_expires_utc r)
   \<and> bt_get m 8 = Some (Bytes (rq_boot_id r)) \<and> length (rq_boot_id r) = 16
   \<and> bt_get m 9 = Some (Unsigned (rq_deadline_mono_ns r))
   \<and> bt_get m 10 = Some (Bytes (rq_nonce r)) \<and> length (rq_nonce r) = 32
   \<and> bt_get m 11 = Some (Unsigned (rq_requester_uid r))
   \<and> bt_get m 12 = Some (Unsigned (Operation_code (rq_operation r)))
   \<and> (\<exists>v. bt_get m 13 = Some v \<and> OperationInput_from_cbor v = Inr (rq_operation_input r))
   \<and> bt_get m 14 = Some (Bytes (rq_policy_id r)) \<and> length (rq_policy_id r) = 16
   \<and> bt_get m 15 = Some (Bytes (rq_policy_digest r)) \<and> length (rq_policy_digest r) = 32
   \<and> bt_get m 16 = Some (Bytes (rq_plan_digest r)) \<and> length (rq_plan_digest r) = 32
   \<and> bt_get m 17 = Some (rq_frozen_plan r)
   \<and> bt_get m 18 = map_option Text (rq_agent_note r)
   \<and> (\<forall>note. rq_agent_note r = Some note \<longrightarrow> length note \<le> 512)"
  by (clarsimp simp: Request_reader_def ok_iff bt_get_remove)

lemma Request_entries_keys:
  "fst ` set (Request_entries r) \<subseteq> set Request_known"
  "distinct (map fst (Request_entries r))"
  by (auto simp: Request_entries_def split: option.splits)

lemma Request_entries_read:
  assumes "Request_from_fields m = Inr r" and c: "canonical_fields m"
  shows "map_of (Request_entries r) = bt_get m"
  using assms(1) unfolding Request_from_fields_def
proof (rule read_message_entries [OF _ Request_entries_keys(1)])
  fix m'
  assume "r_bind Request_reader (\<lambda>request. r_lift
      (if sint (rq_expires_utc request) < sint (rq_created_utc request) then Inl (InvalidField 7)
       else if \<not> is_map (rq_frozen_plan request) then Inl (WrongType 17)
       else Inr request)) m = Inr (r, m')"
  then have "Request_reader m = Inr (r, m')"
    by (auto simp: ok_iff split: if_splits)
  note f = Request_reader_ok [OF this]
  from f have "bt_get m 13 = Some (OperationInput_to_cbor (rq_operation_input r))"
    using operation_input_to_cbor [OF canonical_fieldsD [OF c]] by blast
  with f show "\<forall>k\<in>set Request_known. map_of (Request_entries r) k = bt_get m k"
    by (auto simp: Request_entries_def dest!: canonical_signed [OF c] split: option.splits)
qed

lemma Request_read_entries:
  assumes "Request_from_fields m = Inr r'" and "map_of (Request_entries r) = bt_get m"
  shows "r' = r"
proof -
  from assms(1) obtain m' where "Request_reader m = Inr (r', m')"
    by (auto simp: Request_from_fields_def read_message_ok ok_iff split: if_splits)
  from Request_reader_ok [OF this, folded assms(2)] show ?thesis
    by (intro request.equality)
       (auto simp: Request_entries_def dest: operation_input.from_to_cbor split: option.splits)
qed

lemma Request_read_canon:
  assumes "Request_from_fields m = Inr r"
  shows "Request_from_fields (canon_fields m) = Inr (Request_norm r)"
proof -
  have reader: "sim Request_norm Request_reader Request_reader"
    unfolding Request_reader_def
    by (rule sim_intros operation_input.sim_nested | rule sim_return, simp add: Request_norm_def)+
  show ?thesis
    using assms unfolding Request_from_fields_def
    by (rule read_message_canon [rotated], intro sim_bind [OF reader] sim_lift)
       (auto simp: Request_norm_def is_map_canon split: if_splits)
qed

interpretation request: schema_message
  Request_entries Request_to_cbor Request_from_fields Request_from_cbor Request_norm
  "\<lambda>_. True" Request_validate Request_canonical_bytes Request_decode
proof 
  fix r
  show "Request_validate r = Inr () \<longleftrightarrow> (\<exists>r'. Request_from_cbor (Request_to_cbor r) = Inr r' \<and> True)"
    by (auto simp: Request_validate_def Request_from_cbor_def Request_from_fields_def read_message_ok ok_iff
      simp del: set_simps split: if_splits)
qed (simp_all add: Request_to_cbor_def Request_from_cbor_def Request_entries_keys Request_entries_read
    Request_read_entries Request_read_canon Request_canonical_bytes_def Request_decode_def ok_iff)


section \<open>ApprovalContext\<close>

record approval_context =
  ac_request_id :: bytes
  ac_device_id :: bytes
  ac_broker_epoch :: u64
  ac_request_digest :: digest
  ac_generation :: u64
  ac_nonce :: bytes
  ac_rp_id :: bytes
  ac_origin :: bytes
  ac_decision :: decision
  ac_expires_utc :: i64

definition ApprovalContext_entries :: "approval_context \<Rightarrow> field_map" where
  [run]: "ApprovalContext_entries r =
    [(1, Unsigned VERSION),
     (2, Bytes (ac_request_id r)),
     (3, Bytes (ac_device_id r)),
     (4, Unsigned (ac_broker_epoch r)),
     (5, Bytes (ac_request_digest r)),
     (6, Unsigned (ac_generation r)),
     (7, Bytes (ac_nonce r)),
     (8, Text (ac_rp_id r)),
     (9, Text (ac_origin r)),
     (10, Unsigned (Decision_code (ac_decision r))),
     (11, signed_value (ac_expires_utc r))]"

definition ApprovalContext_to_cbor :: "approval_context \<Rightarrow> cbor_value" where
  [run]: "ApprovalContext_to_cbor r = CMap (map ukey (ApprovalContext_entries r))"

definition ApprovalContext_reader :: "approval_context reader" where
  [run]: "ApprovalContext_reader =
    r_bind version (\<lambda>_.
    r_bind (id_field 2 16 RequestId_try_from) (\<lambda>request_id.
    r_bind (id_field 3 16 DeviceId_try_from) (\<lambda>device_id.
    r_bind (required_unsigned 4) (\<lambda>broker_epoch.
    r_bind (digest_field 5) (\<lambda>request_digest.
    r_bind (required_unsigned 6) (\<lambda>generation.
    r_bind (id_field 7 32 Nonce_try_from) (\<lambda>nonce.
    r_bind (required_text 8 253) (\<lambda>rp_id.
    r_bind (r_lift (non_empty rp_id 8)) (\<lambda>rp_id.
    r_bind (required_text 9 255) (\<lambda>origin.
    r_bind (r_lift (non_empty origin 9)) (\<lambda>origin.
    r_bind (required_unsigned 10) (\<lambda>code.
    r_bind (r_lift (Decision_from_code code)) (\<lambda>decision.
    r_bind (required_signed 11) (\<lambda>expires_utc.
    r_return \<lparr>
      ac_request_id = request_id, ac_device_id = device_id, ac_broker_epoch = broker_epoch,
      ac_request_digest = request_digest, ac_generation = generation, ac_nonce = nonce,
      ac_rp_id = rp_id, ac_origin = origin, ac_decision = decision,
      ac_expires_utc = expires_utc\<rparr>))))))))))))))"

abbreviation ApprovalContext_known :: "u64 list" where
  "ApprovalContext_known \<equiv> [1, 2, 3, 4, 5, 6, 7, 8, 9, 10, 11]"

definition ApprovalContext_from_fields :: "field_map \<Rightarrow> schema_error + approval_context" where
  [run]: "ApprovalContext_from_fields = read_message ApprovalContext_known ApprovalContext_reader"

definition ApprovalContext_from_cbor :: "cbor_value \<Rightarrow> schema_error + approval_context" where
  [run]: "ApprovalContext_from_cbor value = rbind (cbor_fields value) ApprovalContext_from_fields"

definition ApprovalContext_validate :: "approval_context \<Rightarrow> schema_error + unit" where
  [run]: "ApprovalContext_validate r = map_ok (\<lambda>_. ()) (ApprovalContext_from_cbor (ApprovalContext_to_cbor r))"

definition ApprovalContext_canonical_bytes :: "approval_context \<Rightarrow> schema_error + bytes" where
  [run]: "ApprovalContext_canonical_bytes r =
     rbind (ApprovalContext_validate r) (\<lambda>_. map_err SchemaEncode (encode (ApprovalContext_to_cbor r)))"

definition ApprovalContext_digest :: "hash \<Rightarrow> approval_context \<Rightarrow> schema_error + digest" where
  [run]: "ApprovalContext_digest sha r = rbind (ApprovalContext_validate r) (\<lambda>_.
     map_err SchemaEncode (digest_cbor sha DomainDecision (ApprovalContext_to_cbor r)))"

definition ApprovalContext_webauthn_challenge :: "hash \<Rightarrow> approval_context \<Rightarrow> schema_error + digest" where
  [run]: "ApprovalContext_webauthn_challenge sha r = rbind (ApprovalContext_validate r) (\<lambda>_.
     map_err SchemaEncode (digest_cbor sha DomainWebAuthnChallenge (ApprovalContext_to_cbor r)))"

definition ApprovalContext_decode :: "bytes \<Rightarrow> schema_error + approval_context" where
  [run]: "ApprovalContext_decode input = rbind (map_err SchemaCbor (decode input)) ApprovalContext_from_cbor"

lemma ApprovalContext_reader_ok:
  "ApprovalContext_reader m = Inr (r, m') \<Longrightarrow>
     bt_get m 1 = Some (Unsigned VERSION)
   \<and> bt_get m 2 = Some (Bytes (ac_request_id r)) \<and> length (ac_request_id r) = 16
   \<and> bt_get m 3 = Some (Bytes (ac_device_id r)) \<and> length (ac_device_id r) = 16
   \<and> bt_get m 4 = Some (Unsigned (ac_broker_epoch r))
   \<and> bt_get m 5 = Some (Bytes (ac_request_digest r)) \<and> length (ac_request_digest r) = 32
   \<and> bt_get m 6 = Some (Unsigned (ac_generation r))
   \<and> bt_get m 7 = Some (Bytes (ac_nonce r)) \<and> length (ac_nonce r) = 32
   \<and> bt_get m 8 = Some (Text (ac_rp_id r)) \<and> ac_rp_id r \<noteq> [] \<and> length (ac_rp_id r) \<le> 253
   \<and> bt_get m 9 = Some (Text (ac_origin r)) \<and> ac_origin r \<noteq> [] \<and> length (ac_origin r) \<le> 255
   \<and> bt_get m 10 = Some (Unsigned (Decision_code (ac_decision r)))
   \<and> reads_signed (bt_get m 11) (ac_expires_utc r)"
  by (clarsimp simp: ApprovalContext_reader_def ok_iff bt_get_remove)

lemma ApprovalContext_entries_keys:
  "fst ` set (ApprovalContext_entries r) \<subseteq> set ApprovalContext_known"
  "distinct (map fst (ApprovalContext_entries r))"
  by (auto simp: ApprovalContext_entries_def split: option.splits)

lemma ApprovalContext_entries_read:
  assumes "ApprovalContext_from_fields m = Inr r" and c: "canonical_fields m"
  shows "map_of (ApprovalContext_entries r) = bt_get m"
  using assms(1) unfolding ApprovalContext_from_fields_def
proof (rule read_message_entries [OF _ ApprovalContext_entries_keys(1)])
  fix m'
  assume "ApprovalContext_reader m = Inr (r, m')"
  note f = ApprovalContext_reader_ok [OF this]
  from f show "\<forall>k\<in>set ApprovalContext_known. map_of (ApprovalContext_entries r) k = bt_get m k"
    by (auto simp: ApprovalContext_entries_def dest!: canonical_signed [OF c] split: option.splits)
qed

lemma ApprovalContext_read_entries:
  assumes "ApprovalContext_from_fields m = Inr r'" and "map_of (ApprovalContext_entries r) = bt_get m"
  shows "r' = r"
proof -
  from assms(1) obtain m' where "ApprovalContext_reader m = Inr (r', m')"
    by (auto simp: ApprovalContext_from_fields_def read_message_ok)
  from ApprovalContext_reader_ok [OF this, folded assms(2)] show ?thesis
    by (intro approval_context.equality) (auto simp: ApprovalContext_entries_def split: option.splits)
qed

lemma ApprovalContext_read_canon:
  assumes "ApprovalContext_from_fields m = Inr r"
  shows "ApprovalContext_from_fields (canon_fields m) = Inr (r)"
  using assms unfolding ApprovalContext_from_fields_def
proof (rule read_message_canon [rotated])
  show "sim (\<lambda>r. r) ApprovalContext_reader ApprovalContext_reader"
    unfolding ApprovalContext_reader_def
    by (rule sim_intros | rule sim_return, simp)+
qed

interpretation approval_context: schema_message
  ApprovalContext_entries ApprovalContext_to_cbor ApprovalContext_from_fields ApprovalContext_from_cbor
  "\<lambda>r. r" "\<lambda>_. True"
  ApprovalContext_validate ApprovalContext_canonical_bytes ApprovalContext_decode
proof
  fix r
  show "ApprovalContext_validate r = Inr () \<longleftrightarrow>
     (\<exists>r'. ApprovalContext_from_cbor (ApprovalContext_to_cbor r) = Inr r' \<and> (\<lambda>_. True) r')"
    by (cases "ApprovalContext_from_cbor (ApprovalContext_to_cbor r)") (auto simp: ApprovalContext_validate_def)
qed (auto simp: ApprovalContext_to_cbor_def ApprovalContext_from_cbor_def ApprovalContext_entries_keys
    ApprovalContext_canonical_bytes_def ApprovalContext_decode_def rbind_ok map_ok_ok map_err_ok
    intro: ApprovalContext_entries_read ApprovalContext_read_entries ApprovalContext_read_canon)

lemma ApprovalContext_to_cbor_eq:
  "canonical v \<Longrightarrow> ApprovalContext_from_cbor v = Inr r \<Longrightarrow> v = ApprovalContext_to_cbor r"
  by (rule approval_context.canonical_to_cbor_eq) (simp_all add: ApprovalContext_entries_def)

section \<open>DecisionSubmission\<close>

record decision_submission =
  ds_approval_context :: approval_context
  ds_credential_id :: bytes
  ds_authenticator_data :: bytes
  ds_client_data_json :: bytes
  ds_signature :: bytes
  ds_user_handle :: "bytes option"

definition DecisionSubmission_entries :: "decision_submission \<Rightarrow> field_map" where
  [run]: "DecisionSubmission_entries r =
    [(1, Unsigned VERSION),
     (2, ApprovalContext_to_cbor (ds_approval_context r)),
     (3, Bytes (ds_credential_id r)),
     (4, Bytes (ds_authenticator_data r)),
     (5, Bytes (ds_client_data_json r)),
     (6, Bytes (ds_signature r))]
    @ (case ds_user_handle r of None \<Rightarrow> [] | Some b \<Rightarrow> [(7, Bytes b)])"

definition DecisionSubmission_to_cbor :: "decision_submission \<Rightarrow> cbor_value" where
  [run]: "DecisionSubmission_to_cbor r = CMap (map ukey (DecisionSubmission_entries r))"

definition DecisionSubmission_reader :: "decision_submission reader" where
  [run]: "DecisionSubmission_reader =
    r_bind version (\<lambda>_.
    r_bind (required 2) (\<lambda>nested.
    r_bind (r_lift (ApprovalContext_from_cbor nested)) (\<lambda>approval_context.
    r_bind (required_bounded_bytes 3 1 1024) (\<lambda>credential_id.
    r_bind (required_bounded_bytes 4 1 512) (\<lambda>authenticator_data.
    r_bind (required_bounded_bytes 5 1 4096) (\<lambda>client_data_json.
    r_bind (required_bounded_bytes 6 1 512) (\<lambda>signature.
    r_bind (optional_bounded_bytes 7 0 256) (\<lambda>user_handle.
    r_return \<lparr>
      ds_approval_context = approval_context, ds_credential_id = credential_id,
      ds_authenticator_data = authenticator_data, ds_client_data_json = client_data_json,
      ds_signature = signature, ds_user_handle = user_handle\<rparr>))))))))"

abbreviation DecisionSubmission_known :: "u64 list" where
  "DecisionSubmission_known \<equiv> [1, 2, 3, 4, 5, 6, 7]"

definition DecisionSubmission_from_fields :: "field_map \<Rightarrow> schema_error + decision_submission" where
  [run]: "DecisionSubmission_from_fields = read_message DecisionSubmission_known DecisionSubmission_reader"

definition DecisionSubmission_from_cbor :: "cbor_value \<Rightarrow> schema_error + decision_submission" where
  [run]: "DecisionSubmission_from_cbor value = rbind (cbor_fields value) DecisionSubmission_from_fields"

definition DecisionSubmission_validate :: "decision_submission \<Rightarrow> schema_error + unit" where
  [run]: "DecisionSubmission_validate r = map_ok (\<lambda>_. ()) (DecisionSubmission_from_cbor (DecisionSubmission_to_cbor r))"

definition DecisionSubmission_canonical_bytes :: "decision_submission \<Rightarrow> schema_error + bytes" where
  [run]: "DecisionSubmission_canonical_bytes r =
     rbind (DecisionSubmission_validate r) (\<lambda>_. map_err SchemaEncode (encode (DecisionSubmission_to_cbor r)))"

definition DecisionSubmission_decode :: "bytes \<Rightarrow> schema_error + decision_submission" where
  [run]: "DecisionSubmission_decode input = rbind (map_err SchemaCbor (decode input)) DecisionSubmission_from_cbor"

lemma DecisionSubmission_reader_ok:
  "DecisionSubmission_reader m = Inr (r, m') \<Longrightarrow>
     bt_get m 1 = Some (Unsigned VERSION)
   \<and> (\<exists>v. bt_get m 2 = Some v \<and> ApprovalContext_from_cbor v = Inr (ds_approval_context r))
   \<and> bt_get m 3 = Some (Bytes (ds_credential_id r))
   \<and> 1 \<le> length (ds_credential_id r) \<and> length (ds_credential_id r) \<le> 1024
   \<and> bt_get m 4 = Some (Bytes (ds_authenticator_data r))
   \<and> 1 \<le> length (ds_authenticator_data r) \<and> length (ds_authenticator_data r) \<le> 512
   \<and> bt_get m 5 = Some (Bytes (ds_client_data_json r))
   \<and> 1 \<le> length (ds_client_data_json r) \<and> length (ds_client_data_json r) \<le> 4096
   \<and> bt_get m 6 = Some (Bytes (ds_signature r))
   \<and> 1 \<le> length (ds_signature r) \<and> length (ds_signature r) \<le> 512
   \<and> bt_get m 7 = map_option Bytes (ds_user_handle r)
   \<and> (\<forall>b. ds_user_handle r = Some b \<longrightarrow> length b \<le> 256)"
  by (clarsimp simp: DecisionSubmission_reader_def ok_iff bt_get_remove)

lemma DecisionSubmission_entries_keys:
  "fst ` set (DecisionSubmission_entries r) \<subseteq> set DecisionSubmission_known"
  "distinct (map fst (DecisionSubmission_entries r))"
  by (auto simp: DecisionSubmission_entries_def split: option.splits)

lemma DecisionSubmission_entries_read:
  assumes "DecisionSubmission_from_fields m = Inr r" and c: "canonical_fields m"
  shows "map_of (DecisionSubmission_entries r) = bt_get m"
  using assms(1) unfolding DecisionSubmission_from_fields_def
proof (rule read_message_entries [OF _ DecisionSubmission_entries_keys(1)])
  fix m'
  assume "DecisionSubmission_reader m = Inr (r, m')"
  note f = DecisionSubmission_reader_ok [OF this]
  from f have "bt_get m 2 = Some (ApprovalContext_to_cbor (ds_approval_context r))"
    using ApprovalContext_to_cbor_eq [OF canonical_fieldsD [OF c]] by blast
  with f show "\<forall>k\<in>set DecisionSubmission_known. map_of (DecisionSubmission_entries r) k = bt_get m k"
    by (auto simp: DecisionSubmission_entries_def dest!: canonical_signed [OF c] split: option.splits)
qed

lemma DecisionSubmission_read_entries:
  assumes "DecisionSubmission_from_fields m = Inr r'" and "map_of (DecisionSubmission_entries r) = bt_get m"
  shows "r' = r"
proof -
  from assms(1) obtain m' where "DecisionSubmission_reader m = Inr (r', m')"
    by (auto simp: DecisionSubmission_from_fields_def read_message_ok)
  from DecisionSubmission_reader_ok [OF this, folded assms(2)] show ?thesis
    by (intro decision_submission.equality) (auto simp: DecisionSubmission_entries_def dest: approval_context.from_to_cbor split: option.splits)
qed

lemma DecisionSubmission_read_canon:
  assumes "DecisionSubmission_from_fields m = Inr r"
  shows "DecisionSubmission_from_fields (canon_fields m) = Inr (r)"
  using assms unfolding DecisionSubmission_from_fields_def
proof (rule read_message_canon [rotated])
  show "sim (\<lambda>r. r) DecisionSubmission_reader DecisionSubmission_reader"
    unfolding DecisionSubmission_reader_def
    by (rule sim_intros approval_context.sim_nested | rule sim_return, simp)+
qed

interpretation decision_submission: schema_message
  DecisionSubmission_entries DecisionSubmission_to_cbor DecisionSubmission_from_fields DecisionSubmission_from_cbor
  "\<lambda>r. r" "\<lambda>_. True"
  DecisionSubmission_validate DecisionSubmission_canonical_bytes DecisionSubmission_decode
proof
  fix r
  show "DecisionSubmission_validate r = Inr () \<longleftrightarrow>
     (\<exists>r'. DecisionSubmission_from_cbor (DecisionSubmission_to_cbor r) = Inr r' \<and> (\<lambda>_. True) r')"
    by (cases "DecisionSubmission_from_cbor (DecisionSubmission_to_cbor r)") (auto simp: DecisionSubmission_validate_def)
qed (auto simp: DecisionSubmission_to_cbor_def DecisionSubmission_from_cbor_def DecisionSubmission_entries_keys
    DecisionSubmission_canonical_bytes_def DecisionSubmission_decode_def rbind_ok map_ok_ok map_err_ok
    intro: DecisionSubmission_entries_read DecisionSubmission_read_entries DecisionSubmission_read_canon)

section \<open>What the validator accepts\<close>

lemma bt_of_entries:
  assumes "distinct (map fst (es :: field_map))"
  obtains m where "bt_wf m" and "mset es = mset m" and "bt_get m = map_of es"
proof
  let ?m = "sort_key fst es"
  show wf: "bt_wf ?m"
    using assms sorted_sort_key [of fst es]
    by (simp add: bt_wf_def strict_sorted_iff distinct_map) 
  show "mset es = mset ?m" by simp
  then show "bt_get ?m = map_of es" using bt_get_mset [OF wf] by simp
qed

definition request_wf :: "request \<Rightarrow> bool" where
  "request_wf r \<longleftrightarrow>
     length (rq_request_id r) = 16 \<and> length (rq_device_id r) = 16 \<and> length (rq_boot_id r) = 16
   \<and> length (rq_nonce r) = 32 \<and> length (rq_policy_id r) = 16
   \<and> length (rq_policy_digest r) = 32 \<and> length (rq_plan_digest r) = 32
   \<and> sint (rq_created_utc r) \<le> sint (rq_expires_utc r)
   \<and> valid_package_name (oi_package_name (rq_operation_input r))
   \<and> is_map (rq_frozen_plan r)
   \<and> (\<forall>note. rq_agent_note r = Some note \<longrightarrow> length note \<le> 512)"

lemma OperationInput_from_to_cbor:
  "OperationInput_from_cbor (OperationInput_to_cbor i) = Inr i' \<longleftrightarrow> i' = i \<and> valid_package_name (oi_package_name i)"
  by (cases i; cases i')
     (auto simp: OperationInput_from_cbor_def OperationInput_to_cbor_def OperationInput_entries_def cbor_fields_def
       OperationInput_from_fields_def read_message_def required_text_def read_defs valid_package_name_def)

lemma Request_validate_iff: "Request_validate r = Inr () \<longleftrightarrow> request_wf r"
proof -
  obtain m where m: "bt_wf m" "mset (Request_entries r) = mset m" "bt_get m = map_of (Request_entries r)"
    using bt_of_entries Request_entries_keys(2) by blast
  have f: "cbor_fields (Request_to_cbor r) = Inr m"
    using m by (auto simp: Request_to_cbor_def cbor_fields_ok)
  have k: "fst ` set m \<subseteq> set Request_known"
    using Request_entries_keys(1) mset_eq_setD [OF m(2)] by metis
  show ?thesis
  proof
    assume "Request_validate r = Inr ()"
    then obtain r' m' where r': "Request_reader m = Inr (r', m')" "Request_from_cbor (Request_to_cbor r) = Inr r'"
      and ok: "\<not> sint (rq_expires_utc r') < sint (rq_created_utc r')" "is_map (rq_frozen_plan r')"
      by (auto simp: Request_validate_def Request_from_cbor_def Request_from_fields_def read_message_ok f ok_iff
          simp del: set_simps split: if_splits)
    have "r' = r" using r'(2) by (rule request.from_to_cbor)
    with Request_reader_ok [OF r'(1)] ok show "request_wf r"
      by (auto simp: request_wf_def m(3) Request_entries_def OperationInput_from_to_cbor split: option.splits)
  next
    assume wf: "request_wf r"
    have "\<exists>m'. Request_reader m = Inr (r, m')"
      using wf
      by (simp add: Request_reader_def ok_iff bt_get_remove m(3) Request_entries_def OperationInput_from_to_cbor request_wf_def
        split: option.splits)
    then have "Request_from_fields m = Inr r"
      using wf k by (auto simp: Request_from_fields_def read_message_def rbind_ok reject_unknown_ok
          r_bind_def r_lift_def request_wf_def simp del: set_simps)
    then show "Request_validate r = Inr ()"
      using wf by (simp add: Request_validate_def Request_from_cbor_def f request_wf_def)
  qed
qed

section \<open>Properties\<close>

text \<open>C23: the validator run before a request is encoded, hashed or signed accepts exactly the
  requests with identifiers and digests of their lengths, an expiry not before the creation, a valid
  package name, a map as frozen plan and a note of at most 512 bytes.\<close>

theorem request_validation:
  "Request_validate r = Inr () \<longleftrightarrow>
     length (rq_request_id r) = 16 \<and> length (rq_device_id r) = 16 \<and> length (rq_boot_id r) = 16
   \<and> length (rq_nonce r) = 32 \<and> length (rq_policy_id r) = 16
   \<and> length (rq_policy_digest r) = 32 \<and> length (rq_plan_digest r) = 32
   \<and> sint (rq_created_utc r) \<le> sint (rq_expires_utc r)
   \<and> valid_package_name (oi_package_name (rq_operation_input r))
   \<and> is_map (rq_frozen_plan r)
   \<and> (case rq_agent_note r of None \<Rightarrow> True | Some note \<Rightarrow> length note \<le> 512)"
  by (simp add: Request_validate_iff request_wf_def split: option.splits)

text \<open>A request digest commits to every field of the request: two requests with the same digest
  are the same up to the map order inside the frozen plan, unless SHA-256 collides on the two hashed
  strings.\<close>

lemma request_digest_binding:
  assumes "Request_digest sha r = Inr h" and "Request_digest sha r' = Inr h"
    and "no_collision sha (preimage DomainRequest (Request_to_cbor r)) (preimage DomainRequest (Request_to_cbor r'))"
  shows "Request_norm r = Request_norm r'"
proof -
  from assms(1,2) have v: "Request_validate r = Inr ()" "Request_validate r' = Inr ()"
    and d: "digest_cbor sha DomainRequest (Request_to_cbor r) = Inr h"
      "digest_cbor sha DomainRequest (Request_to_cbor r') = Inr h"
    by (auto simp: Request_digest_def rbind_ok map_err_ok)
  from d obtain e e' where e: "encode (Request_to_cbor r) = Inr e" "encode (Request_to_cbor r') = Inr e'"
    by (auto simp: digest_cbor_ok)
  from digest_cbor_binding [OF d assms(3)] e have "e = e'"
    using cbor.enc_eq_iff by blast
  with v e show ?thesis
    by (intro request.enc_eq_iff [THEN iffD1]) (auto simp: Request_canonical_bytes_def)
qed

end
