(* ===== verification/Schema_Records.thy ===== *)
theory Schema_Records
  imports Schema_Fields
begin

text \<open>
  The other messages of \<^verbatim>\<open>crates/rp-protocol/src/schema.rs\<close>: the sealed plan manifest, the
  lifecycle event, the terminal receipt, the enrollment statement, the service keyset and the
  revocation event, each with the same operations as the messages of \<open>Schema\<close> and the same
  contract. \<open>_valid\<close> is the condition a message's \<^verbatim>\<open>validate\<close> adds to its decoder.
\<close>

section \<open>PlanManifest\<close>

record plan_manifest =
  pm_plan_digest :: digest
  pm_inputs :: "cbor_value list"
  pm_action_graph :: cbor_value
  pm_policy_digest :: digest
  pm_created_utc :: i64
  pm_toolchain :: cbor_value
  pm_prestate_observation :: cbor_value

definition PlanManifest_entries :: "plan_manifest \<Rightarrow> field_map" where
  [run]: "PlanManifest_entries r =
    [(1, Unsigned VERSION),
     (2, Bytes (pm_plan_digest r)),
     (3, Array (pm_inputs r)),
     (4, pm_action_graph r),
     (5, Bytes (pm_policy_digest r)),
     (6, signed_value (pm_created_utc r)),
     (7, pm_toolchain r),
     (8, pm_prestate_observation r)]"

definition PlanManifest_to_cbor :: "plan_manifest \<Rightarrow> cbor_value" where
  [run]: "PlanManifest_to_cbor r = CMap (map ukey (PlanManifest_entries r))"

definition PlanManifest_reader :: "plan_manifest reader" where
  [run]: "PlanManifest_reader =
    r_bind version (\<lambda>_.
    r_bind (digest_field 2) (\<lambda>plan_digest.
    r_bind (required_array 3) (\<lambda>inputs.
    r_bind (required_map 4) (\<lambda>action_graph.
    r_bind (digest_field 5) (\<lambda>policy_digest.
    r_bind (required_signed 6) (\<lambda>created_utc.
    r_bind (required_map 7) (\<lambda>toolchain.
    r_bind (required_map 8) (\<lambda>prestate_observation.
    r_return \<lparr>
      pm_plan_digest = plan_digest, pm_inputs = inputs, pm_action_graph = action_graph,
      pm_policy_digest = policy_digest, pm_created_utc = created_utc,
      pm_toolchain = toolchain, pm_prestate_observation = prestate_observation\<rparr>))))))))"

abbreviation PlanManifest_known :: "u64 list" where
  "PlanManifest_known \<equiv> [1, 2, 3, 4, 5, 6, 7, 8]"

definition PlanManifest_from_fields :: "field_map \<Rightarrow> schema_error + plan_manifest" where
  [run]: "PlanManifest_from_fields = read_message PlanManifest_known PlanManifest_reader"

definition PlanManifest_from_cbor :: "cbor_value \<Rightarrow> schema_error + plan_manifest" where
  [run]: "PlanManifest_from_cbor value = rbind (cbor_fields value) PlanManifest_from_fields"

definition PlanManifest_validate :: "plan_manifest \<Rightarrow> schema_error + unit" where
  [run]: "PlanManifest_validate r = map_ok (\<lambda>_. ()) (PlanManifest_from_cbor (PlanManifest_to_cbor r))"

definition PlanManifest_canonical_bytes :: "plan_manifest \<Rightarrow> schema_error + bytes" where
  [run]: "PlanManifest_canonical_bytes r =
     rbind (PlanManifest_validate r) (\<lambda>_. map_err SchemaEncode (encode (PlanManifest_to_cbor r)))"

definition PlanManifest_digest :: "hash \<Rightarrow> plan_manifest \<Rightarrow> schema_error + digest" where
  [run]: "PlanManifest_digest sha r = rbind (PlanManifest_validate r) (\<lambda>_.
     map_err SchemaEncode (digest_cbor sha DomainAptPlan (PlanManifest_to_cbor r)))"

definition PlanManifest_decode :: "bytes \<Rightarrow> schema_error + plan_manifest" where
  [run]: "PlanManifest_decode input =
     rbind (map_err SchemaCbor (decode input)) (\<lambda>v. rbind (PlanManifest_from_cbor v) (\<lambda>r.
       map_ok (\<lambda>_. r) (PlanManifest_validate r)))"

definition PlanManifest_norm :: "plan_manifest \<Rightarrow> plan_manifest" where
  "PlanManifest_norm r = r\<lparr>pm_inputs := map canon (pm_inputs r), pm_action_graph := canon (pm_action_graph r), pm_toolchain := canon (pm_toolchain r), pm_prestate_observation := canon (pm_prestate_observation r)\<rparr>"

lemma PlanManifest_reader_ok:
  "PlanManifest_reader m = Inr (r, m') \<Longrightarrow>
     bt_get m 1 = Some (Unsigned VERSION)
   \<and> bt_get m 2 = Some (Bytes (pm_plan_digest r)) \<and> length (pm_plan_digest r) = 32
   \<and> bt_get m 3 = Some (Array (pm_inputs r))
   \<and> bt_get m 4 = Some (pm_action_graph r) \<and> is_map (pm_action_graph r)
   \<and> bt_get m 5 = Some (Bytes (pm_policy_digest r)) \<and> length (pm_policy_digest r) = 32
   \<and> reads_signed (bt_get m 6) (pm_created_utc r)
   \<and> bt_get m 7 = Some (pm_toolchain r) \<and> is_map (pm_toolchain r)
   \<and> bt_get m 8 = Some (pm_prestate_observation r) \<and> is_map (pm_prestate_observation r)"
  by (clarsimp simp: PlanManifest_reader_def ok_iff bt_get_remove)

lemma PlanManifest_entries_keys:
  "fst ` set (PlanManifest_entries r) \<subseteq> set PlanManifest_known"
  "distinct (map fst (PlanManifest_entries r))"
  by (auto simp: PlanManifest_entries_def split: option.splits)

lemma PlanManifest_entries_read:
  assumes "PlanManifest_from_fields m = Inr r" and c: "canonical_fields m"
  shows "map_of (PlanManifest_entries r) = bt_get m"
  using assms(1) unfolding PlanManifest_from_fields_def
proof (rule read_message_entries [OF _ PlanManifest_entries_keys(1)])
  fix m'
  assume "PlanManifest_reader m = Inr (r, m')"
  note f = PlanManifest_reader_ok [OF this]
  from f show "\<forall>k\<in>set PlanManifest_known. map_of (PlanManifest_entries r) k = bt_get m k"
    by (auto simp: PlanManifest_entries_def dest!: canonical_signed [OF c] split: option.splits)
qed

lemma PlanManifest_read_entries:
  assumes "PlanManifest_from_fields m = Inr r'" and "map_of (PlanManifest_entries r) = bt_get m"
  shows "r' = r"
proof -
  from assms(1) obtain m' where "PlanManifest_reader m = Inr (r', m')"
    by (auto simp: PlanManifest_from_fields_def read_message_ok)
  from PlanManifest_reader_ok [OF this, folded assms(2)] show ?thesis
    by (intro plan_manifest.equality) (auto simp: PlanManifest_entries_def split: option.splits)
qed

lemma PlanManifest_read_canon:
  assumes "PlanManifest_from_fields m = Inr r"
  shows "PlanManifest_from_fields (canon_fields m) = Inr (PlanManifest_norm r)"
  using assms unfolding PlanManifest_from_fields_def
proof (rule read_message_canon [rotated])
  show "sim PlanManifest_norm PlanManifest_reader PlanManifest_reader"
    unfolding PlanManifest_reader_def
    by (rule sim_intros | rule sim_return, simp add: PlanManifest_norm_def)+
qed

interpretation plan_manifest: schema_message
  PlanManifest_entries PlanManifest_to_cbor PlanManifest_from_fields PlanManifest_from_cbor
  PlanManifest_norm "\<lambda>_. True"
  PlanManifest_validate PlanManifest_canonical_bytes PlanManifest_decode
proof
  fix r
  show "PlanManifest_validate r = Inr () \<longleftrightarrow>
     (\<exists>r'. PlanManifest_from_cbor (PlanManifest_to_cbor r) = Inr r' \<and> (\<lambda>_. True) r')"
    by (cases "PlanManifest_from_cbor (PlanManifest_to_cbor r)") (auto simp: PlanManifest_validate_def)
qed (auto simp: PlanManifest_to_cbor_def PlanManifest_from_cbor_def PlanManifest_entries_keys
    PlanManifest_canonical_bytes_def PlanManifest_decode_def rbind_ok map_ok_ok map_err_ok
    intro: PlanManifest_entries_read PlanManifest_read_entries PlanManifest_read_canon)

section \<open>LifecycleEvent\<close>

record lifecycle_event_msg =
  le_request_id :: bytes
  le_sequence :: u64
  le_previous_event_digest :: "digest option"
  le_request_digest :: digest
  le_broker_epoch :: u64
  le_transition :: u64
  le_occurred_utc :: i64
  le_detail_code :: u64
  le_detail_digest :: "digest option"

definition LifecycleEvent_entries :: "lifecycle_event_msg \<Rightarrow> field_map" where
  [run]: "LifecycleEvent_entries r =
    [(1, Unsigned VERSION),
     (2, Bytes (le_request_id r)),
     (3, Unsigned (le_sequence r)),
     (5, Bytes (le_request_digest r)),
     (6, Unsigned (le_broker_epoch r)),
     (7, Unsigned (le_transition r)),
     (8, signed_value (le_occurred_utc r)),
     (9, Unsigned (le_detail_code r))]
    @ (case le_previous_event_digest r of None \<Rightarrow> [] | Some b \<Rightarrow> [(4, Bytes b)])
    @ (case le_detail_digest r of None \<Rightarrow> [] | Some b \<Rightarrow> [(10, Bytes b)])"

definition LifecycleEvent_to_cbor :: "lifecycle_event_msg \<Rightarrow> cbor_value" where
  [run]: "LifecycleEvent_to_cbor r = CMap (map ukey (LifecycleEvent_entries r))"

definition LifecycleEvent_reader :: "lifecycle_event_msg reader" where
  [run]: "LifecycleEvent_reader =
    r_bind version (\<lambda>_.
    r_bind (id_field 2 16 RequestId_try_from) (\<lambda>request_id.
    r_bind (required_unsigned 3) (\<lambda>sequence.
    r_bind (optional_digest 4) (\<lambda>previous_event_digest.
    r_bind (digest_field 5) (\<lambda>request_digest.
    r_bind (required_unsigned 6) (\<lambda>broker_epoch.
    r_bind (required_unsigned 7) (\<lambda>transition.
    r_bind (required_signed 8) (\<lambda>occurred_utc.
    r_bind (required_unsigned 9) (\<lambda>detail_code.
    r_bind (optional_digest 10) (\<lambda>detail_digest.
    r_return \<lparr>
      le_request_id = request_id, le_sequence = sequence,
      le_previous_event_digest = previous_event_digest, le_request_digest = request_digest,
      le_broker_epoch = broker_epoch, le_transition = transition,
      le_occurred_utc = occurred_utc, le_detail_code = detail_code,
      le_detail_digest = detail_digest\<rparr>))))))))))"

abbreviation LifecycleEvent_known :: "u64 list" where
  "LifecycleEvent_known \<equiv> [1, 2, 3, 4, 5, 6, 7, 8, 9, 10]"

definition LifecycleEvent_from_fields :: "field_map \<Rightarrow> schema_error + lifecycle_event_msg" where
  [run]: "LifecycleEvent_from_fields = read_message LifecycleEvent_known LifecycleEvent_reader"

definition LifecycleEvent_from_cbor :: "cbor_value \<Rightarrow> schema_error + lifecycle_event_msg" where
  [run]: "LifecycleEvent_from_cbor value = rbind (cbor_fields value) LifecycleEvent_from_fields"

definition LifecycleEvent_validate :: "lifecycle_event_msg \<Rightarrow> schema_error + unit" where
  [run]: "LifecycleEvent_validate r = rbind (LifecycleEvent_from_cbor (LifecycleEvent_to_cbor r)) (\<lambda>decoded.
     if le_sequence decoded = 0 \<and> le_previous_event_digest decoded \<noteq> None then Inl (InvalidField 4)
     else if le_sequence decoded \<noteq> 0 \<and> le_previous_event_digest decoded = None then Inl (MissingField 4)
     else Inr ())"

definition LifecycleEvent_valid :: "lifecycle_event_msg \<Rightarrow> bool" where
  "LifecycleEvent_valid r \<longleftrightarrow> (le_sequence r = 0 \<longleftrightarrow> le_previous_event_digest r = None)"

definition LifecycleEvent_canonical_bytes :: "lifecycle_event_msg \<Rightarrow> schema_error + bytes" where
  [run]: "LifecycleEvent_canonical_bytes r =
     rbind (LifecycleEvent_validate r) (\<lambda>_. map_err SchemaEncode (encode (LifecycleEvent_to_cbor r)))"

definition LifecycleEvent_decode :: "bytes \<Rightarrow> schema_error + lifecycle_event_msg" where
  [run]: "LifecycleEvent_decode input =
     rbind (map_err SchemaCbor (decode input)) (\<lambda>v. rbind (LifecycleEvent_from_cbor v) (\<lambda>r.
       map_ok (\<lambda>_. r) (LifecycleEvent_validate r)))"

lemma LifecycleEvent_reader_ok:
  "LifecycleEvent_reader m = Inr (r, m') \<Longrightarrow>
     bt_get m 1 = Some (Unsigned VERSION)
   \<and> bt_get m 2 = Some (Bytes (le_request_id r)) \<and> length (le_request_id r) = 16
   \<and> bt_get m 3 = Some (Unsigned (le_sequence r))
   \<and> bt_get m 4 = map_option Bytes (le_previous_event_digest r)
   \<and> (\<forall>b. le_previous_event_digest r = Some b \<longrightarrow> length b = 32)
   \<and> bt_get m 5 = Some (Bytes (le_request_digest r)) \<and> length (le_request_digest r) = 32
   \<and> bt_get m 6 = Some (Unsigned (le_broker_epoch r))
   \<and> bt_get m 7 = Some (Unsigned (le_transition r))
   \<and> reads_signed (bt_get m 8) (le_occurred_utc r)
   \<and> bt_get m 9 = Some (Unsigned (le_detail_code r))
   \<and> bt_get m 10 = map_option Bytes (le_detail_digest r)
   \<and> (\<forall>b. le_detail_digest r = Some b \<longrightarrow> length b = 32)"
  by (clarsimp simp: LifecycleEvent_reader_def ok_iff bt_get_remove)

lemma LifecycleEvent_entries_keys:
  "fst ` set (LifecycleEvent_entries r) \<subseteq> set LifecycleEvent_known"
  "distinct (map fst (LifecycleEvent_entries r))"
  by (auto simp: LifecycleEvent_entries_def split: option.splits)

lemma LifecycleEvent_entries_read:
  assumes "LifecycleEvent_from_fields m = Inr r" and c: "canonical_fields m"
  shows "map_of (LifecycleEvent_entries r) = bt_get m"
  using assms(1) unfolding LifecycleEvent_from_fields_def
proof (rule read_message_entries [OF _ LifecycleEvent_entries_keys(1)])
  fix m'
  assume "LifecycleEvent_reader m = Inr (r, m')"
  note f = LifecycleEvent_reader_ok [OF this]
  from f show "\<forall>k\<in>set LifecycleEvent_known. map_of (LifecycleEvent_entries r) k = bt_get m k"
    by (auto simp: LifecycleEvent_entries_def dest!: canonical_signed [OF c] split: option.splits)
qed

lemma LifecycleEvent_read_entries:
  assumes "LifecycleEvent_from_fields m = Inr r'" and "map_of (LifecycleEvent_entries r) = bt_get m"
  shows "r' = r"
proof -
  from assms(1) obtain m' where "LifecycleEvent_reader m = Inr (r', m')"
    by (auto simp: LifecycleEvent_from_fields_def read_message_ok)
  from LifecycleEvent_reader_ok [OF this, folded assms(2)] show ?thesis
    by (intro lifecycle_event_msg.equality) (auto simp: LifecycleEvent_entries_def split: option.splits)
qed

lemma LifecycleEvent_read_canon:
  assumes "LifecycleEvent_from_fields m = Inr r"
  shows "LifecycleEvent_from_fields (canon_fields m) = Inr (r)"
  using assms unfolding LifecycleEvent_from_fields_def
proof (rule read_message_canon [rotated])
  show "sim (\<lambda>r. r) LifecycleEvent_reader LifecycleEvent_reader"
    unfolding LifecycleEvent_reader_def
    by (rule sim_intros | rule sim_return, simp)+
qed

interpretation lifecycle_event_msg: schema_message
  LifecycleEvent_entries LifecycleEvent_to_cbor LifecycleEvent_from_fields LifecycleEvent_from_cbor
  "\<lambda>r. r" LifecycleEvent_valid
  LifecycleEvent_validate LifecycleEvent_canonical_bytes LifecycleEvent_decode
proof
  fix r
  show "LifecycleEvent_validate r = Inr () \<longleftrightarrow>
     (\<exists>r'. LifecycleEvent_from_cbor (LifecycleEvent_to_cbor r) = Inr r' \<and> (LifecycleEvent_valid) r')"
    by (cases "LifecycleEvent_from_cbor (LifecycleEvent_to_cbor r)") (auto simp: LifecycleEvent_validate_def LifecycleEvent_valid_def)
qed (auto simp: LifecycleEvent_to_cbor_def LifecycleEvent_from_cbor_def LifecycleEvent_entries_keys
    LifecycleEvent_canonical_bytes_def LifecycleEvent_decode_def rbind_ok map_ok_ok map_err_ok
    intro: LifecycleEvent_entries_read LifecycleEvent_read_entries LifecycleEvent_read_canon)

section \<open>Receipt\<close>

record receipt_msg =
  rc_receipt_id :: bytes
  rc_request_id :: bytes
  rc_request_digest :: digest
  rc_plan_digest :: digest
  rc_terminal_state :: u64
  rc_authorization_evidence :: "cbor_value list"
  rc_prestate_evidence :: cbor_value
  rc_execution_evidence :: cbor_value
  rc_created_utc :: i64
  rc_completed_utc :: i64
  rc_broker_epoch :: u64

definition Receipt_entries :: "receipt_msg \<Rightarrow> field_map" where
  [run]: "Receipt_entries r =
    [(1, Unsigned VERSION),
     (2, Bytes (rc_receipt_id r)),
     (3, Bytes (rc_request_id r)),
     (4, Bytes (rc_request_digest r)),
     (5, Bytes (rc_plan_digest r)),
     (6, Unsigned (rc_terminal_state r)),
     (7, Array (rc_authorization_evidence r)),
     (8, rc_prestate_evidence r),
     (9, rc_execution_evidence r),
     (10, signed_value (rc_created_utc r)),
     (11, signed_value (rc_completed_utc r)),
     (12, Unsigned (rc_broker_epoch r))]"

definition Receipt_to_cbor :: "receipt_msg \<Rightarrow> cbor_value" where
  [run]: "Receipt_to_cbor r = CMap (map ukey (Receipt_entries r))"

definition Receipt_reader :: "receipt_msg reader" where
  [run]: "Receipt_reader =
    r_bind version (\<lambda>_.
    r_bind (id_field 2 16 ReceiptId_try_from) (\<lambda>receipt_id.
    r_bind (id_field 3 16 RequestId_try_from) (\<lambda>request_id.
    r_bind (digest_field 4) (\<lambda>request_digest.
    r_bind (digest_field 5) (\<lambda>plan_digest.
    r_bind (required_unsigned 6) (\<lambda>terminal_state.
    r_bind (required_array 7) (\<lambda>authorization_evidence.
    r_bind (required_map 8) (\<lambda>prestate_evidence.
    r_bind (required_map 9) (\<lambda>execution_evidence.
    r_bind (required_signed 10) (\<lambda>created_utc.
    r_bind (required_signed 11) (\<lambda>completed_utc.
    r_bind (required_unsigned 12) (\<lambda>broker_epoch.
    r_return \<lparr>
      rc_receipt_id = receipt_id, rc_request_id = request_id,
      rc_request_digest = request_digest, rc_plan_digest = plan_digest,
      rc_terminal_state = terminal_state,
      rc_authorization_evidence = authorization_evidence,
      rc_prestate_evidence = prestate_evidence, rc_execution_evidence = execution_evidence,
      rc_created_utc = created_utc, rc_completed_utc = completed_utc,
      rc_broker_epoch = broker_epoch\<rparr>))))))))))))"

abbreviation Receipt_known :: "u64 list" where
  "Receipt_known \<equiv> [1, 2, 3, 4, 5, 6, 7, 8, 9, 10, 11, 12]"

definition Receipt_from_fields :: "field_map \<Rightarrow> schema_error + receipt_msg" where
  [run]: "Receipt_from_fields = read_message Receipt_known Receipt_reader"

definition Receipt_from_cbor :: "cbor_value \<Rightarrow> schema_error + receipt_msg" where
  [run]: "Receipt_from_cbor value = rbind (cbor_fields value) Receipt_from_fields"

definition Receipt_validate :: "receipt_msg \<Rightarrow> schema_error + unit" where
  [run]: "Receipt_validate r = rbind (Receipt_from_cbor (Receipt_to_cbor r)) (\<lambda>decoded.
     if sint (rc_completed_utc decoded) < sint (rc_created_utc decoded) then Inl (InvalidField 11)
     else Inr ())"

definition Receipt_valid :: "receipt_msg \<Rightarrow> bool" where
  "Receipt_valid r \<longleftrightarrow> sint (rc_created_utc r) \<le> sint (rc_completed_utc r)"

definition Receipt_canonical_bytes :: "receipt_msg \<Rightarrow> schema_error + bytes" where
  [run]: "Receipt_canonical_bytes r =
     rbind (Receipt_validate r) (\<lambda>_. map_err SchemaEncode (encode (Receipt_to_cbor r)))"

definition Receipt_digest :: "hash \<Rightarrow> receipt_msg \<Rightarrow> schema_error + digest" where
  [run]: "Receipt_digest sha r = rbind (Receipt_validate r) (\<lambda>_.
     map_err SchemaEncode (digest_cbor sha DomainReceipt (Receipt_to_cbor r)))"

definition Receipt_decode :: "bytes \<Rightarrow> schema_error + receipt_msg" where
  [run]: "Receipt_decode input =
     rbind (map_err SchemaCbor (decode input)) (\<lambda>v. rbind (Receipt_from_cbor v) (\<lambda>r.
       map_ok (\<lambda>_. r) (Receipt_validate r)))"

definition Receipt_norm :: "receipt_msg \<Rightarrow> receipt_msg" where
  "Receipt_norm r = r\<lparr>rc_authorization_evidence := map canon (rc_authorization_evidence r), rc_prestate_evidence := canon (rc_prestate_evidence r), rc_execution_evidence := canon (rc_execution_evidence r)\<rparr>"

lemma Receipt_reader_ok:
  "Receipt_reader m = Inr (r, m') \<Longrightarrow>
     bt_get m 1 = Some (Unsigned VERSION)
   \<and> bt_get m 2 = Some (Bytes (rc_receipt_id r)) \<and> length (rc_receipt_id r) = 16
   \<and> bt_get m 3 = Some (Bytes (rc_request_id r)) \<and> length (rc_request_id r) = 16
   \<and> bt_get m 4 = Some (Bytes (rc_request_digest r)) \<and> length (rc_request_digest r) = 32
   \<and> bt_get m 5 = Some (Bytes (rc_plan_digest r)) \<and> length (rc_plan_digest r) = 32
   \<and> bt_get m 6 = Some (Unsigned (rc_terminal_state r))
   \<and> bt_get m 7 = Some (Array (rc_authorization_evidence r))
   \<and> bt_get m 8 = Some (rc_prestate_evidence r) \<and> is_map (rc_prestate_evidence r)
   \<and> bt_get m 9 = Some (rc_execution_evidence r) \<and> is_map (rc_execution_evidence r)
   \<and> reads_signed (bt_get m 10) (rc_created_utc r)
   \<and> reads_signed (bt_get m 11) (rc_completed_utc r)
   \<and> bt_get m 12 = Some (Unsigned (rc_broker_epoch r))"
  by (clarsimp simp: Receipt_reader_def ok_iff bt_get_remove)

lemma Receipt_entries_keys:
  "fst ` set (Receipt_entries r) \<subseteq> set Receipt_known"
  "distinct (map fst (Receipt_entries r))"
  by (auto simp: Receipt_entries_def split: option.splits)

lemma Receipt_entries_read:
  assumes "Receipt_from_fields m = Inr r" and c: "canonical_fields m"
  shows "map_of (Receipt_entries r) = bt_get m"
  using assms(1) unfolding Receipt_from_fields_def
proof (rule read_message_entries [OF _ Receipt_entries_keys(1)])
  fix m'
  assume "Receipt_reader m = Inr (r, m')"
  note f = Receipt_reader_ok [OF this]
  from f show "\<forall>k\<in>set Receipt_known. map_of (Receipt_entries r) k = bt_get m k"
    by (auto simp: Receipt_entries_def dest!: canonical_signed [OF c] split: option.splits)
qed

lemma Receipt_read_entries:
  assumes "Receipt_from_fields m = Inr r'" and "map_of (Receipt_entries r) = bt_get m"
  shows "r' = r"
proof -
  from assms(1) obtain m' where "Receipt_reader m = Inr (r', m')"
    by (auto simp: Receipt_from_fields_def read_message_ok)
  from Receipt_reader_ok [OF this, folded assms(2)] show ?thesis
    by (intro receipt_msg.equality) (auto simp: Receipt_entries_def split: option.splits)
qed

lemma Receipt_read_canon:
  assumes "Receipt_from_fields m = Inr r"
  shows "Receipt_from_fields (canon_fields m) = Inr (Receipt_norm r)"
  using assms unfolding Receipt_from_fields_def
proof (rule read_message_canon [rotated])
  show "sim Receipt_norm Receipt_reader Receipt_reader"
    unfolding Receipt_reader_def
    by (rule sim_intros | rule sim_return, simp add: Receipt_norm_def)+
qed

lemma Receipt_valid_norm: "Receipt_valid r \<Longrightarrow> Receipt_valid (Receipt_norm r)"
  by (simp add: Receipt_valid_def Receipt_norm_def)

interpretation receipt_msg: schema_message
  Receipt_entries Receipt_to_cbor Receipt_from_fields Receipt_from_cbor
  Receipt_norm Receipt_valid
  Receipt_validate Receipt_canonical_bytes Receipt_decode
proof
  fix r
  show "Receipt_validate r = Inr () \<longleftrightarrow>
     (\<exists>r'. Receipt_from_cbor (Receipt_to_cbor r) = Inr r' \<and> (Receipt_valid) r')"
    by (cases "Receipt_from_cbor (Receipt_to_cbor r)") (auto simp: Receipt_validate_def Receipt_valid_def)
qed (auto simp: Receipt_to_cbor_def Receipt_from_cbor_def Receipt_entries_keys
    Receipt_canonical_bytes_def Receipt_decode_def rbind_ok map_ok_ok map_err_ok
    intro: Receipt_entries_read Receipt_read_entries Receipt_read_canon Receipt_valid_norm)

section \<open>EnrollmentStatement\<close>

record enrollment_statement =
  es_tenant_subject_digest :: digest
  es_device_id :: bytes
  es_broker_pubkey :: digest
  es_credential_set :: "cbor_value list"
  es_pairing_nonce :: digest
  es_comparison_digest :: digest
  es_rp_id :: bytes
  es_origin :: bytes
  es_next_generation :: u64
  es_expires_utc :: i64

definition EnrollmentStatement_entries :: "enrollment_statement \<Rightarrow> field_map" where
  [run]: "EnrollmentStatement_entries r =
    [(1, Unsigned VERSION),
     (2, Bytes (es_tenant_subject_digest r)),
     (3, Bytes (es_device_id r)),
     (4, Bytes (es_broker_pubkey r)),
     (5, Array (es_credential_set r)),
     (6, Bytes (es_pairing_nonce r)),
     (7, Bytes (es_comparison_digest r)),
     (8, Text (es_rp_id r)),
     (9, Text (es_origin r)),
     (10, Unsigned (es_next_generation r)),
     (11, signed_value (es_expires_utc r))]"

definition EnrollmentStatement_to_cbor :: "enrollment_statement \<Rightarrow> cbor_value" where
  [run]: "EnrollmentStatement_to_cbor r = CMap (map ukey (EnrollmentStatement_entries r))"

definition EnrollmentStatement_reader :: "enrollment_statement reader" where
  [run]: "EnrollmentStatement_reader =
    r_bind version (\<lambda>_.
    r_bind (digest_field 2) (\<lambda>tenant_subject_digest.
    r_bind (id_field 3 16 DeviceId_try_from) (\<lambda>device_id.
    r_bind (digest_field 4) (\<lambda>broker_pubkey.
    r_bind (required_array 5) (\<lambda>credential_set.
    r_bind (digest_field 6) (\<lambda>pairing_nonce.
    r_bind (digest_field 7) (\<lambda>comparison_digest.
    r_bind (required_text 8 253) (\<lambda>rp_id.
    r_bind (r_lift (non_empty rp_id 8)) (\<lambda>rp_id.
    r_bind (required_text 9 255) (\<lambda>origin.
    r_bind (r_lift (non_empty origin 9)) (\<lambda>origin.
    r_bind (required_unsigned 10) (\<lambda>next_generation.
    r_bind (required_signed 11) (\<lambda>expires_utc.
    r_return \<lparr>
      es_tenant_subject_digest = tenant_subject_digest, es_device_id = device_id,
      es_broker_pubkey = broker_pubkey, es_credential_set = credential_set,
      es_pairing_nonce = pairing_nonce, es_comparison_digest = comparison_digest,
      es_rp_id = rp_id, es_origin = origin, es_next_generation = next_generation,
      es_expires_utc = expires_utc\<rparr>)))))))))))))"

abbreviation EnrollmentStatement_known :: "u64 list" where
  "EnrollmentStatement_known \<equiv> [1, 2, 3, 4, 5, 6, 7, 8, 9, 10, 11]"

definition EnrollmentStatement_from_fields :: "field_map \<Rightarrow> schema_error + enrollment_statement" where
  [run]: "EnrollmentStatement_from_fields = read_message EnrollmentStatement_known EnrollmentStatement_reader"

definition EnrollmentStatement_from_cbor :: "cbor_value \<Rightarrow> schema_error + enrollment_statement" where
  [run]: "EnrollmentStatement_from_cbor value = rbind (cbor_fields value) EnrollmentStatement_from_fields"

definition EnrollmentStatement_validate :: "enrollment_statement \<Rightarrow> schema_error + unit" where
  [run]: "EnrollmentStatement_validate r = map_ok (\<lambda>_. ()) (EnrollmentStatement_from_cbor (EnrollmentStatement_to_cbor r))"

definition EnrollmentStatement_canonical_bytes :: "enrollment_statement \<Rightarrow> schema_error + bytes" where
  [run]: "EnrollmentStatement_canonical_bytes r =
     rbind (EnrollmentStatement_validate r) (\<lambda>_. map_err SchemaEncode (encode (EnrollmentStatement_to_cbor r)))"

definition EnrollmentStatement_digest :: "hash \<Rightarrow> enrollment_statement \<Rightarrow> schema_error + digest" where
  [run]: "EnrollmentStatement_digest sha r = rbind (EnrollmentStatement_validate r) (\<lambda>_.
     map_err SchemaEncode (digest_cbor sha DomainEnrollment (EnrollmentStatement_to_cbor r)))"

definition EnrollmentStatement_decode :: "bytes \<Rightarrow> schema_error + enrollment_statement" where
  [run]: "EnrollmentStatement_decode input =
     rbind (map_err SchemaCbor (decode input)) (\<lambda>v. rbind (EnrollmentStatement_from_cbor v) (\<lambda>r.
       map_ok (\<lambda>_. r) (EnrollmentStatement_validate r)))"

definition EnrollmentStatement_norm :: "enrollment_statement \<Rightarrow> enrollment_statement" where
  "EnrollmentStatement_norm r = r\<lparr>es_credential_set := map canon (es_credential_set r)\<rparr>"

lemma EnrollmentStatement_reader_ok:
  "EnrollmentStatement_reader m = Inr (r, m') \<Longrightarrow>
     bt_get m 1 = Some (Unsigned VERSION)
   \<and> bt_get m 2 = Some (Bytes (es_tenant_subject_digest r)) \<and> length (es_tenant_subject_digest r) = 32
   \<and> bt_get m 3 = Some (Bytes (es_device_id r)) \<and> length (es_device_id r) = 16
   \<and> bt_get m 4 = Some (Bytes (es_broker_pubkey r)) \<and> length (es_broker_pubkey r) = 32
   \<and> bt_get m 5 = Some (Array (es_credential_set r))
   \<and> bt_get m 6 = Some (Bytes (es_pairing_nonce r)) \<and> length (es_pairing_nonce r) = 32
   \<and> bt_get m 7 = Some (Bytes (es_comparison_digest r)) \<and> length (es_comparison_digest r) = 32
   \<and> bt_get m 8 = Some (Text (es_rp_id r)) \<and> es_rp_id r \<noteq> [] \<and> length (es_rp_id r) \<le> 253
   \<and> bt_get m 9 = Some (Text (es_origin r)) \<and> es_origin r \<noteq> [] \<and> length (es_origin r) \<le> 255
   \<and> bt_get m 10 = Some (Unsigned (es_next_generation r))
   \<and> reads_signed (bt_get m 11) (es_expires_utc r)"
  by (clarsimp simp: EnrollmentStatement_reader_def ok_iff bt_get_remove)

lemma EnrollmentStatement_entries_keys:
  "fst ` set (EnrollmentStatement_entries r) \<subseteq> set EnrollmentStatement_known"
  "distinct (map fst (EnrollmentStatement_entries r))"
  by (auto simp: EnrollmentStatement_entries_def split: option.splits)

lemma EnrollmentStatement_entries_read:
  assumes "EnrollmentStatement_from_fields m = Inr r" and c: "canonical_fields m"
  shows "map_of (EnrollmentStatement_entries r) = bt_get m"
  using assms(1) unfolding EnrollmentStatement_from_fields_def
proof (rule read_message_entries [OF _ EnrollmentStatement_entries_keys(1)])
  fix m'
  assume "EnrollmentStatement_reader m = Inr (r, m')"
  note f = EnrollmentStatement_reader_ok [OF this]
  from f show "\<forall>k\<in>set EnrollmentStatement_known. map_of (EnrollmentStatement_entries r) k = bt_get m k"
    by (auto simp: EnrollmentStatement_entries_def dest!: canonical_signed [OF c] split: option.splits)
qed

lemma EnrollmentStatement_read_entries:
  assumes "EnrollmentStatement_from_fields m = Inr r'" and "map_of (EnrollmentStatement_entries r) = bt_get m"
  shows "r' = r"
proof -
  from assms(1) obtain m' where "EnrollmentStatement_reader m = Inr (r', m')"
    by (auto simp: EnrollmentStatement_from_fields_def read_message_ok)
  from EnrollmentStatement_reader_ok [OF this, folded assms(2)] show ?thesis
    by (intro enrollment_statement.equality) (auto simp: EnrollmentStatement_entries_def split: option.splits)
qed

lemma EnrollmentStatement_read_canon:
  assumes "EnrollmentStatement_from_fields m = Inr r"
  shows "EnrollmentStatement_from_fields (canon_fields m) = Inr (EnrollmentStatement_norm r)"
  using assms unfolding EnrollmentStatement_from_fields_def
proof (rule read_message_canon [rotated])
  show "sim EnrollmentStatement_norm EnrollmentStatement_reader EnrollmentStatement_reader"
    unfolding EnrollmentStatement_reader_def
    by (rule sim_intros | rule sim_return, simp add: EnrollmentStatement_norm_def)+
qed

interpretation enrollment_statement: schema_message
  EnrollmentStatement_entries EnrollmentStatement_to_cbor EnrollmentStatement_from_fields EnrollmentStatement_from_cbor
  EnrollmentStatement_norm "\<lambda>_. True"
  EnrollmentStatement_validate EnrollmentStatement_canonical_bytes EnrollmentStatement_decode
proof
  fix r
  show "EnrollmentStatement_validate r = Inr () \<longleftrightarrow>
     (\<exists>r'. EnrollmentStatement_from_cbor (EnrollmentStatement_to_cbor r) = Inr r' \<and> (\<lambda>_. True) r')"
    by (cases "EnrollmentStatement_from_cbor (EnrollmentStatement_to_cbor r)") (auto simp: EnrollmentStatement_validate_def)
qed (auto simp: EnrollmentStatement_to_cbor_def EnrollmentStatement_from_cbor_def EnrollmentStatement_entries_keys
    EnrollmentStatement_canonical_bytes_def EnrollmentStatement_decode_def rbind_ok map_ok_ok map_err_ok
    intro: EnrollmentStatement_entries_read EnrollmentStatement_read_entries EnrollmentStatement_read_canon)

section \<open>ServiceKeyset\<close>

record service_keyset =
  sk_keyset_version :: u64
  sk_issued_utc :: i64
  sk_keys :: "cbor_value list"
  sk_root_kid :: bytes
  sk_expires_utc :: i64

definition ServiceKeyset_entries :: "service_keyset \<Rightarrow> field_map" where
  [run]: "ServiceKeyset_entries r =
    [(1, Unsigned VERSION),
     (2, Unsigned (sk_keyset_version r)),
     (3, signed_value (sk_issued_utc r)),
     (4, Array (sk_keys r)),
     (5, Bytes (sk_root_kid r)),
     (6, signed_value (sk_expires_utc r))]"

definition ServiceKeyset_to_cbor :: "service_keyset \<Rightarrow> cbor_value" where
  [run]: "ServiceKeyset_to_cbor r = CMap (map ukey (ServiceKeyset_entries r))"

definition ServiceKeyset_reader :: "service_keyset reader" where
  [run]: "ServiceKeyset_reader =
    r_bind version (\<lambda>_.
    r_bind (required_unsigned 2) (\<lambda>keyset_version.
    r_bind (required_signed 3) (\<lambda>issued_utc.
    r_bind (required_array 4) (\<lambda>keys.
    r_bind (required_bounded_bytes 5 8 32) (\<lambda>root_kid.
    r_bind (required_signed 6) (\<lambda>expires_utc.
    r_return \<lparr>
      sk_keyset_version = keyset_version, sk_issued_utc = issued_utc, sk_keys = keys,
      sk_root_kid = root_kid, sk_expires_utc = expires_utc\<rparr>))))))"

abbreviation ServiceKeyset_known :: "u64 list" where
  "ServiceKeyset_known \<equiv> [1, 2, 3, 4, 5, 6]"

definition ServiceKeyset_from_fields :: "field_map \<Rightarrow> schema_error + service_keyset" where
  [run]: "ServiceKeyset_from_fields = read_message ServiceKeyset_known ServiceKeyset_reader"

definition ServiceKeyset_from_cbor :: "cbor_value \<Rightarrow> schema_error + service_keyset" where
  [run]: "ServiceKeyset_from_cbor value = rbind (cbor_fields value) ServiceKeyset_from_fields"

definition ServiceKeyset_validate :: "service_keyset \<Rightarrow> schema_error + unit" where
  [run]: "ServiceKeyset_validate r = rbind (ServiceKeyset_from_cbor (ServiceKeyset_to_cbor r)) (\<lambda>decoded.
     if sint (sk_expires_utc decoded) \<le> sint (sk_issued_utc decoded) then Inl (InvalidField 6)
     else Inr ())"

definition ServiceKeyset_valid :: "service_keyset \<Rightarrow> bool" where
  "ServiceKeyset_valid r \<longleftrightarrow> sint (sk_issued_utc r) < sint (sk_expires_utc r)"

definition ServiceKeyset_canonical_bytes :: "service_keyset \<Rightarrow> schema_error + bytes" where
  [run]: "ServiceKeyset_canonical_bytes r =
     rbind (ServiceKeyset_validate r) (\<lambda>_. map_err SchemaEncode (encode (ServiceKeyset_to_cbor r)))"

definition ServiceKeyset_digest :: "hash \<Rightarrow> service_keyset \<Rightarrow> schema_error + digest" where
  [run]: "ServiceKeyset_digest sha r = rbind (ServiceKeyset_validate r) (\<lambda>_.
     map_err SchemaEncode (digest_cbor sha DomainServiceKeyset (ServiceKeyset_to_cbor r)))"

definition ServiceKeyset_decode :: "bytes \<Rightarrow> schema_error + service_keyset" where
  [run]: "ServiceKeyset_decode input =
     rbind (map_err SchemaCbor (decode input)) (\<lambda>v. rbind (ServiceKeyset_from_cbor v) (\<lambda>r.
       map_ok (\<lambda>_. r) (ServiceKeyset_validate r)))"

definition ServiceKeyset_norm :: "service_keyset \<Rightarrow> service_keyset" where
  "ServiceKeyset_norm r = r\<lparr>sk_keys := map canon (sk_keys r)\<rparr>"

lemma ServiceKeyset_reader_ok:
  "ServiceKeyset_reader m = Inr (r, m') \<Longrightarrow>
     bt_get m 1 = Some (Unsigned VERSION)
   \<and> bt_get m 2 = Some (Unsigned (sk_keyset_version r))
   \<and> reads_signed (bt_get m 3) (sk_issued_utc r)
   \<and> bt_get m 4 = Some (Array (sk_keys r))
   \<and> bt_get m 5 = Some (Bytes (sk_root_kid r))
   \<and> 8 \<le> length (sk_root_kid r) \<and> length (sk_root_kid r) \<le> 32
   \<and> reads_signed (bt_get m 6) (sk_expires_utc r)"
  by (clarsimp simp: ServiceKeyset_reader_def ok_iff bt_get_remove)

lemma ServiceKeyset_entries_keys:
  "fst ` set (ServiceKeyset_entries r) \<subseteq> set ServiceKeyset_known"
  "distinct (map fst (ServiceKeyset_entries r))"
  by (auto simp: ServiceKeyset_entries_def split: option.splits)

lemma ServiceKeyset_entries_read:
  assumes "ServiceKeyset_from_fields m = Inr r" and c: "canonical_fields m"
  shows "map_of (ServiceKeyset_entries r) = bt_get m"
  using assms(1) unfolding ServiceKeyset_from_fields_def
proof (rule read_message_entries [OF _ ServiceKeyset_entries_keys(1)])
  fix m'
  assume "ServiceKeyset_reader m = Inr (r, m')"
  note f = ServiceKeyset_reader_ok [OF this]
  from f show "\<forall>k\<in>set ServiceKeyset_known. map_of (ServiceKeyset_entries r) k = bt_get m k"
    by (auto simp: ServiceKeyset_entries_def dest!: canonical_signed [OF c] split: option.splits)
qed

lemma ServiceKeyset_read_entries:
  assumes "ServiceKeyset_from_fields m = Inr r'" and "map_of (ServiceKeyset_entries r) = bt_get m"
  shows "r' = r"
proof -
  from assms(1) obtain m' where "ServiceKeyset_reader m = Inr (r', m')"
    by (auto simp: ServiceKeyset_from_fields_def read_message_ok)
  from ServiceKeyset_reader_ok [OF this, folded assms(2)] show ?thesis
    by (intro service_keyset.equality) (auto simp: ServiceKeyset_entries_def split: option.splits)
qed

lemma ServiceKeyset_read_canon:
  assumes "ServiceKeyset_from_fields m = Inr r"
  shows "ServiceKeyset_from_fields (canon_fields m) = Inr (ServiceKeyset_norm r)"
  using assms unfolding ServiceKeyset_from_fields_def
proof (rule read_message_canon [rotated])
  show "sim ServiceKeyset_norm ServiceKeyset_reader ServiceKeyset_reader"
    unfolding ServiceKeyset_reader_def
    by (rule sim_intros | rule sim_return, simp add: ServiceKeyset_norm_def)+
qed

lemma ServiceKeyset_valid_norm: "ServiceKeyset_valid r \<Longrightarrow> ServiceKeyset_valid (ServiceKeyset_norm r)"
  by (simp add: ServiceKeyset_valid_def ServiceKeyset_norm_def)

interpretation service_keyset: schema_message
  ServiceKeyset_entries ServiceKeyset_to_cbor ServiceKeyset_from_fields ServiceKeyset_from_cbor
  ServiceKeyset_norm ServiceKeyset_valid
  ServiceKeyset_validate ServiceKeyset_canonical_bytes ServiceKeyset_decode
proof
  fix r
  show "ServiceKeyset_validate r = Inr () \<longleftrightarrow>
     (\<exists>r'. ServiceKeyset_from_cbor (ServiceKeyset_to_cbor r) = Inr r' \<and> (ServiceKeyset_valid) r')"
    by (cases "ServiceKeyset_from_cbor (ServiceKeyset_to_cbor r)") (auto simp: ServiceKeyset_validate_def ServiceKeyset_valid_def)
qed (auto simp: ServiceKeyset_to_cbor_def ServiceKeyset_from_cbor_def ServiceKeyset_entries_keys
    ServiceKeyset_canonical_bytes_def ServiceKeyset_decode_def rbind_ok map_ok_ok map_err_ok
    intro: ServiceKeyset_entries_read ServiceKeyset_read_entries ServiceKeyset_read_canon ServiceKeyset_valid_norm)

section \<open>RevocationEvent\<close>

record revocation_event =
  rv_device_id :: bytes
  rv_credential_id :: bytes
  rv_cutoff_utc :: i64
  rv_service_event_id :: bytes
  rv_generation_at_issue :: u64
  rv_reason_code :: u64

definition RevocationEvent_entries :: "revocation_event \<Rightarrow> field_map" where
  [run]: "RevocationEvent_entries r =
    [(1, Unsigned VERSION),
     (2, Bytes (rv_device_id r)),
     (3, Bytes (rv_credential_id r)),
     (4, signed_value (rv_cutoff_utc r)),
     (5, Bytes (rv_service_event_id r)),
     (6, Unsigned (rv_generation_at_issue r)),
     (7, Unsigned (rv_reason_code r))]"

definition RevocationEvent_to_cbor :: "revocation_event \<Rightarrow> cbor_value" where
  [run]: "RevocationEvent_to_cbor r = CMap (map ukey (RevocationEvent_entries r))"

definition RevocationEvent_reader :: "revocation_event reader" where
  [run]: "RevocationEvent_reader =
    r_bind version (\<lambda>_.
    r_bind (id_field 2 16 DeviceId_try_from) (\<lambda>device_id.
    r_bind (required_bounded_bytes 3 1 1024) (\<lambda>credential_id.
    r_bind (required_signed 4) (\<lambda>cutoff_utc.
    r_bind (id_field 5 16 ServiceEventId_try_from) (\<lambda>service_event_id.
    r_bind (required_unsigned 6) (\<lambda>generation_at_issue.
    r_bind (required_unsigned 7) (\<lambda>reason_code.
    r_return \<lparr>
      rv_device_id = device_id, rv_credential_id = credential_id,
      rv_cutoff_utc = cutoff_utc, rv_service_event_id = service_event_id,
      rv_generation_at_issue = generation_at_issue, rv_reason_code = reason_code\<rparr>)))))))"

abbreviation RevocationEvent_known :: "u64 list" where
  "RevocationEvent_known \<equiv> [1, 2, 3, 4, 5, 6, 7]"

definition RevocationEvent_from_fields :: "field_map \<Rightarrow> schema_error + revocation_event" where
  [run]: "RevocationEvent_from_fields = read_message RevocationEvent_known RevocationEvent_reader"

definition RevocationEvent_from_cbor :: "cbor_value \<Rightarrow> schema_error + revocation_event" where
  [run]: "RevocationEvent_from_cbor value = rbind (cbor_fields value) RevocationEvent_from_fields"

definition RevocationEvent_validate :: "revocation_event \<Rightarrow> schema_error + unit" where
  [run]: "RevocationEvent_validate r = map_ok (\<lambda>_. ()) (RevocationEvent_from_cbor (RevocationEvent_to_cbor r))"

definition RevocationEvent_canonical_bytes :: "revocation_event \<Rightarrow> schema_error + bytes" where
  [run]: "RevocationEvent_canonical_bytes r =
     rbind (RevocationEvent_validate r) (\<lambda>_. map_err SchemaEncode (encode (RevocationEvent_to_cbor r)))"

definition RevocationEvent_digest :: "hash \<Rightarrow> revocation_event \<Rightarrow> schema_error + digest" where
  [run]: "RevocationEvent_digest sha r = rbind (RevocationEvent_validate r) (\<lambda>_.
     map_err SchemaEncode (digest_cbor sha DomainRevocation (RevocationEvent_to_cbor r)))"

definition RevocationEvent_decode :: "bytes \<Rightarrow> schema_error + revocation_event" where
  [run]: "RevocationEvent_decode input = rbind (map_err SchemaCbor (decode input)) RevocationEvent_from_cbor"

lemma RevocationEvent_reader_ok:
  "RevocationEvent_reader m = Inr (r, m') \<Longrightarrow>
     bt_get m 1 = Some (Unsigned VERSION)
   \<and> bt_get m 2 = Some (Bytes (rv_device_id r)) \<and> length (rv_device_id r) = 16
   \<and> bt_get m 3 = Some (Bytes (rv_credential_id r))
   \<and> 1 \<le> length (rv_credential_id r) \<and> length (rv_credential_id r) \<le> 1024
   \<and> reads_signed (bt_get m 4) (rv_cutoff_utc r)
   \<and> bt_get m 5 = Some (Bytes (rv_service_event_id r)) \<and> length (rv_service_event_id r) = 16
   \<and> bt_get m 6 = Some (Unsigned (rv_generation_at_issue r))
   \<and> bt_get m 7 = Some (Unsigned (rv_reason_code r))"
  by (clarsimp simp: RevocationEvent_reader_def ok_iff bt_get_remove)

lemma RevocationEvent_entries_keys:
  "fst ` set (RevocationEvent_entries r) \<subseteq> set RevocationEvent_known"
  "distinct (map fst (RevocationEvent_entries r))"
  by (auto simp: RevocationEvent_entries_def split: option.splits)

lemma RevocationEvent_entries_read:
  assumes "RevocationEvent_from_fields m = Inr r" and c: "canonical_fields m"
  shows "map_of (RevocationEvent_entries r) = bt_get m"
  using assms(1) unfolding RevocationEvent_from_fields_def
proof (rule read_message_entries [OF _ RevocationEvent_entries_keys(1)])
  fix m'
  assume "RevocationEvent_reader m = Inr (r, m')"
  note f = RevocationEvent_reader_ok [OF this]
  from f show "\<forall>k\<in>set RevocationEvent_known. map_of (RevocationEvent_entries r) k = bt_get m k"
    by (auto simp: RevocationEvent_entries_def dest!: canonical_signed [OF c] split: option.splits)
qed

lemma RevocationEvent_read_entries:
  assumes "RevocationEvent_from_fields m = Inr r'" and "map_of (RevocationEvent_entries r) = bt_get m"
  shows "r' = r"
proof -
  from assms(1) obtain m' where "RevocationEvent_reader m = Inr (r', m')"
    by (auto simp: RevocationEvent_from_fields_def read_message_ok)
  from RevocationEvent_reader_ok [OF this, folded assms(2)] show ?thesis
    by (intro revocation_event.equality) (auto simp: RevocationEvent_entries_def split: option.splits)
qed

lemma RevocationEvent_read_canon:
  assumes "RevocationEvent_from_fields m = Inr r"
  shows "RevocationEvent_from_fields (canon_fields m) = Inr (r)"
  using assms unfolding RevocationEvent_from_fields_def
proof (rule read_message_canon [rotated])
  show "sim (\<lambda>r. r) RevocationEvent_reader RevocationEvent_reader"
    unfolding RevocationEvent_reader_def
    by (rule sim_intros | rule sim_return, simp)+
qed

interpretation revocation_event: schema_message
  RevocationEvent_entries RevocationEvent_to_cbor RevocationEvent_from_fields RevocationEvent_from_cbor
  "\<lambda>r. r" "\<lambda>_. True"
  RevocationEvent_validate RevocationEvent_canonical_bytes RevocationEvent_decode
proof
  fix r
  show "RevocationEvent_validate r = Inr () \<longleftrightarrow>
     (\<exists>r'. RevocationEvent_from_cbor (RevocationEvent_to_cbor r) = Inr r' \<and> (\<lambda>_. True) r')"
    by (cases "RevocationEvent_from_cbor (RevocationEvent_to_cbor r)") (auto simp: RevocationEvent_validate_def)
qed (auto simp: RevocationEvent_to_cbor_def RevocationEvent_from_cbor_def RevocationEvent_entries_keys
    RevocationEvent_canonical_bytes_def RevocationEvent_decode_def rbind_ok map_ok_ok map_err_ok
    intro: RevocationEvent_entries_read RevocationEvent_read_entries RevocationEvent_read_canon)

end
