(* ===== verification/Cose.thy ===== *)
theory Cose
  imports Digest
begin

text \<open>
  The COSE Sign1 envelope of \<^verbatim>\<open>crates/rp-protocol/src/cose.rs\<close>. Ed25519 comes from the
  \<^verbatim>\<open>ed25519-dalek\<close> crate: \<open>ed_sign sk m\<close> and \<open>ed_verify pk m s\<close> are parameters of the two
  operations that use them. The protected header is proved to be exactly the one its key id and
  content type determine, so a decoded envelope commits to both, and the signed string is proved
  to determine header, domain and payload.
\<close>

section \<open>Errors, keys and policies\<close>

datatype cose_error =
    CoseCbor decode_error
  | CoseEncode encode_error
  | NotSign1
  | InvalidStructure
  | InvalidProtectedHeader
  | UnprotectedHeaderPresent
  | UnsupportedAlgorithm
  | InvalidKid
  | ContentTypeMismatch
  | InvalidSignatureLength
  | InvalidSignature
  | KeyRoleMismatch
  | KeyOutsideValidity

datatype key_role = RoleBroker | RoleServiceRoot | RoleDecisionProof | RoleRevocation | RoleEnrollment

record 'pk verification_key =
  vk_kid :: bytes
  vk_public_key :: 'pk
  vk_not_before_utc :: i64
  vk_not_after_utc :: i64
  vk_roles :: "key_role list"

definition validate_kid :: "bytes \<Rightarrow> cose_error + unit" where
  [run]: "validate_kid kid = (if \<not> (8 \<le> length kid \<and> length kid \<le> 32) then Inl InvalidKid else Inr ())"

definition VerificationKey_new ::
  "bytes \<Rightarrow> 'pk \<Rightarrow> i64 \<Rightarrow> i64 \<Rightarrow> key_role list \<Rightarrow> cose_error + 'pk verification_key" where
  [run]: "VerificationKey_new kid public_key not_before_utc not_after_utc roles =
     (if \<not> (8 \<le> length kid \<and> length kid \<le> 32) then Inl InvalidKid
      else if sint not_after_utc \<le> sint not_before_utc \<or> roles = [] then Inl KeyOutsideValidity
      else Inr \<lparr>vk_kid = kid, vk_public_key = public_key, vk_not_before_utc = not_before_utc,
                 vk_not_after_utc = not_after_utc, vk_roles = roles\<rparr>)"

definition VerificationKey_permits :: "'pk verification_key \<Rightarrow> key_role \<Rightarrow> i64 \<Rightarrow> cose_error + unit" where
  [run]: "VerificationKey_permits key role now_utc =
     (if role \<notin> set (vk_roles key) then Inl KeyRoleMismatch
      else if sint now_utc < sint (vk_not_before_utc key) \<or> sint (vk_not_after_utc key) \<le> sint now_utc
      then Inl KeyOutsideValidity
      else Inr ())"

record verification_policy =
  vp_content_type :: u64
  vp_domain :: domain
  vp_required_role :: key_role
  vp_now_utc :: i64

section \<open>The envelope\<close>

record cose_sign1 =
  cs_kid :: bytes
  cs_content_type :: u64
  cs_payload :: bytes
  cs_signature :: bytes
  cs_protected :: bytes

definition protected_header :: "bytes \<Rightarrow> u64 \<Rightarrow> cbor_value" where
  [run]: "protected_header kid content_type =
     CMap [(Unsigned 1, Negative (- 8)), (Unsigned 3, Unsigned content_type), (Unsigned 4, Bytes kid)]"

definition protected_bytes :: "bytes \<Rightarrow> u64 \<Rightarrow> cose_error + bytes" where
  [run]: "protected_bytes kid content_type =
     rbind (validate_kid kid) (\<lambda>_. map_err CoseEncode (encode (protected_header kid content_type)))"

text \<open>The loop of \<^verbatim>\<open>parse_protected\<close> over its three variables.\<close>

fun parse_protected_loop :: "(cbor_value \<times> cbor_value) list \<Rightarrow> i64 option \<Rightarrow> u64 option \<Rightarrow> bytes option
    \<Rightarrow> cose_error + i64 option \<times> u64 option \<times> bytes option" where
  "parse_protected_loop [] algorithm content_type kid = Inr (algorithm, content_type, kid)"
| "parse_protected_loop ((key, value) # entries) algorithm content_type kid =
     (case key of
        Unsigned key \<Rightarrow>
          (case value of
             Negative v \<Rightarrow>
               if key = 1 then parse_protected_loop entries (Some v) content_type kid
               else Inl InvalidProtectedHeader
           | Unsigned v \<Rightarrow>
               if key = 3 then parse_protected_loop entries algorithm (Some v) kid
               else Inl InvalidProtectedHeader
           | Bytes v \<Rightarrow>
               if key = 4 then parse_protected_loop entries algorithm content_type (Some v)
               else Inl InvalidProtectedHeader
           | _ \<Rightarrow> Inl InvalidProtectedHeader)
      | _ \<Rightarrow> Inl InvalidProtectedHeader)"

definition parse_protected :: "bytes \<Rightarrow> cose_error + bytes \<times> u64" where
  [run]: "parse_protected b = rbind (map_err CoseCbor (decode b)) (\<lambda>v.
     case v of
       CMap entries \<Rightarrow>
         if length entries \<noteq> 3 then Inl InvalidProtectedHeader
         else rbind (parse_protected_loop entries None None None) (\<lambda>(algorithm, content_type, kid).
           if algorithm \<noteq> Some (- 8) then Inl UnsupportedAlgorithm
           else rbind (ok_or InvalidProtectedHeader kid) (\<lambda>kid.
             rbind (validate_kid kid) (\<lambda>_.
               map_ok (\<lambda>content_type. (kid, content_type)) (ok_or InvalidProtectedHeader content_type))))
     | _ \<Rightarrow> Inl InvalidProtectedHeader)"

definition signature_value :: "bytes \<Rightarrow> domain \<Rightarrow> bytes \<Rightarrow> cbor_value" where
  [run]: "signature_value protected d payload =
     Array [Text (str ''Signature1''), Bytes protected, Bytes (label d), Bytes payload]"

definition signature_structure :: "bytes \<Rightarrow> domain \<Rightarrow> bytes \<Rightarrow> cose_error + bytes" where
  [run]: "signature_structure protected d payload =
     map_err CoseEncode (encode (signature_value protected d payload))"

definition CoseSign1_sign ::
  "('sk \<Rightarrow> bytes \<Rightarrow> bytes) \<Rightarrow> bytes \<Rightarrow> bytes \<Rightarrow> u64 \<Rightarrow> domain \<Rightarrow> 'sk \<Rightarrow> cose_error + cose_sign1" where
  [run]: "CoseSign1_sign ed_sign payload kid content_type d signing_key =
     rbind (validate_kid kid) (\<lambda>_.
     rbind (protected_bytes kid content_type) (\<lambda>protected.
     rbind (signature_structure protected d payload) (\<lambda>tbs.
       Inr \<lparr>cs_kid = kid, cs_content_type = content_type, cs_payload = payload,
            cs_signature = ed_sign signing_key tbs, cs_protected = protected\<rparr>)))"

definition CoseSign1_decode :: "bytes \<Rightarrow> cose_error + cose_sign1" where
  [run]: "CoseSign1_decode input = rbind (map_err CoseCbor (decode input)) (\<lambda>value.
     case value of
       Tag tag tagged \<Rightarrow>
         if tag \<noteq> 18 then Inl NotSign1
         else (case tagged of
           Array values \<Rightarrow>
             (case values of
                [v1, v2, v3, v4] \<Rightarrow>
                  (case v1 of
                     Bytes protected \<Rightarrow>
                       (case v2 of
                          CMap unprotected \<Rightarrow>
                            if unprotected \<noteq> [] then Inl UnprotectedHeaderPresent
                            else (case v3 of
                              Bytes payload \<Rightarrow>
                                (case v4 of
                                   Bytes signature \<Rightarrow>
                                     if length signature \<noteq> 64 then Inl InvalidSignatureLength
                                     else map_ok (\<lambda>(kid, content_type).
                                       \<lparr>cs_kid = kid, cs_content_type = content_type,
                                        cs_payload = payload, cs_signature = signature,
                                        cs_protected = protected\<rparr>) (parse_protected protected)
                                 | _ \<Rightarrow> Inl InvalidStructure)
                            | _ \<Rightarrow> Inl InvalidStructure)
                        | _ \<Rightarrow> Inl InvalidStructure)
                   | _ \<Rightarrow> Inl InvalidStructure)
              | _ \<Rightarrow> Inl InvalidStructure)
         | _ \<Rightarrow> Inl InvalidStructure)
     | _ \<Rightarrow> Inl NotSign1)"

definition sign1_value :: "bytes \<Rightarrow> bytes \<Rightarrow> bytes \<Rightarrow> cbor_value" where
  [run]: "sign1_value protected payload signature =
     Tag 18 (Array [Bytes protected, CMap [], Bytes payload, Bytes signature])"

definition CoseSign1_encode :: "cose_sign1 \<Rightarrow> cose_error + bytes" where
  [run]: "CoseSign1_encode c =
     rbind (protected_bytes (cs_kid c) (cs_content_type c)) (\<lambda>protected.
       if cs_protected c \<noteq> protected then Inl InvalidProtectedHeader
       else map_err CoseEncode (encode (sign1_value protected (cs_payload c) (cs_signature c))))"

definition CoseSign1_verify ::
  "('pk \<Rightarrow> bytes \<Rightarrow> bytes \<Rightarrow> bool) \<Rightarrow> cose_sign1 \<Rightarrow> 'pk verification_key \<Rightarrow> verification_policy
     \<Rightarrow> cose_error + unit" where
  [run]: "CoseSign1_verify ed_verify c key policy =
     (if cs_content_type c \<noteq> vp_content_type policy then Inl ContentTypeMismatch
      else if cs_kid c \<noteq> vk_kid key then Inl InvalidKid
      else rbind (VerificationKey_permits key (vp_required_role policy) (vp_now_utc policy)) (\<lambda>_.
        rbind (signature_structure (cs_protected c) (vp_domain policy) (cs_payload c)) (\<lambda>tbs.
          if ed_verify (vk_public_key key) tbs (cs_signature c) then Inr () else Inl InvalidSignature)))"

section \<open>The protected header\<close>

lemma encoded_unsigned [simp]: "encoded (Unsigned k) = write_head 0 k"
  by (simp add: encoded_def)

lemma canon_ukeys:
  assumes "sorted_wrt (<) (map fst ps)"
  shows "canon (CMap (map ukey ps)) = CMap (map (\<lambda>e. (Unsigned (fst e), canon (snd e))) ps)"
proof -
  have "sorted_wrt (<) (map (\<lambda>e. entry_order (ukey e)) ps)"
    using assms by (simp add: sorted_wrt_map write_head_less_iff)
  then have "sort_key (\<lambda>e. entry_order (ukey e)) ps = ps"
    by (rule sort_key_sorted_id)
  then show ?thesis by (simp add: sort_key_map comp_def)
qed

lemma canon_protected_header: "canon (protected_header kid ct) = protected_header kid ct"
  using canon_ukeys [of "[(1, Negative (- 8)), (3, Unsigned ct), (4, Bytes kid)]"]
  by (simp add: protected_header_def del: canon.simps(2))

lemma validate_kid_ok [ok_iff]: "validate_kid kid = Inr u \<longleftrightarrow> 8 \<le> length kid \<and> length kid \<le> 32"
  by (auto simp: validate_kid_def)

lemma length_3_cases: "length xs = 3 \<longleftrightarrow> (\<exists>a b c. xs = [a, b, c])"
  by (auto simp: numeral_3_eq_3 length_Suc_conv)

lemma parse_protected_loop_keys:
  "parse_protected_loop es a ct k = Inr (a', ct', k') \<Longrightarrow>
     \<exists>ps. es = map ukey ps \<and> set ps \<subseteq> {(1, v) |v. \<exists>x. v = Negative x} \<union> {(3, v) |v. \<exists>x. v = Unsigned x}
        \<union> {(4, v) |v. \<exists>x. v = Bytes x}"
proof (induction es arbitrary: a ct k)
  case Nil
  then show ?case by (intro exI [of _ "[]"]) simp
next
  case (Cons e es)
  obtain kv v where e: "e = (kv, v)" by (cases e)
  from Cons.prems obtain key a2 ct2 k2 where key: "kv = Unsigned key"
    and ok: "key = 1 \<and> (\<exists>x. v = Negative x) \<or> key = 3 \<and> (\<exists>x. v = Unsigned x) \<or> key = 4 \<and> (\<exists>x. v = Bytes x)"
    and rest: "parse_protected_loop es a2 ct2 k2 = Inr (a', ct', k')"
    by (auto simp: e split: cbor_value.splits if_splits)
  from Cons.IH [OF rest] obtain ps where "es = map ukey ps"
    "set ps \<subseteq> {(1, v) |v. \<exists>x. v = Negative x} \<union> {(3, v) |v. \<exists>x. v = Unsigned x} \<union> {(4, v) |v. \<exists>x. v = Bytes x}"
    by blast
  with key ok e show ?case by (intro exI [of _ "(key, v) # ps"]) auto
qed

text \<open>The parser accepts exactly the headers the encoder writes.\<close>

lemma parse_protected_iff:
  "parse_protected b = Inr (kid, ct) \<longleftrightarrow> protected_bytes kid ct = Inr b"
proof
  assume "protected_bytes kid ct = Inr b"
  then have "8 \<le> length kid \<and> length kid \<le> 32" and "encode (protected_header kid ct) = Inr b"
    by (auto simp: protected_bytes_def ok_iff)
  moreover from this(2) have "decode b = Inr (protected_header kid ct)"
    by (metis decode_encode canon_protected_header)
  ultimately show "parse_protected b = Inr (kid, ct)"
    by (simp add: parse_protected_def protected_header_def validate_kid_def)
next
  assume asm: "parse_protected b = Inr (kid, ct)"
  then obtain v where "decode b = Inr v"
    by (auto simp: parse_protected_def rbind_ok map_err_ok)
  with asm obtain es where dec: "decode b = Inr (CMap es)" and len: "length es = 3"
    and loop: "parse_protected_loop es None None None = Inr (Some (- 8), Some ct, Some kid)"
    and kid: "8 \<le> length kid \<and> length kid \<le> 32"
    by (cases v) (auto simp: parse_protected_def ok_iff split: if_splits)
  from parse_protected_loop_keys [OF loop] obtain ps where es: "es = map ukey ps"
    and ps: "set ps \<subseteq> {(1, v) |v. \<exists>x. v = Negative x} \<union> {(3, v) |v. \<exists>x. v = Unsigned x} \<union> {(4, v) |v. \<exists>x. v = Bytes x}"
    by blast
  have "sorted_wrt (<) (map fst ps)"
    using canonical_decode [OF dec] es canonical_map_ascending by blast
  moreover from len es obtain p q r where "ps = [p, q, r]"
    using length_3_cases [of ps] by auto
  ultimately have "es = [(Unsigned 1, Negative (- 8)), (Unsigned 3, Unsigned ct), (Unsigned 4, Bytes kid)]"
    using ps loop es by auto
  with dec kid encode_decode [OF dec] show "protected_bytes kid ct = Inr b"
    by (simp add: protected_bytes_def protected_header_def validate_kid_def)
qed

section \<open>The envelope as a codec\<close>

lemma CoseSign1_decode_ok:
  "CoseSign1_decode b = Inr c \<longleftrightarrow>
     decode b = Inr (sign1_value (cs_protected c) (cs_payload c) (cs_signature c))
   \<and> length (cs_signature c) = 64
   \<and> parse_protected (cs_protected c) = Inr (cs_kid c, cs_content_type c)" (is "?L = ?R")
proof
  assume L: ?L
  then obtain v where v: "decode b = Inr v"
    by (auto simp: CoseSign1_decode_def rbind_ok map_err_ok)
  note L = L [unfolded CoseSign1_decode_def v map_err_simps rbind_simps]
  from L obtain tagged where t: "v = Tag 18 tagged"
    by (cases v) (auto split: if_splits)
  from L [unfolded t, simplified] obtain vs where a: "tagged = Array vs"
    by (cases tagged) auto
  from L [unfolded t a, simplified] obtain v1 v2 v3 v4 where l: "vs = [v1, v2, v3, v4]"
    by (auto split: list.splits)
  note L = L [unfolded t a l, simplified]
  from L obtain p where p: "v1 = Bytes p" by (cases v1) auto
  from L [unfolded p, simplified] have u: "v2 = CMap []"
    by (cases v2) (auto split: if_splits)
  from L [unfolded p u, simplified] obtain m where m: "v3 = Bytes m"
    by (cases v3) auto
  from L [unfolded p u m, simplified] obtain sg where "v4 = Bytes sg"
    by (cases v4) auto
  with L [unfolded p u m, simplified] show ?R
    by (auto simp: v t a l p u m sign1_value_def map_ok_ok split: if_splits)
next
  assume ?R
  then show ?L by (simp add: CoseSign1_decode_def sign1_value_def)
qed

lemma canon_sign1_value [simp]: "canon (sign1_value p m s) = sign1_value p m s"
  by (simp add: sign1_value_def)

text \<open>The signature field is a 64-byte array in the source, so only such values are encoded.\<close>

interpretation cose: canonical_codec
  "\<lambda>c. if length (cs_signature c) = 64 then CoseSign1_encode c else Inl InvalidSignatureLength"
  CoseSign1_decode "\<lambda>c. c"
proof
  fix c b
  assume "(if length (cs_signature c) = 64 then CoseSign1_encode c else Inl InvalidSignatureLength) = Inr b"
  then show "CoseSign1_decode b = Inr c"
    using decode_encode [of "sign1_value (cs_protected c) (cs_payload c) (cs_signature c)" b]
    by (auto simp: CoseSign1_decode_ok CoseSign1_encode_def parse_protected_iff ok_iff split: if_splits)
next
  fix c b
  assume "CoseSign1_decode b = Inr c"
  then show "(if length (cs_signature c) = 64 then CoseSign1_encode c else Inl InvalidSignatureLength) = Inr b"
    using encode_decode by (auto simp: CoseSign1_decode_ok CoseSign1_encode_def parse_protected_iff)
qed

section \<open>What a signature covers\<close>

lemma canon_signature_value [simp]: "canon (signature_value p d m) = signature_value p d m"
  by (simp add: signature_value_def)

lemma label_inject: "label d = label d' \<Longrightarrow> d = d'"
  using label_cancel [of d "[]" d' "[]"] by simp

lemma signature_structure_inject:
  assumes "signature_structure p d m = Inr t" and "signature_structure p' d' m' = Inr t"
  shows "p = p' \<and> d = d' \<and> m = m'"
proof -
  have "decode t = Inr (signature_value p d m)" if "signature_structure p d m = Inr t" for p d m
    using that decode_encode [of "signature_value p d m" t]
    by (simp add: signature_structure_def map_err_ok)
  from this [OF assms(1)] this [OF assms(2)] show ?thesis
    using label_inject [of d d'] by (simp add: signature_value_def)
qed

lemma validate_kid_permits: "VerificationKey_permits key role now = Inr u \<longleftrightarrow>
    role \<in> set (vk_roles key) \<and> sint (vk_not_before_utc key) \<le> sint now \<and> sint now < sint (vk_not_after_utc key)"
  by (auto simp: VerificationKey_permits_def)

lemma sign_verify:
  assumes "CoseSign1_sign ed_sign payload kid content_type d sk = Inr c"
    and "\<And>msg. ed_verify (vk_public_key key) msg (ed_sign sk msg)"
    and "vk_kid key = kid" and "vp_content_type policy = content_type" and "vp_domain policy = d"
    and "vp_required_role policy \<in> set (vk_roles key)"
    and "sint (vk_not_before_utc key) \<le> sint (vp_now_utc policy)"
    and "sint (vp_now_utc policy) < sint (vk_not_after_utc key)"
  shows "CoseSign1_verify ed_verify c key policy = Inr ()"
  using assms by (auto simp: CoseSign1_sign_def CoseSign1_verify_def validate_kid_permits [THEN iffD2] rbind_ok
      VerificationKey_permits_def)

section \<open>Properties\<close>

text \<open>C24: the envelope has one wire form: \<^verbatim>\<open>CoseSign1::decode\<close> returns \<open>c\<close> for exactly the bytes
  \<^verbatim>\<open>encode\<close> writes for \<open>c\<close>, so an accepted envelope has tag 18, an empty unprotected header, a
  64-byte signature, and the protected header that its key id and content type determine.\<close>

theorem envelope_wire_form:
  "CoseSign1_decode b = Inr c \<longleftrightarrow> length (cs_signature c) = 64 \<and> CoseSign1_encode c = Inr b"
  using cose.dec_iff [of b c] by (auto split: if_splits)

text \<open>An envelope that was signed verifies: under a key whose public half accepts the signatures
  of the signing key, with the same key id, the role asked for and a current time inside the key's
  validity window, \<^verbatim>\<open>verify\<close> accepts what \<^verbatim>\<open>sign\<close> made for that content type and domain.\<close>

theorem signed_envelope_verifies:
  assumes "CoseSign1_sign ed_sign payload kid content_type d sk = Inr c"
    and "\<And>msg. ed_verify (vk_public_key key) msg (ed_sign sk msg)"
    and "vk_kid key = kid" and "vp_content_type policy = content_type" and "vp_domain policy = d"
    and "vp_required_role policy \<in> set (vk_roles key)"
    and "sint (vk_not_before_utc key) \<le> sint (vp_now_utc policy)"
    and "sint (vp_now_utc policy) < sint (vk_not_after_utc key)"
  shows "CoseSign1_verify ed_verify c key policy = Inr ()"
  using assms by (rule sign_verify)

theorem signed_envelope_verifies_witness:
  "let ed_sign = (\<lambda>sk msg. take 64 (sk @ msg @ replicate 64 0));
       ed_verify = (\<lambda>pk msg s. s = ed_sign pk msg);
       c = \<lparr>cs_kid = replicate 8 5, cs_content_type = 1, cs_payload = [1, 2],
         cs_signature = ed_sign [7] (case signature_structure
            (case protected_bytes (replicate 8 5) 1 of Inr p \<Rightarrow> p | Inl _ \<Rightarrow> []) DomainRequest [1, 2] of Inr t \<Rightarrow> t | Inl _ \<Rightarrow> []),
         cs_protected = (case protected_bytes (replicate 8 5) 1 of Inr p \<Rightarrow> p | Inl _ \<Rightarrow> [])\<rparr> in
   CoseSign1_verify ed_verify c
     \<lparr>vk_kid = replicate 8 5, vk_public_key = [7], vk_not_before_utc = 10, vk_not_after_utc = 20, vk_roles = [RoleBroker]\<rparr>
     \<lparr>vp_content_type = 1, vp_domain = DomainRequest, vp_required_role = RoleBroker, vp_now_utc = 15\<rparr> = Inr ()"
  unfolding Let_def
  by (rule signed_envelope_verifies [where ed_sign = "\<lambda>sk msg. take 64 (sk @ msg @ replicate 64 0)"
      and sk = "[7]" and payload = "[1, 2]" and kid = "replicate 8 5" and content_type = 1 and d = DomainRequest])
     (simp_all add: run)

text \<open>C25: what a verified signature covers. If \<^verbatim>\<open>verify\<close> accepts a decoded envelope, the public key
  accepted its signature on the \<^verbatim>\<open>Signature1\<close> structure of exactly this key id, content type and
  payload under the domain of the policy, the key has the required role, and the time lies in its
  validity window; and no other protected header, domain or payload has the same structure.\<close>

theorem verified_envelope_binds:
  assumes "CoseSign1_decode b = Inr c" and "CoseSign1_verify ed_verify c key policy = Inr ()"
  shows "\<exists>tbs. ed_verify (vk_public_key key) tbs (cs_signature c)
     \<and> protected_bytes (vk_kid key) (vp_content_type policy) = Inr (cs_protected c)
     \<and> signature_structure (cs_protected c) (vp_domain policy) (cs_payload c) = Inr tbs
     \<and> vp_required_role policy \<in> set (vk_roles key)
     \<and> sint (vk_not_before_utc key) \<le> sint (vp_now_utc policy) \<and> sint (vp_now_utc policy) < sint (vk_not_after_utc key)
     \<and> (\<forall>p d m. signature_structure p d m = Inr tbs \<longrightarrow>
          p = cs_protected c \<and> d = vp_domain policy \<and> m = cs_payload c)"
proof -
  from assms(2) obtain tbs where "cs_content_type c = vp_content_type policy" "cs_kid c = vk_kid key"
    "signature_structure (cs_protected c) (vp_domain policy) (cs_payload c) = Inr tbs"
    "ed_verify (vk_public_key key) tbs (cs_signature c)"
    "VerificationKey_permits key (vp_required_role policy) (vp_now_utc policy) = Inr ()"
    by (auto simp: CoseSign1_verify_def rbind_ok split: if_splits)
  moreover from assms(1) have "protected_bytes (cs_kid c) (cs_content_type c) = Inr (cs_protected c)"
    by (simp add: CoseSign1_decode_ok parse_protected_iff)
  ultimately show ?thesis
    using signature_structure_inject by (auto simp: validate_kid_permits)
qed

theorem verified_envelope_binds_witness:
  "\<exists>tbs. True
     \<and> protected_bytes ([5, 5, 5, 5, 5, 5, 5, 5]) 1 = Inr [0xa3, 0x01, 0x27, 0x03, 0x01, 0x04, 0x48, 5, 5, 5, 5, 5, 5, 5, 5]
     \<and> signature_structure [0xa3, 0x01, 0x27, 0x03, 0x01, 0x04, 0x48, 5, 5, 5, 5, 5, 5, 5, 5] DomainReceipt [9] = Inr tbs
     \<and> RoleBroker \<in> set [RoleBroker]
     \<and> sint (10 :: i64) \<le> sint (15 :: i64) \<and> sint (15 :: i64) < sint (20 :: i64)
     \<and> (\<forall>p d m. signature_structure p d m = Inr tbs \<longrightarrow>
          p = [0xa3, 0x01, 0x27, 0x03, 0x01, 0x04, 0x48, 5, 5, 5, 5, 5, 5, 5, 5] \<and> d = DomainReceipt \<and> m = [9])"
proof -
  let ?p = "[0xa3, 0x01, 0x27, 0x03, 0x01, 0x04, 0x48, 5, 5, 5, 5, 5, 5, 5, 5] :: bytes"
  let ?c = "\<lparr>cs_kid = [5, 5, 5, 5, 5, 5, 5, 5], cs_content_type = 1, cs_payload = [9], cs_signature = replicate 64 0, cs_protected = ?p\<rparr>"
  let ?b = "[0xd2, 0x84, 0x4f] @ ?p @ [0xa0, 0x41, 9, 0x58, 64] @ replicate 64 0"
  have d: "CoseSign1_decode ?b = Inr ?c"
    by (simp add: run)
  have v: "CoseSign1_verify (\<lambda>(pk :: bytes) msg s. True) ?c
     \<lparr>vk_kid = [5, 5, 5, 5, 5, 5, 5, 5], vk_public_key = [7], vk_not_before_utc = 10, vk_not_after_utc = 20, vk_roles = [RoleBroker]\<rparr>
     \<lparr>vp_content_type = 1, vp_domain = DomainReceipt, vp_required_role = RoleBroker, vp_now_utc = 15\<rparr> = Inr ()"
    by (simp add: run)
  from verified_envelope_binds [OF d v] show ?thesis
    by (simp only: cose_sign1.select_convs verification_key.select_convs verification_policy.select_convs)
qed

end
