(* ===== verification/Web_Authn.thy ===== *)
theory Web_Authn
  imports Schema
begin

text \<open>
  The WebAuthn boundary (\<^verbatim>\<open>crates/rp-web-authn/src/lib.rs\<close>). The reviewed verification library
  behind \<^verbatim>\<open>ReviewedWebAuthnVerifier\<close> is the parameter \<open>verifier\<close>, which either rejects an
  assertion or returns the facts it verified; the checks of \<^verbatim>\<open>verify_submission\<close> on those facts
  are modelled in the order of the source. The lemmas state what an accepted submission is bound
  to, and that the challenges of two different contexts differ unless SHA-256 collides on them.
\<close>

definition ES256_ALGORITHM :: i64 where
  [run]: "ES256_ALGORITHM = - 7"

datatype webauthn_error =
    Submission schema_error
  | ContextMismatch
  | CredentialNotPinned
  | CredentialQuarantined
  | WUnsupportedAlgorithm
  | AssertionRejected
  | CredentialMismatch
  | ClientDataTypeMismatch
  | ChallengeMismatch
  | OriginMismatch
  | RpIdMismatch
  | UserPresenceMissing
  | UserVerificationMissing

record pinned_credential =
  pc_credential_id :: bytes
  pc_generation :: u64
  pc_quarantined :: bool
  pc_cose_algorithm :: i64
  pc_previous_sign_count :: u32

definition active_for :: "pinned_credential \<Rightarrow> u64 \<Rightarrow> bool" where
  [run]: "active_for c generation \<longleftrightarrow>
     pc_generation c = generation \<and> \<not> pc_quarantined c \<and> pc_cose_algorithm c = ES256_ALGORITHM"

record library_verified_assertion =
  la_credential_id :: bytes
  la_client_data_type :: bytes
  la_challenge :: bytes
  la_origin :: bytes
  la_rp_id_hash :: bytes
  la_user_present :: bool
  la_user_verified :: bool
  la_cose_algorithm :: i64
  la_sign_count :: u32

type_synonym webauthn_verifier =
  "decision_submission \<Rightarrow> pinned_credential \<Rightarrow> library_verified_assertion option"

record verified_assertion =
  va_credential_id :: bytes
  va_decision :: decision
  va_generation :: u64
  va_sign_count :: u32
  va_counter_anomaly :: bool

text \<open>The checks on the library's result.\<close>

definition check_assertion :: "hash \<Rightarrow> approval_context \<Rightarrow> pinned_credential \<Rightarrow> decision_submission
    \<Rightarrow> library_verified_assertion \<Rightarrow> webauthn_error + verified_assertion" where
  [run]: "check_assertion sha pending_context pinned submission assertion =
     (if la_credential_id assertion \<noteq> ds_credential_id submission then Inl CredentialMismatch
      else if la_cose_algorithm assertion \<noteq> ES256_ALGORITHM then Inl WUnsupportedAlgorithm
      else if la_client_data_type assertion \<noteq> str ''webauthn.get'' then Inl ClientDataTypeMismatch
      else rbind (map_err Submission (ApprovalContext_webauthn_challenge sha pending_context)) (\<lambda>challenge.
        if la_challenge assertion \<noteq> challenge then Inl ChallengeMismatch
        else if la_origin assertion \<noteq> ac_origin pending_context then Inl OriginMismatch
        else if la_rp_id_hash assertion \<noteq> sha (ac_rp_id pending_context) then Inl RpIdMismatch
        else if \<not> la_user_present assertion then Inl UserPresenceMissing
        else if \<not> la_user_verified assertion then Inl UserVerificationMissing
        else Inr \<lparr>
          va_credential_id = la_credential_id assertion,
          va_decision = ac_decision pending_context,
          va_generation = ac_generation pending_context,
          va_sign_count = la_sign_count assertion,
          va_counter_anomaly =
            (pc_previous_sign_count pinned \<noteq> 0 \<and> la_sign_count assertion \<noteq> 0
             \<and> la_sign_count assertion \<le> pc_previous_sign_count pinned)\<rparr>))"

definition verify_submission :: "hash \<Rightarrow> webauthn_verifier \<Rightarrow> approval_context \<Rightarrow> pinned_credential list
    \<Rightarrow> decision_submission \<Rightarrow> webauthn_error + verified_assertion" where
  [run]: "verify_submission sha verifier pending_context pinned_credentials submission =
     rbind (map_err Submission (DecisionSubmission_validate submission)) (\<lambda>_.
     if ds_approval_context submission \<noteq> pending_context then Inl ContextMismatch
     else rbind (ok_or CredentialNotPinned
       (find (\<lambda>c. pc_credential_id c = ds_credential_id submission) pinned_credentials)) (\<lambda>pinned.
     if pc_quarantined pinned then Inl CredentialQuarantined
     else if pc_generation pinned \<noteq> ac_generation pending_context then Inl CredentialNotPinned
     else if pc_cose_algorithm pinned \<noteq> ES256_ALGORITHM then Inl WUnsupportedAlgorithm
     else rbind (ok_or AssertionRejected (verifier submission pinned)) (\<lambda>assertion.
       check_assertion sha pending_context pinned submission assertion)))"

section \<open>What an accepted submission is bound to\<close>

text \<open>The facts about the library's result that an accepted assertion satisfies.\<close>

definition bound_assertion :: "hash \<Rightarrow> approval_context \<Rightarrow> decision_submission \<Rightarrow> library_verified_assertion \<Rightarrow> bool" where
  "bound_assertion sha ctx submission a \<longleftrightarrow>
     la_credential_id a = ds_credential_id submission
   \<and> la_cose_algorithm a = ES256_ALGORITHM
   \<and> la_client_data_type a = str ''webauthn.get''
   \<and> ApprovalContext_webauthn_challenge sha ctx = Inr (la_challenge a)
   \<and> la_origin a = ac_origin ctx \<and> la_rp_id_hash a = sha (ac_rp_id ctx)
   \<and> la_user_present a \<and> la_user_verified a"

lemma check_assertion_ok:
  "check_assertion sha ctx pinned submission a = Inr v \<Longrightarrow>
     bound_assertion sha ctx submission a \<and> va_decision v = ac_decision ctx
   \<and> va_generation v = ac_generation ctx \<and> va_credential_id v = ds_credential_id submission"
  by (auto simp: check_assertion_def bound_assertion_def ok_iff split: if_splits)

lemma find_SomeD: "find P xs = Some x \<Longrightarrow> x \<in> set xs \<and> P x"
  by (induction xs) (auto split: if_splits)

lemma verify_submission_ok:
  assumes "verify_submission sha verifier ctx pins submission = Inr v"
  shows "ds_approval_context submission = ctx \<and> DecisionSubmission_validate submission = Inr ()
    \<and> va_decision v = ac_decision ctx \<and> va_generation v = ac_generation ctx
    \<and> va_credential_id v = ds_credential_id submission
    \<and> (\<exists>pinned\<in>set pins. pc_credential_id pinned = ds_credential_id submission
        \<and> active_for pinned (ac_generation ctx)
        \<and> (\<exists>a. verifier submission pinned = Some a \<and> bound_assertion sha ctx submission a))"
proof -
  from assms obtain pinned a where submission: "ds_approval_context submission = ctx"
    "DecisionSubmission_validate submission = Inr ()"
    and pinned: "find (\<lambda>c. pc_credential_id c = ds_credential_id submission) pins = Some pinned"
    and active: "active_for pinned (ac_generation ctx)" and a: "verifier submission pinned = Some a"
    and checked: "check_assertion sha ctx pinned submission a = Inr v"
    by (auto simp: verify_submission_def active_for_def rbind_ok map_err_ok ok_or_ok split: if_splits)
  from find_SomeD [OF pinned] active a check_assertion_ok [OF checked] submission
  show ?thesis by blast
qed

lemma canon_ApprovalContext: "ApprovalContext_canonical_bytes c = Inr b \<Longrightarrow> ApprovalContext_decode b = Inr c"
  by (rule approval_context.dec_of_enc)

text \<open>Two contexts with the same challenge are the same context.\<close>

lemma challenge_inject:
  assumes "ApprovalContext_webauthn_challenge sha c = Inr h"
    and "ApprovalContext_webauthn_challenge sha c' = Inr h"
    and "no_collision sha (preimage DomainWebAuthnChallenge (ApprovalContext_to_cbor c))
           (preimage DomainWebAuthnChallenge (ApprovalContext_to_cbor c'))"
  shows "c = c'"
proof -
  from assms(1,2) have v: "ApprovalContext_validate c = Inr ()" "ApprovalContext_validate c' = Inr ()"
    and d: "digest_cbor sha DomainWebAuthnChallenge (ApprovalContext_to_cbor c) = Inr h"
      "digest_cbor sha DomainWebAuthnChallenge (ApprovalContext_to_cbor c') = Inr h"
    by (auto simp: ApprovalContext_webauthn_challenge_def rbind_ok map_err_ok)
  from d obtain e e' where e: "encode (ApprovalContext_to_cbor c) = Inr e"
    "encode (ApprovalContext_to_cbor c') = Inr e'" by (auto simp: digest_cbor_ok)
  from digest_cbor_binding [OF d assms(3)] e have "e = e'"
    using cbor.enc_eq_iff by blast
  with v e have "ApprovalContext_canonical_bytes c = Inr e" "ApprovalContext_canonical_bytes c' = Inr e"
    by (simp_all add: ApprovalContext_canonical_bytes_def)
  from canon_ApprovalContext [OF this(1)] canon_ApprovalContext [OF this(2)] show ?thesis by simp
qed

section \<open>Properties\<close>

text \<open>C26: an accepted submission carries the broker's own pending context, names a credential that is
  pinned to the live generation, not quarantined and of algorithm ES256, and the reviewed library
  verified for it an assertion of type \<^verbatim>\<open>webauthn.get\<close> by that credential, with user presence and user
  verification, over the challenge of exactly this context, at its origin and for its RP id. The
  decision it returns is the decision of the context.\<close>

theorem accepted_submission_is_bound:
  assumes "verify_submission sha verifier ctx pins submission = Inr v"
  shows "ds_approval_context submission = ctx \<and> va_decision v = ac_decision ctx
     \<and> va_generation v = ac_generation ctx \<and> va_credential_id v = ds_credential_id submission
     \<and> (\<exists>pinned a. pinned \<in> set pins \<and> pc_credential_id pinned = ds_credential_id submission
        \<and> pc_generation pinned = ac_generation ctx \<and> \<not> pc_quarantined pinned \<and> pc_cose_algorithm pinned = - 7
        \<and> verifier submission pinned = Some a
        \<and> la_credential_id a = ds_credential_id submission \<and> la_cose_algorithm a = - 7
        \<and> la_client_data_type a = str ''webauthn.get''
        \<and> ApprovalContext_webauthn_challenge sha ctx = Inr (la_challenge a)
        \<and> la_origin a = ac_origin ctx \<and> la_rp_id_hash a = sha (ac_rp_id ctx)
        \<and> la_user_present a \<and> la_user_verified a)"
  using verify_submission_ok [OF assms] unfolding bound_assertion_def active_for_def ES256_ALGORITHM_def by blast

theorem accepted_submission_is_bound_witness:
  "let sha = (\<lambda>b. take 32 (b @ replicate 32 0));
       ctx = \<lparr>ac_request_id = replicate 16 1, ac_device_id = replicate 16 2, ac_broker_epoch = 0, ac_request_digest = replicate 32 3,
         ac_generation = 4, ac_nonce = replicate 32 5, ac_rp_id = str ''a'', ac_origin = str ''b'', ac_decision = Deny, ac_expires_utc = 9\<rparr>;
       submission = \<lparr>ds_approval_context = ctx, ds_credential_id = [6], ds_authenticator_data = [7], ds_client_data_json = [8],
         ds_signature = [9], ds_user_handle = None\<rparr>;
       pins = [\<lparr>pc_credential_id = [6], pc_generation = 4, pc_quarantined = False, pc_cose_algorithm = - 7, pc_previous_sign_count = 0\<rparr>];
       verifier = (\<lambda>s p. Some \<lparr>la_credential_id = [6], la_client_data_type = str ''webauthn.get'',
         la_challenge = sha (preimage DomainWebAuthnChallenge (ApprovalContext_to_cbor ctx)), la_origin = str ''b'',
         la_rp_id_hash = sha (str ''a''), la_user_present = True, la_user_verified = True, la_cose_algorithm = - 7, la_sign_count = 2\<rparr>) in
   (\<exists>v. verify_submission sha verifier ctx pins submission = Inr v) \<and> ds_approval_context submission = ctx"
  (is "let sha = ?sha; ctx = ?ctx; submission = ?submission ctx; pins = ?pins; verifier = ?verifier sha ctx in _ sha ctx submission pins verifier")
proof -
  have "\<exists>v. verify_submission ?sha (?verifier ?sha ?ctx) ?ctx ?pins (?submission ?ctx) = Inr v"
    by (simp add: run)
  then obtain v where v: "verify_submission ?sha (?verifier ?sha ?ctx) ?ctx ?pins (?submission ?ctx) = Inr v" by blast
  have "ds_approval_context (?submission ?ctx) = ?ctx"
    by (rule accepted_submission_is_bound [OF v, THEN conjunct1])
  with v show ?thesis unfolding Let_def by blast
qed

text \<open>A WebAuthn challenge stands for one approval context: if two contexts have the same
  challenge, they agree in every field, the decision included, unless SHA-256 collides on the two
  hashed strings. An assertion made for a denial is never one for an approval.\<close>

theorem challenge_binds_context:
  assumes "ApprovalContext_webauthn_challenge sha c = Inr h"
    and "ApprovalContext_webauthn_challenge sha c' = Inr h"
    and "no_collision sha (preimage DomainWebAuthnChallenge (ApprovalContext_to_cbor c))
           (preimage DomainWebAuthnChallenge (ApprovalContext_to_cbor c'))"
  shows "c = c'"
  using assms by (rule challenge_inject)

theorem challenge_binds_context_witness:
  "let c = \<lparr>ac_request_id = replicate 16 1, ac_device_id = replicate 16 2, ac_broker_epoch = 0, ac_request_digest = replicate 32 3,
         ac_generation = 4, ac_nonce = replicate 32 5, ac_rp_id = str ''a'', ac_origin = str ''b'', ac_decision = Deny, ac_expires_utc = 9\<rparr> in
   (\<exists>h. ApprovalContext_webauthn_challenge (\<lambda>b. b) c = Inr h) \<and> c = c"
proof -
  let ?c = "\<lparr>ac_request_id = replicate 16 1, ac_device_id = replicate 16 2, ac_broker_epoch = 0, ac_request_digest = replicate 32 3,
         ac_generation = 4, ac_nonce = replicate 32 5, ac_rp_id = str ''a'', ac_origin = str ''b'', ac_decision = Deny, ac_expires_utc = 9\<rparr>"
  have "\<exists>h. ApprovalContext_webauthn_challenge (\<lambda>b. b) ?c = Inr h"
    by (simp add: run)
  then obtain h where h: "ApprovalContext_webauthn_challenge (\<lambda>b. b) ?c = Inr h" by blast
  have "?c = ?c" by (rule challenge_binds_context [OF h h]) (simp add: no_collision_def)
  with h show ?thesis unfolding Let_def by blast
qed

end
