(* ===== verification/Intake.thy ===== *)
theory Intake
  imports Web_Authn Ordered_Map
begin

text \<open>
  What a request brings into the broker (\<^verbatim>\<open>crates/rp-broker-core/src/lib.rs\<close>): the typed
  identifiers and their parsers, the package policy, the lifecycle states with the graph of
  permitted edges, the broker's errors, and the planner seam. \<^verbatim>\<open>String\<close> is ordered bytewise in
  Rust, which makes a package name a \<^verbatim>\<open>BTreeMap\<close> key; the base64 engine of the \<^verbatim>\<open>base64\<close> crate
  is a parameter where it is used.
\<close>

section \<open>Identifiers\<close>

datatype requester_uid = RequesterUid (as_u32: u32)

datatype public_id = PublicId (public_id_str: bytes)

datatype operation_key = OperationKey (operation_key_str: bytes)

datatype package_name = PackageName (package_name_str: bytes)

datatype intake_error = InvalidPublicId | InvalidOperationKey | InvalidPackageName

instantiation package_name :: linorder
begin

definition less_eq_package_name :: "package_name \<Rightarrow> package_name \<Rightarrow> bool" where
  [run]: "less_eq_package_name p q \<longleftrightarrow> package_name_str p \<le> package_name_str q"

definition less_package_name :: "package_name \<Rightarrow> package_name \<Rightarrow> bool" where
  [run]: "less_package_name p q \<longleftrightarrow> package_name_str p < package_name_str q"

instance
  by standard (auto simp: less_eq_package_name_def less_package_name_def package_name.expand)

end

definition is_base64url :: "u8 \<Rightarrow> bool" where
  [run]: "is_base64url b \<longleftrightarrow> is_ascii_alphanumeric b \<or> b \<in> set (str ''_-'')"

definition is_package_character :: "u8 \<Rightarrow> bool" where
  [run]: "is_package_character b \<longleftrightarrow> is_ascii_lowercase b \<or> is_ascii_digit b \<or> b \<in> set (str ''+.-'')"

definition PublicId_parse :: "bytes \<Rightarrow> intake_error + public_id" where
  [run]: "PublicId_parse value =
     (if length value \<noteq> 22 \<or> \<not> list_all is_base64url value then Inl InvalidPublicId
      else Inr (PublicId value))"

definition OperationKey_parse :: "bytes \<Rightarrow> intake_error + operation_key" where
  [run]: "OperationKey_parse value =
     (if \<not> (16 \<le> length value \<and> length value \<le> 128) \<or> \<not> list_all is_base64url value
      then Inl InvalidOperationKey
      else Inr (OperationKey value))"

definition PackageName_parse :: "bytes \<Rightarrow> intake_error + package_name" where
  [run]: "PackageName_parse value =
     (if \<not> (2 \<le> length value \<and> length value \<le> 64)
       \<or> \<not> (is_ascii_lowercase (hd value) \<or> is_ascii_digit (hd value))
       \<or> \<not> list_all is_package_character (tl value)
      then Inl InvalidPackageName
      else Inr (PackageName value))"

section \<open>Policy\<close>

datatype policy_decision = Allow | PolicyDeny

type_synonym install_policy = "requester_uid \<Rightarrow> package_name \<Rightarrow> policy_decision"

record package_allowlist =
  al_packages :: "(package_name, unit) btree"

definition PackageAllowlist_new :: "package_name list \<Rightarrow> package_allowlist" where
  [run]: "PackageAllowlist_new packages =
     \<lparr>al_packages = fold (\<lambda>p. bt_insert p ()) packages bt_empty\<rparr>"

definition PackageAllowlist_evaluate :: "package_allowlist \<Rightarrow> install_policy" where
  [run]: "PackageAllowlist_evaluate allow requester_uid package_name =
     (if bt_get (al_packages allow) package_name \<noteq> None then Allow else PolicyDeny)"

section \<open>Lifecycle states\<close>

datatype request_state =
    Planning
  | Pending
  | Approved
  | Executing
  | NoChange
  | Invalid
  | Denied
  | Expired
  | Cancelled
  | Stale
  | Succeeded
  | Failed
  | RecoveryRequired

fun is_terminal :: "request_state \<Rightarrow> bool" where
  "is_terminal NoChange = True"
| "is_terminal Invalid = True"
| "is_terminal Denied = True"
| "is_terminal Expired = True"
| "is_terminal Cancelled = True"
| "is_terminal Stale = True"
| "is_terminal Succeeded = True"
| "is_terminal Failed = True"
| "is_terminal _ = False"

fun permits :: "request_state \<Rightarrow> request_state \<Rightarrow> bool" where
  "permits Planning next \<longleftrightarrow> next \<in> {Pending, NoChange, Invalid}"
| "permits Pending next \<longleftrightarrow> next \<in> {Approved, Denied, Expired, Cancelled, Stale}"
| "permits Approved next \<longleftrightarrow> next \<in> {Executing, Cancelled, Stale, Expired}"
| "permits Executing next \<longleftrightarrow> next \<in> {Succeeded, Failed, RecoveryRequired}"
| "permits RecoveryRequired next \<longleftrightarrow> next \<in> {Succeeded, Failed}"
| "permits _ next \<longleftrightarrow> False"

datatype broker_error =
    Sqlite
  | PolicyDenied
  | IdempotencyConflict
  | Busy bytes
  | LifecycleRaceLost request_state
  | InvalidTransition request_state request_state
  | NotFound
  | CorruptState
  | NumericOutOfRange
  | UnsafeFile
  | BrokerIo
  | UnsupportedSchema
  | UnsafeKey
  | ReceiptFailed
  | WebAuthnFailed webauthn_error

fun as_db :: "request_state \<Rightarrow> bytes" where
  "as_db Planning = str ''planning''"
| "as_db Pending = str ''pending''"
| "as_db Approved = str ''approved''"
| "as_db Executing = str ''executing''"
| "as_db NoChange = str ''no_change''"
| "as_db Invalid = str ''invalid''"
| "as_db Denied = str ''denied''"
| "as_db Expired = str ''expired''"
| "as_db Cancelled = str ''cancelled''"
| "as_db Stale = str ''stale''"
| "as_db Succeeded = str ''succeeded''"
| "as_db Failed = str ''failed''"
| "as_db RecoveryRequired = str ''recovery_required''"

definition from_db :: "bytes \<Rightarrow> broker_error + request_state" where
  [run]: "from_db value =
     (if value = str ''planning'' then Inr Planning
      else if value = str ''pending'' then Inr Pending
      else if value = str ''approved'' then Inr Approved
      else if value = str ''executing'' then Inr Executing
      else if value = str ''no_change'' then Inr NoChange
      else if value = str ''invalid'' then Inr Invalid
      else if value = str ''denied'' then Inr Denied
      else if value = str ''expired'' then Inr Expired
      else if value = str ''cancelled'' then Inr Cancelled
      else if value = str ''stale'' then Inr Stale
      else if value = str ''succeeded'' then Inr Succeeded
      else if value = str ''failed'' then Inr Failed
      else if value = str ''recovery_required'' then Inr RecoveryRequired
      else Inl CorruptState)"

text \<open>The states in which a request occupies the device's one active slot.\<close>

definition is_active :: "request_state \<Rightarrow> bool" where
  [run]: "is_active s \<longleftrightarrow> s \<in> {Planning, Pending, Approved, Executing, RecoveryRequired}"

section \<open>Plans\<close>

record frozen_plan =
  fp_package_name :: package_name
  fp_manifest_digest :: digest
  fp_plan_digest :: digest
  fp_action_count :: u32

datatype plan_outcome = PlanPending frozen_plan | PlanNoChange u16 | PlanInvalid u16

datatype planner_error = Canonicalization | Unavailable

definition plan_view :: "package_name \<Rightarrow> digest \<Rightarrow> u32 \<Rightarrow> cbor_value" where
  [run]: "plan_view package_name manifest_digest action_count = CMap
     [(Unsigned 1, Text (package_name_str package_name)),
      (Unsigned 2, Bytes manifest_digest),
      (Unsigned 3, Unsigned (ucast action_count))]"

definition FrozenPlan_fake :: "hash \<Rightarrow> package_name \<Rightarrow> digest \<Rightarrow> u32 \<Rightarrow> planner_error + frozen_plan" where
  [run]: "FrozenPlan_fake sha package_name manifest_digest action_count =
     rbind (map_err (\<lambda>_. Canonicalization)
       (digest_cbor sha DomainAptPlan (plan_view package_name manifest_digest action_count)))
     (\<lambda>plan_digest. Inr \<lparr>fp_package_name = package_name, fp_manifest_digest = manifest_digest,
        fp_plan_digest = plan_digest, fp_action_count = action_count\<rparr>)"

definition FrozenPlan_to_cbor :: "frozen_plan \<Rightarrow> cbor_value" where
  [run]: "FrozenPlan_to_cbor p = plan_view (fp_package_name p) (fp_manifest_digest p) (fp_action_count p)"

record fake_planner =
  fk_outcomes :: "(package_name, plan_outcome) btree"

definition FakePlanner_with_outcomes :: "(package_name \<times> plan_outcome) list \<Rightarrow> fake_planner" where
  [run]: "FakePlanner_with_outcomes outcomes =
     \<lparr>fk_outcomes = fold (\<lambda>(k, v). bt_insert k v) outcomes bt_empty\<rparr>"

definition FakePlanner_plan :: "fake_planner \<Rightarrow> package_name \<Rightarrow> planner_error + plan_outcome" where
  [run]: "FakePlanner_plan p package_name =
     Inr (case bt_get (fk_outcomes p) package_name of Some outcome \<Rightarrow> outcome | None \<Rightarrow> PlanInvalid 1)"

section \<open>The state graph\<close>

lemma terminal_absorbing: "is_terminal s \<Longrightarrow> \<not> permits s t"
  by (cases s) simp_all

lemma is_active_iff: "is_active s \<longleftrightarrow> \<not> is_terminal s"
  by (cases s) (simp_all add: is_active_def)

lemma from_as_db: "from_db (as_db s) = Inr s"
  by (cases s) (simp_all add: from_db_def str_def)

lemma as_from_db: "from_db v = Inr s \<longleftrightarrow> v = as_db s"
proof
  assume "from_db v = Inr s"
  then show "v = as_db s" by (auto simp: from_db_def split: if_splits)
qed (simp add: from_as_db)

lemma as_db_inject [simp]: "as_db s = as_db t \<longleftrightarrow> s = t"
  by (metis from_as_db sum.inject(2))

section \<open>Policy and plans\<close>

lemma fold_bt_insert_wf:
  "bt_wf m \<Longrightarrow> bt_wf (fold (\<lambda>(k, v). bt_insert k v) xs m)"
  by (induction xs arbitrary: m) (auto simp: bt_wf_insert)

lemma fold_bt_insert_get:
  "bt_get (fold (\<lambda>(k, v). bt_insert k v) xs m) = bt_get m ++ map_of (rev xs)"
  by (induction xs arbitrary: m) (auto simp: bt_get_insert map_add_def fun_eq_iff split: option.splits)

lemma allowlist_fold: "fold (\<lambda>p. bt_insert p ()) ps m = fold (\<lambda>(k, v). bt_insert k v) (map (\<lambda>p. (p, ())) ps) m"
  by (induction ps arbitrary: m) simp_all

lemma allowlist_evaluate_iff:
  "PackageAllowlist_evaluate (PackageAllowlist_new ps) uid p = Allow \<longleftrightarrow> p \<in> set ps"
proof -
  have "bt_get (al_packages (PackageAllowlist_new ps)) p = map_of (rev (map (\<lambda>p. (p, ())) ps)) p"
    by (simp add: PackageAllowlist_new_def allowlist_fold fold_bt_insert_get map_add_def split: option.splits)
  also have "\<dots> \<noteq> None \<longleftrightarrow> p \<in> set ps"
    by (force simp: map_of_eq_None_iff)
  finally show ?thesis by (simp add: PackageAllowlist_evaluate_def)
qed

end
