(* ===== verification/Lifecycle.thy ===== *)
theory Lifecycle
  imports Intake
begin

text \<open>
  The in-memory lifecycle authority \<^verbatim>\<open>LifecycleRecord\<close> of
  \<^verbatim>\<open>crates/rp-broker-core/src/lib.rs\<close>: its operations, the event hash chain and the receipt
  draft. An operation takes the record by \<^verbatim>\<open>&mut self\<close> and may change it and still return an
  error (an expired request becomes \<open>Expired\<close> while the caller gets \<open>AlreadyTerminal\<close>), so
  each returns its result together with the record after the call.

  \<open>run_op\<close> dispatches an operation, \<open>run_ops\<close> a sequence of them. The locale
  \<open>lifecycle_machine\<close> states what makes a component a lifecycle authority: its state moves
  only along the edges of an acyclic graph in which terminal states have no successor.
\<close>

section \<open>Reasons, events and receipts\<close>

datatype reason =
    ReasonCreated
  | ReasonPlannerPending
  | ReasonPlannerNoChange
  | ReasonPlannerInvalid
  | ReasonApproved
  | ReasonDenied
  | ReasonExpired
  | ReasonCancelled
  | ReasonGenerationStale
  | ReasonExecutionStarted
  | ReasonExecutionSucceeded
  | ReasonExecutionFailed
  | ReasonRecoveryRequired
  | ReasonReconciledSucceeded
  | ReasonReconciledFailed

fun reason_code :: "reason \<Rightarrow> u64" where
  "reason_code ReasonCreated = 1"
| "reason_code ReasonPlannerPending = 2"
| "reason_code ReasonPlannerNoChange = 3"
| "reason_code ReasonPlannerInvalid = 4"
| "reason_code ReasonApproved = 5"
| "reason_code ReasonDenied = 6"
| "reason_code ReasonExpired = 7"
| "reason_code ReasonCancelled = 8"
| "reason_code ReasonGenerationStale = 9"
| "reason_code ReasonExecutionStarted = 10"
| "reason_code ReasonExecutionSucceeded = 11"
| "reason_code ReasonExecutionFailed = 12"
| "reason_code ReasonRecoveryRequired = 13"
| "reason_code ReasonReconciledSucceeded = 14"
| "reason_code ReasonReconciledFailed = 15"

fun transition_reason :: "request_state \<Rightarrow> reason" where
  "transition_reason Planning = ReasonCreated"
| "transition_reason Pending = ReasonPlannerPending"
| "transition_reason NoChange = ReasonPlannerNoChange"
| "transition_reason Invalid = ReasonPlannerInvalid"
| "transition_reason Approved = ReasonApproved"
| "transition_reason Denied = ReasonDenied"
| "transition_reason Expired = ReasonExpired"
| "transition_reason Cancelled = ReasonCancelled"
| "transition_reason Stale = ReasonGenerationStale"
| "transition_reason Executing = ReasonExecutionStarted"
| "transition_reason Succeeded = ReasonExecutionSucceeded"
| "transition_reason Failed = ReasonExecutionFailed"
| "transition_reason RecoveryRequired = ReasonRecoveryRequired"

definition transition_reason_from_code :: "i64 \<Rightarrow> broker_error + reason" where
  [run]: "transition_reason_from_code value =
     (if value = 1 then Inr ReasonCreated
      else if value = 2 then Inr ReasonPlannerPending
      else if value = 3 then Inr ReasonPlannerNoChange
      else if value = 4 then Inr ReasonPlannerInvalid
      else if value = 5 then Inr ReasonApproved
      else if value = 6 then Inr ReasonDenied
      else if value = 7 then Inr ReasonExpired
      else if value = 8 then Inr ReasonCancelled
      else if value = 9 then Inr ReasonGenerationStale
      else if value = 10 then Inr ReasonExecutionStarted
      else if value = 11 then Inr ReasonExecutionSucceeded
      else if value = 12 then Inr ReasonExecutionFailed
      else if value = 13 then Inr ReasonRecoveryRequired
      else if value = 14 then Inr ReasonReconciledSucceeded
      else if value = 15 then Inr ReasonReconciledFailed
      else Inl CorruptState)"

record lifecycle_event =
  ev_sequence :: u64
  ev_previous_event_digest :: "digest option"
  ev_state :: request_state
  ev_reason :: reason
  ev_event_digest :: digest

record receipt_draft =
  rd_receipt_id :: public_id
  rd_request_id :: public_id
  rd_request_digest :: digest
  rd_plan_digest :: "digest option"
  rd_terminal_state :: request_state
  rd_final_event_digest :: digest
  rd_receipt_digest :: digest

record verified_decision =
  vd_request_digest :: digest
  vd_generation :: u64
  vd_decision :: decision
  vd_assertion_digest :: digest

record lifecycle_record =
  lr_request_id :: public_id
  lr_receipt_id :: public_id
  lr_requested_package :: package_name
  lr_request_digest :: digest
  lr_generation :: u64
  lr_deadline_mono_ns :: u64
  lr_state :: request_state
  lr_plan :: "frozen_plan option"
  lr_events :: "lifecycle_event list"
  lr_receipt :: "receipt_draft option"

datatype lifecycle_error =
    InvalidState request_state
  | DecisionContextMismatch
  | DecisionGenerationStale
  | AlreadyTerminal
  | ReceiptNotReady
  | PlannerPackageMismatch

abbreviation zero_digest :: digest where
  "zero_digest \<equiv> replicate 32 0"

definition event_preimage :: "public_id \<Rightarrow> u64 \<Rightarrow> digest option \<Rightarrow> request_state \<Rightarrow> reason \<Rightarrow> bytes" where
  [run]: "event_preimage request_id sequence previous state reason =
     str ''rootpermit/v1/local-lifecycle-event'' @ [0]
     @ public_id_str request_id
     @ u64_to_be sequence
     @ (case previous of None \<Rightarrow> zero_digest | Some d \<Rightarrow> d)
     @ as_db state
     @ u64_to_be (reason_code reason)"

definition lifecycle_event_digest ::
  "hash \<Rightarrow> public_id \<Rightarrow> u64 \<Rightarrow> digest option \<Rightarrow> request_state \<Rightarrow> reason \<Rightarrow> digest" where
  [run]: "lifecycle_event_digest sha request_id sequence previous state reason =
     sha (event_preimage request_id sequence previous state reason)"

definition receipt_digest ::
  "hash \<Rightarrow> public_id \<Rightarrow> public_id \<Rightarrow> digest \<Rightarrow> digest option \<Rightarrow> request_state \<Rightarrow> digest \<Rightarrow> digest" where
  [run]: "receipt_digest sha receipt_id request_id request_digest plan_digest state final_event_digest =
     sha (str ''rootpermit/v1/local-receipt-draft'' @ [0]
       @ public_id_str receipt_id
       @ public_id_str request_id
       @ request_digest
       @ (case plan_digest of None \<Rightarrow> zero_digest | Some d \<Rightarrow> d)
       @ as_db state
       @ final_event_digest)"

section \<open>The operations\<close>

definition append_event :: "hash \<Rightarrow> request_state \<Rightarrow> reason \<Rightarrow> lifecycle_record \<Rightarrow> lifecycle_record" where
  [run]: "append_event sha state reason r =
     (let sequence = saturating_add (if int (length (lr_events r)) < 2 ^ 64 then of_nat (length (lr_events r)) else - 1) 1;
          previous = (if lr_events r = [] then None else Some (ev_event_digest (last (lr_events r)))) in
      r\<lparr>lr_events := lr_events r @ [\<lparr>
          ev_sequence = sequence,
          ev_previous_event_digest = previous,
          ev_state = state,
          ev_reason = reason,
          ev_event_digest = lifecycle_event_digest sha (lr_request_id r) sequence previous state reason\<rparr>]\<rparr>)"

definition make_receipt :: "hash \<Rightarrow> lifecycle_record \<Rightarrow> receipt_draft" where
  [run]: "make_receipt sha r =
     (let final_event_digest = (if lr_events r = [] then zero_digest else ev_event_digest (last (lr_events r)));
          plan_digest = (case lr_plan r of
              None \<Rightarrow> None
            | Some plan \<Rightarrow> if fp_plan_digest plan \<noteq> zero_digest then Some (fp_plan_digest plan) else None) in
      \<lparr>rd_receipt_id = lr_receipt_id r,
       rd_request_id = lr_request_id r,
       rd_request_digest = lr_request_digest r,
       rd_plan_digest = plan_digest,
       rd_terminal_state = lr_state r,
       rd_final_event_digest = final_event_digest,
       rd_receipt_digest = receipt_digest sha (lr_receipt_id r) (lr_request_id r) (lr_request_digest r)
         plan_digest (lr_state r) final_event_digest\<rparr>)"

definition winner :: "hash \<Rightarrow> request_state \<Rightarrow> reason \<Rightarrow> lifecycle_record \<Rightarrow> lifecycle_record" where
  [run]: "winner sha next reason r =
     (let r = append_event sha next reason (r\<lparr>lr_state := next\<rparr>) in
      if is_terminal next then r\<lparr>lr_receipt := Some (make_receipt sha r)\<rparr> else r)"

definition state_error :: "lifecycle_record \<Rightarrow> lifecycle_error" where
  [run]: "state_error r = (if is_terminal (lr_state r) then AlreadyTerminal else InvalidState (lr_state r))"

type_synonym 'a lifecycle_result = "(lifecycle_error + 'a) \<times> lifecycle_record"

definition pre_execution_guard :: "hash \<Rightarrow> u64 \<Rightarrow> u64 \<Rightarrow> lifecycle_record \<Rightarrow> unit lifecycle_result" where
  [run]: "pre_execution_guard sha now_mono_ns active_generation r =
     (if is_terminal (lr_state r) then (Inl AlreadyTerminal, r)
      else if lr_state r \<in> {Pending, Approved} \<and> lr_deadline_mono_ns r \<le> now_mono_ns
      then (Inl AlreadyTerminal, winner sha Expired ReasonExpired r)
      else if lr_state r \<in> {Pending, Approved} \<and> active_generation \<noteq> lr_generation r
      then (Inl AlreadyTerminal, winner sha Stale ReasonGenerationStale r)
      else (Inr (), r))"

definition LifecycleRecord_new ::
  "hash \<Rightarrow> public_id \<Rightarrow> public_id \<Rightarrow> package_name \<Rightarrow> digest \<Rightarrow> u64 \<Rightarrow> u64 \<Rightarrow> lifecycle_record" where
  [run]: "LifecycleRecord_new sha request_id receipt_id requested_package request_digest generation deadline_mono_ns =
     append_event sha Planning ReasonCreated \<lparr>
       lr_request_id = request_id, lr_receipt_id = receipt_id, lr_requested_package = requested_package,
       lr_request_digest = request_digest, lr_generation = generation,
       lr_deadline_mono_ns = deadline_mono_ns, lr_state = Planning, lr_plan = None, lr_events = [],
       lr_receipt = None\<rparr>"

definition ok_state :: "lifecycle_record \<Rightarrow> request_state lifecycle_result" where
  [run]: "ok_state r = (Inr (lr_state r), r)"

definition apply_plan :: "hash \<Rightarrow> plan_outcome \<Rightarrow> lifecycle_record \<Rightarrow> request_state lifecycle_result" where
  [run]: "apply_plan sha outcome r =
     (if lr_state r \<noteq> Planning then (Inl (state_error r), r)
      else case outcome of
        PlanPending plan \<Rightarrow>
          if fp_package_name plan \<noteq> lr_requested_package r then (Inl PlannerPackageMismatch, r)
          else ok_state (winner sha Pending ReasonPlannerPending (r\<lparr>lr_plan := Some plan\<rparr>))
      | PlanNoChange _ \<Rightarrow> ok_state (winner sha NoChange ReasonPlannerNoChange r)
      | PlanInvalid _ \<Rightarrow> ok_state (winner sha Invalid ReasonPlannerInvalid r))"

definition apply_verified_decision ::
  "hash \<Rightarrow> u64 \<Rightarrow> u64 \<Rightarrow> verified_decision \<Rightarrow> lifecycle_record \<Rightarrow> request_state lifecycle_result" where
  [run]: "apply_verified_decision sha now_mono_ns active_generation decision r =
     (case pre_execution_guard sha now_mono_ns active_generation r of
        (Inl e, r) \<Rightarrow> (Inl e, r)
      | (Inr _, r) \<Rightarrow>
          if lr_state r \<noteq> Pending then (Inl (state_error r), r)
          else if vd_request_digest decision \<noteq> lr_request_digest r then (Inl DecisionContextMismatch, r)
          else if vd_generation decision \<noteq> lr_generation r then (Inl DecisionGenerationStale, r)
          else case vd_decision decision of
            Approve \<Rightarrow> ok_state (winner sha Approved ReasonApproved r)
          | Deny \<Rightarrow> ok_state (winner sha Denied ReasonDenied r))"

definition cancel :: "hash \<Rightarrow> u64 \<Rightarrow> u64 \<Rightarrow> lifecycle_record \<Rightarrow> request_state lifecycle_result" where
  [run]: "cancel sha now_mono_ns active_generation r =
     (case pre_execution_guard sha now_mono_ns active_generation r of
        (Inl e, r) \<Rightarrow> (Inl e, r)
      | (Inr _, r) \<Rightarrow>
          if lr_state r \<notin> {Pending, Approved} then (Inl (state_error r), r)
          else ok_state (winner sha Cancelled ReasonCancelled r))"

definition begin_execution :: "hash \<Rightarrow> u64 \<Rightarrow> u64 \<Rightarrow> lifecycle_record \<Rightarrow> request_state lifecycle_result" where
  [run]: "begin_execution sha now_mono_ns active_generation r =
     (case pre_execution_guard sha now_mono_ns active_generation r of
        (Inl e, r) \<Rightarrow> (Inl e, r)
      | (Inr _, r) \<Rightarrow>
          if lr_state r \<noteq> Approved then (Inl (state_error r), r)
          else ok_state (winner sha Executing ReasonExecutionStarted r))"

definition finish_execution :: "hash \<Rightarrow> bool \<Rightarrow> bool \<Rightarrow> lifecycle_record \<Rightarrow> request_state lifecycle_result" where
  [run]: "finish_execution sha succeeded recovery_required r =
     (if lr_state r \<noteq> Executing then (Inl (state_error r), r)
      else if succeeded \<and> \<not> recovery_required then ok_state (winner sha Succeeded ReasonExecutionSucceeded r)
      else if \<not> succeeded \<and> \<not> recovery_required then ok_state (winner sha Failed ReasonExecutionFailed r)
      else if \<not> succeeded \<and> recovery_required
      then ok_state (winner sha RecoveryRequired ReasonRecoveryRequired r)
      else (Inl (InvalidState (lr_state r)), r))"

definition reconcile :: "hash \<Rightarrow> bool \<Rightarrow> lifecycle_record \<Rightarrow> request_state lifecycle_result" where
  [run]: "reconcile sha succeeded r =
     (if lr_state r \<noteq> RecoveryRequired then (Inl (state_error r), r)
      else if succeeded then ok_state (winner sha Succeeded ReasonReconciledSucceeded r)
      else ok_state (winner sha Failed ReasonReconciledFailed r))"

text \<open>A call of any operation, and a sequence of calls.\<close>

datatype lifecycle_op =
    ApplyPlan plan_outcome
  | ApplyDecision u64 u64 verified_decision
  | Cancel u64 u64
  | BeginExecution u64 u64
  | FinishExecution bool bool
  | Reconcile bool

fun run_op :: "hash \<Rightarrow> lifecycle_op \<Rightarrow> lifecycle_record \<Rightarrow> request_state lifecycle_result" where
  "run_op sha (ApplyPlan outcome) r = apply_plan sha outcome r"
| "run_op sha (ApplyDecision now gen d) r = apply_verified_decision sha now gen d r"
| "run_op sha (Cancel now gen) r = cancel sha now gen r"
| "run_op sha (BeginExecution now gen) r = begin_execution sha now gen r"
| "run_op sha (FinishExecution succeeded recovery) r = finish_execution sha succeeded recovery r"
| "run_op sha (Reconcile succeeded) r = reconcile sha succeeded r"

definition run_ops :: "hash \<Rightarrow> lifecycle_op list \<Rightarrow> lifecycle_record \<Rightarrow> lifecycle_record" where
  [run]: "run_ops sha ops r = fold (\<lambda>op r. snd (run_op sha op r)) ops r"

section \<open>Lifecycle authorities\<close>

fun rank :: "request_state \<Rightarrow> nat" where
  "rank Planning = 0"
| "rank Pending = 1"
| "rank Approved = 2"
| "rank Executing = 3"
| "rank RecoveryRequired = 4"
| "rank _ = 5"

lemma permits_rank: "permits s t \<Longrightarrow> rank s < rank t"
  by (cases s) auto

lemma rank_le: "rank s \<le> 5"
  by (cases s) simp_all

locale lifecycle_machine =
  fixes good :: "'s \<Rightarrow> bool"
    and view :: "'s \<Rightarrow> request_state"
    and step :: "'op \<Rightarrow> 's \<Rightarrow> 's"
    and edge :: "request_state \<Rightarrow> request_state \<Rightarrow> bool"
  assumes edge_terminal: "edge s t \<Longrightarrow> \<not> is_terminal s"
    and edge_rank: "edge s t \<Longrightarrow> rank s < rank t"
    and good_step: "good x \<Longrightarrow> good (step op x)"
    and step_edge: "good x \<Longrightarrow> view (step op x) = view x \<or> edge (view x) (view (step op x))"
begin

lemma good_run: "good x \<Longrightarrow> good (fold step ops x)"
  by (induction ops arbitrary: x) (simp_all add: good_step)

lemma terminal_step: "good x \<Longrightarrow> is_terminal (view x) \<Longrightarrow> view (step op x) = view x"
  using step_edge edge_terminal by blast

lemma terminal_final: "good x \<Longrightarrow> is_terminal (view x) \<Longrightarrow> view (fold step ops x) = view x"
proof (induction ops arbitrary: x)
  case (Cons op ops)
  then show ?case using terminal_step [of x op] good_step [of x op] by simp
qed simp

lemma rank_step: "good x \<Longrightarrow> rank (view x) \<le> rank (view (step op x))"
  using step_edge [of x op] edge_rank [of "view x"] by force

lemma rank_run: "good x \<Longrightarrow> rank (view x) \<le> rank (view (fold step ops x))"
proof (induction ops arbitrary: x)
  case (Cons op ops)
  then show ?case using rank_step [of x op] good_step [of x op] le_trans by fastforce
qed simp

text \<open>A state left is never entered again.\<close>

lemma rank_run_less:
  assumes "good x" and "view x \<noteq> view (fold step ops x)"
  shows "rank (view x) < rank (view (fold step ops x))"
  using assms
proof (induction ops arbitrary: x)
  case (Cons op ops)
  note good = good_step [OF Cons.prems(1), of op]
  show ?case
  proof (cases "view (step op x) = view x")
    case True
    then show ?thesis using Cons.IH [OF good] Cons.prems by simp
  next
    case False
    then show ?thesis using step_edge [OF Cons.prems(1), of op] edge_rank rank_run [OF good, of ops]
      by (metis fold_simps(2) order_less_le_trans)
  qed
qed simp

lemma no_return:
  assumes "good x" and "view x \<noteq> view (fold step ops x)"
  shows "view (fold step ops' (fold step ops x)) \<noteq> view x"
  using rank_run_less [OF assms] rank_run [OF good_run [OF assms(1)], of ops ops'] by auto

lemma path: "good x \<Longrightarrow> edge\<^sup>*\<^sup>* (view x) (view (fold step ops x))"
proof (induction ops arbitrary: x)
  case (Cons op ops)
  then show ?case
    using step_edge [of x op] good_step [of x op] converse_rtranclp_into_rtranclp [of edge]
    by (metis fold_simps(2))
qed simp

end

section \<open>One transition\<close>

lemma append_event_state [simp]:
  "lr_state (append_event sha s c r) = lr_state r"
  "lr_request_id (append_event sha s c r) = lr_request_id r"
  "lr_receipt_id (append_event sha s c r) = lr_receipt_id r"
  "lr_requested_package (append_event sha s c r) = lr_requested_package r"
  "lr_request_digest (append_event sha s c r) = lr_request_digest r"
  "lr_generation (append_event sha s c r) = lr_generation r"
  "lr_deadline_mono_ns (append_event sha s c r) = lr_deadline_mono_ns r"
  "lr_plan (append_event sha s c r) = lr_plan r"
  "lr_receipt (append_event sha s c r) = lr_receipt r"
  by (simp_all add: append_event_def Let_def)

lemma winner_state [simp]:
  "lr_state (winner sha s c r) = s"
  "lr_request_id (winner sha s c r) = lr_request_id r"
  "lr_receipt_id (winner sha s c r) = lr_receipt_id r"
  "lr_requested_package (winner sha s c r) = lr_requested_package r"
  "lr_request_digest (winner sha s c r) = lr_request_digest r"
  "lr_generation (winner sha s c r) = lr_generation r"
  "lr_deadline_mono_ns (winner sha s c r) = lr_deadline_mono_ns r"
  "lr_plan (winner sha s c r) = lr_plan r"
  by (simp_all add: winner_def Let_def)

text \<open>
  Every operation either leaves the record as it is or makes one permitted transition with
  \<open>winner\<close>, on the record itself or, for a pending plan, on the record with that plan stored.
\<close>

inductive moves :: "hash \<Rightarrow> lifecycle_op \<Rightarrow> lifecycle_record \<Rightarrow> lifecycle_record \<Rightarrow> bool" for sha where
  move_stay: "moves sha op r r"
| move_plan: "lr_state r = Planning \<Longrightarrow> fp_package_name plan = lr_requested_package r \<Longrightarrow>
    moves sha (ApplyPlan (PlanPending plan)) r (winner sha Pending ReasonPlannerPending (r\<lparr>lr_plan := Some plan\<rparr>))"
| move_no_change: "lr_state r = Planning \<Longrightarrow>
    moves sha (ApplyPlan (PlanNoChange c)) r (winner sha NoChange ReasonPlannerNoChange r)"
| move_invalid: "lr_state r = Planning \<Longrightarrow>
    moves sha (ApplyPlan (PlanInvalid c)) r (winner sha Invalid ReasonPlannerInvalid r)"
| move_expired: "lr_state r \<in> {Pending, Approved} \<Longrightarrow> lr_deadline_mono_ns r \<le> now \<Longrightarrow>
    op \<in> {ApplyDecision now gen d, Cancel now gen, BeginExecution now gen} \<Longrightarrow>
    moves sha op r (winner sha Expired ReasonExpired r)"
| move_stale: "lr_state r \<in> {Pending, Approved} \<Longrightarrow> now < lr_deadline_mono_ns r \<Longrightarrow> gen \<noteq> lr_generation r \<Longrightarrow>
    op \<in> {ApplyDecision now gen d, Cancel now gen, BeginExecution now gen} \<Longrightarrow>
    moves sha op r (winner sha Stale ReasonGenerationStale r)"
| move_approve: "lr_state r = Pending \<Longrightarrow> now < lr_deadline_mono_ns r \<Longrightarrow> gen = lr_generation r \<Longrightarrow>
    vd_request_digest d = lr_request_digest r \<Longrightarrow> vd_generation d = lr_generation r \<Longrightarrow> vd_decision d = Approve \<Longrightarrow>
    moves sha (ApplyDecision now gen d) r (winner sha Approved ReasonApproved r)"
| move_deny: "lr_state r = Pending \<Longrightarrow> now < lr_deadline_mono_ns r \<Longrightarrow> gen = lr_generation r \<Longrightarrow>
    vd_request_digest d = lr_request_digest r \<Longrightarrow> vd_generation d = lr_generation r \<Longrightarrow> vd_decision d = Deny \<Longrightarrow>
    moves sha (ApplyDecision now gen d) r (winner sha Denied ReasonDenied r)"
| move_cancel: "lr_state r \<in> {Pending, Approved} \<Longrightarrow> now < lr_deadline_mono_ns r \<Longrightarrow> gen = lr_generation r \<Longrightarrow>
    moves sha (Cancel now gen) r (winner sha Cancelled ReasonCancelled r)"
| move_begin: "lr_state r = Approved \<Longrightarrow> now < lr_deadline_mono_ns r \<Longrightarrow> gen = lr_generation r \<Longrightarrow>
    moves sha (BeginExecution now gen) r (winner sha Executing ReasonExecutionStarted r)"
| move_finish: "lr_state r = Executing \<Longrightarrow>
    (next, reason) = (if recovery then (RecoveryRequired, ReasonRecoveryRequired)
      else if succeeded then (Succeeded, ReasonExecutionSucceeded) else (Failed, ReasonExecutionFailed)) \<Longrightarrow>
    \<not> (succeeded \<and> recovery) \<Longrightarrow>
    moves sha (FinishExecution succeeded recovery) r (winner sha next reason r)"
| move_reconcile: "lr_state r = RecoveryRequired \<Longrightarrow>
    (next, reason) = (if succeeded then (Succeeded, ReasonReconciledSucceeded) else (Failed, ReasonReconciledFailed)) \<Longrightarrow>
    moves sha (Reconcile succeeded) r (winner sha next reason r)"

lemma run_op_moves: "moves sha op r (snd (run_op sha op r))"
proof (cases op)
  case (ApplyPlan outcome)
  then show ?thesis
    by (cases outcome) (auto simp: apply_plan_def ok_state_def intro: moves.intros)
next
  case (ApplyDecision now gen d)
  then show ?thesis
    by (cases "vd_decision d")
       (auto simp: apply_verified_decision_def pre_execution_guard_def ok_state_def intro: moves.intros
         simp: not_le)
next
  case (Cancel now gen)
  then show ?thesis
    by (auto simp: cancel_def pre_execution_guard_def ok_state_def not_le intro: moves.intros)
next
  case (BeginExecution now gen)
  then show ?thesis
    by (auto simp: begin_execution_def pre_execution_guard_def ok_state_def not_le intro: moves.intros)
next
  case (FinishExecution succeeded recovery)
  then show ?thesis
    by (auto simp: finish_execution_def ok_state_def intro: moves.intros)
next
  case (Reconcile succeeded)
  then show ?thesis
    by (auto simp: reconcile_def ok_state_def intro: moves.intros)
qed

lemma moves_permitted: "moves sha op r r' \<Longrightarrow> r' = r \<or> permits (lr_state r) (lr_state r')"
  by (induction rule: moves.induct) (auto split: if_splits)

interpretation record_machine: lifecycle_machine "\<lambda>_. True" lr_state "\<lambda>op r. snd (run_op sha op r)" permits
proof
  show "permits s t \<Longrightarrow> \<not> is_terminal s" for s t using terminal_absorbing by blast
  show "permits s t \<Longrightarrow> rank s < rank t" for s t by (rule permits_rank)
  show "lr_state (snd (run_op sha op r)) = lr_state r \<or> permits (lr_state r) (lr_state (snd (run_op sha op r)))" for op r
    using moves_permitted [OF run_op_moves, of sha op r] by auto
qed simp

section \<open>The event chain\<close>

definition event_of :: "hash \<Rightarrow> public_id \<Rightarrow> u64 \<Rightarrow> digest option \<Rightarrow> request_state \<Rightarrow> reason \<Rightarrow> lifecycle_event" where
  "event_of sha rid n prev s c = \<lparr>ev_sequence = n, ev_previous_event_digest = prev, ev_state = s, ev_reason = c,
     ev_event_digest = lifecycle_event_digest sha rid n prev s c\<rparr>"

text \<open>\<open>chain sha rid n prev es\<close>: the events \<open>es\<close> are numbered from \<open>n + 1\<close>, the first
  links to \<open>prev\<close>, each later one to the digest of its predecessor, and every digest is the
  hash of its event.\<close>

fun chain :: "hash \<Rightarrow> public_id \<Rightarrow> nat \<Rightarrow> digest option \<Rightarrow> lifecycle_event list \<Rightarrow> bool" where
  "chain sha rid n prev [] \<longleftrightarrow> True"
| "chain sha rid n prev (e # es) \<longleftrightarrow>
     e = event_of sha rid (of_nat (Suc n)) prev (ev_state e) (ev_reason e)
   \<and> chain sha rid (Suc n) (Some (ev_event_digest e)) es"

definition last_digest :: "digest option \<Rightarrow> lifecycle_event list \<Rightarrow> digest option" where
  "last_digest prev es = (if es = [] then prev else Some (ev_event_digest (last es)))"

lemma last_digest_simps [simp]:
  "last_digest prev [] = prev"
  "last_digest prev (e # es) = last_digest (Some (ev_event_digest e)) es"
  by (simp_all add: last_digest_def)

lemma chain_append:
  "chain sha rid n prev (es @ fs) \<longleftrightarrow>
     chain sha rid n prev es \<and> chain sha rid (n + length es) (last_digest prev es) fs"
  by (induction es arbitrary: n prev) auto

lemma append_event_chain:
  assumes "chain sha (lr_request_id r) 0 None (lr_events r)" and "length (lr_events r) < 2 ^ 64 - 1"
  shows "chain sha (lr_request_id r) 0 None (lr_events (append_event sha s c r))"
proof -
  have "saturating_add (of_nat (length (lr_events r))) (1 :: u64) = of_nat (Suc (length (lr_events r)))"
    using assms(2) by (simp add: saturating_add_def unat_of_nat)
  with assms show ?thesis
    by (simp add: append_event_def Let_def chain_append event_of_def last_digest_def)
qed

text \<open>The invariant of a record.\<close>

definition history_ok :: "lifecycle_event list \<Rightarrow> bool" where
  "history_ok es \<longleftrightarrow> es \<noteq> [] \<and> ev_state (hd es) = Planning
     \<and> successively (\<lambda>a b. permits (ev_state a) (ev_state b)) es"

definition record_inv :: "hash \<Rightarrow> lifecycle_record \<Rightarrow> bool" where
  "record_inv sha r \<longleftrightarrow>
     chain sha (lr_request_id r) 0 None (lr_events r)
   \<and> history_ok (lr_events r)
   \<and> ev_state (last (lr_events r)) = lr_state r
   \<and> length (lr_events r) \<le> Suc (rank (lr_state r))
   \<and> lr_receipt r = (if is_terminal (lr_state r) then Some (make_receipt sha r) else None)
   \<and> (lr_plan r = None \<longleftrightarrow> lr_state r \<in> {Planning, NoChange, Invalid})
   \<and> (\<forall>plan. lr_plan r = Some plan \<longrightarrow> fp_package_name plan = lr_requested_package r)"

lemma events_winner:
  "lr_events (winner sha s c r) = lr_events (append_event sha s c r)"
  by (simp add: winner_def append_event_def Let_def)

lemma make_receipt_update [simp]: "make_receipt sha (r\<lparr>lr_receipt := x\<rparr>) = make_receipt sha r"
  by (simp add: make_receipt_def)

lemma receipt_winner:
  "lr_receipt (winner sha s c r) = (if is_terminal s then Some (make_receipt sha (winner sha s c r)) else lr_receipt r)"
  by (simp add: winner_def Let_def)

lemma append_event_snoc:
  "\<exists>e. lr_events (append_event sha s c r) = lr_events r @ [e] \<and> ev_state e = s"
  by (simp add: append_event_def Let_def)

lemma record_inv_winner:
  assumes inv: "record_inv sha r" and edge: "permits (lr_state r) s"
    and plan: "p = None \<longleftrightarrow> s \<in> {Planning, NoChange, Invalid}"
      "\<forall>plan. p = Some plan \<longrightarrow> fp_package_name plan = lr_requested_package r"
  shows "record_inv sha (winner sha s c (r\<lparr>lr_plan := p\<rparr>))"
proof -
  let ?r = "r\<lparr>lr_plan := p\<rparr>"
  note inv = inv [unfolded record_inv_def history_ok_def]
  have live: "\<not> is_terminal (lr_state r)" and rank: "rank (lr_state r) < rank s"
    using edge terminal_absorbing permits_rank by blast+
  have "length (lr_events ?r) < 2 ^ 64 - 1"
    using inv rank rank_le [of s] by simp
  then have chain: "chain sha (lr_request_id ?r) 0 None (lr_events (winner sha s c ?r))"
    unfolding events_winner by (intro append_event_chain) (use inv in simp_all)
  obtain e where e: "lr_events (winner sha s c ?r) = lr_events r @ [e]" "ev_state e = s"
    using append_event_snoc [of sha s c ?r] by (auto simp: events_winner)
  then have "history_ok (lr_events (winner sha s c ?r))"
    using inv edge by (auto simp: history_ok_def successively_append_iff)
  moreover have "length (lr_events (winner sha s c ?r)) \<le> Suc (rank s)"
    using inv rank e by simp
  ultimately show ?thesis
    using chain e plan live inv by (simp add: record_inv_def receipt_winner)
qed

lemma record_inv_winner_same:
  assumes "record_inv sha r" and "permits (lr_state r) s"
    and "lr_plan r = None \<longleftrightarrow> s \<in> {Planning, NoChange, Invalid}"
  shows "record_inv sha (winner sha s c r)"
  using record_inv_winner [of sha r s "lr_plan r" c] assms by (simp add: record_inv_def)

lemma record_inv_plan: "record_inv sha r \<Longrightarrow> lr_plan r = None \<longleftrightarrow> lr_state r \<in> {Planning, NoChange, Invalid}"
  by (simp add: record_inv_def)

lemma record_inv_moves: "moves sha op r r' \<Longrightarrow> record_inv sha r \<Longrightarrow> record_inv sha r'"
proof (induction rule: moves.induct)
  case (move_plan r plan)
  then show ?case by (intro record_inv_winner) auto
qed (simp | rule record_inv_winner_same, assumption,
     (force split: if_splits)?, (force simp: record_inv_plan split: if_splits)?)+

lemma record_inv_new: "record_inv sha (LifecycleRecord_new sha rid cid pkg dig gen deadline)"
  by (simp add: LifecycleRecord_new_def append_event_def record_inv_def history_ok_def event_of_def
      saturating_add_def Let_def)

lemma run_ops_Nil [simp]: "run_ops sha [] r = r"
  by (simp add: run_ops_def)

lemma run_ops_Cons [simp]: "run_ops sha (op # ops) r = run_ops sha ops (snd (run_op sha op r))"
  by (simp add: run_ops_def)

lemma run_ops_append: "run_ops sha (ops @ ops') r = run_ops sha ops' (run_ops sha ops r)"
  by (simp add: run_ops_def)

lemma record_inv_run: "record_inv sha r \<Longrightarrow> record_inv sha (run_ops sha ops r)"
  by (induction ops arbitrary: r) (auto intro: record_inv_moves run_op_moves)

lemma moves_fixed:
  "moves sha op r r' \<Longrightarrow> lr_request_id r' = lr_request_id r \<and> lr_request_digest r' = lr_request_digest r
     \<and> lr_generation r' = lr_generation r \<and> lr_deadline_mono_ns r' = lr_deadline_mono_ns r
     \<and> lr_receipt_id r' = lr_receipt_id r \<and> lr_requested_package r' = lr_requested_package r"
  by (induction rule: moves.induct) auto

lemma run_ops_fixed:
  "lr_request_id (run_ops sha ops r) = lr_request_id r
   \<and> lr_request_digest (run_ops sha ops r) = lr_request_digest r
   \<and> lr_generation (run_ops sha ops r) = lr_generation r
   \<and> lr_deadline_mono_ns (run_ops sha ops r) = lr_deadline_mono_ns r"
proof (induction ops arbitrary: r)
  case (Cons op ops)
  then show ?case using moves_fixed [OF run_op_moves, of sha op r] by simp
qed simp

text \<open>Events are only appended.\<close>

lemma winner_events: "\<exists>es. lr_events (winner sha s c r) = lr_events r @ es"
  by (simp add: events_winner append_event_def Let_def)

lemma moves_events: "moves sha op r r' \<Longrightarrow> \<exists>es. lr_events r' = lr_events r @ es"
proof (induction rule: moves.induct)
  case (move_plan r plan)
  show ?case using winner_events [of sha _ _ "r\<lparr>lr_plan := Some plan\<rparr>"] by simp
qed (simp | rule winner_events)+

lemma run_ops_events: "\<exists>es. lr_events (run_ops sha ops r) = lr_events r @ es"
proof (induction ops arbitrary: r)
  case (Cons op ops)
  then show ?case
    using moves_events [OF run_op_moves, of sha op r] by (metis append_assoc run_ops_Cons)
qed simp

section \<open>Terminal records\<close>

lemma run_op_terminal: "is_terminal (lr_state r) \<Longrightarrow> run_op sha op r = (Inl AlreadyTerminal, r)"
  by (cases op) (auto simp: apply_plan_def apply_verified_decision_def cancel_def begin_execution_def
    finish_execution_def reconcile_def pre_execution_guard_def state_error_def)

lemma run_ops_terminal: "is_terminal (lr_state r) \<Longrightarrow> run_ops sha ops r = r"
  by (induction ops) (auto simp: run_op_terminal)

lemma run_op_expired:
  assumes "lr_state r \<in> {Pending, Approved}" and "lr_deadline_mono_ns r \<le> now"
    and "op \<in> {ApplyDecision now gen d, Cancel now gen, BeginExecution now gen}"
  shows "run_op sha op r = (Inl AlreadyTerminal, winner sha Expired ReasonExpired r)"
  using assms by (auto simp: apply_verified_decision_def cancel_def begin_execution_def pre_execution_guard_def)

lemma run_op_closes:
  assumes "\<not> is_terminal (lr_state r)"
  shows "\<exists>op. is_terminal (lr_state (snd (run_op sha op r)))"
proof -
  have "\<exists>op. is_terminal (lr_state (snd (run_op sha op r)))" if "lr_state r \<in> {Pending, Approved}"
    using run_op_expired [OF that order_refl, of "Cancel (lr_deadline_mono_ns r) 0"]
    by (intro exI [of _ "Cancel (lr_deadline_mono_ns r) 0"]) simp
  moreover have "is_terminal (lr_state (snd (run_op sha (ApplyPlan (PlanInvalid 1)) r)))" if "lr_state r = Planning"
    using that by (simp add: apply_plan_def ok_state_def)
  moreover have "is_terminal (lr_state (snd (run_op sha (FinishExecution False False) r)))" if "lr_state r = Executing"
    using that by (simp add: finish_execution_def ok_state_def)
  moreover have "is_terminal (lr_state (snd (run_op sha (Reconcile False) r)))" if "lr_state r = RecoveryRequired"
    using that by (simp add: reconcile_def ok_state_def)
  moreover have "lr_state r \<in> {Planning, Pending, Approved, Executing, RecoveryRequired}"
    using assms by (cases "lr_state r") auto
  ultimately show ?thesis by blast
qed

section \<open>Authorization\<close>

text \<open>A decision call that approves the request \<open>r\<close> in time and for its generation.\<close>

definition approving :: "lifecycle_record \<Rightarrow> u64 \<Rightarrow> u64 \<Rightarrow> verified_decision \<Rightarrow> bool" where
  "approving r now gen d \<longleftrightarrow> vd_decision d = Approve \<and> vd_request_digest d = lr_request_digest r
     \<and> vd_generation d = lr_generation r \<and> gen = lr_generation r \<and> now < lr_deadline_mono_ns r"

lemma enters_approved:
  "moves sha op r r' \<Longrightarrow> lr_state r' = Approved \<Longrightarrow> lr_state r \<noteq> Approved \<Longrightarrow>
     \<exists>now gen d. op = ApplyDecision now gen d \<and> approving r now gen d"
  by (induction rule: moves.induct) (auto simp: approving_def split: if_splits)

abbreviation started :: "request_state set" where
  "started \<equiv> {Executing, RecoveryRequired, Succeeded, Failed}"

lemma enters_started:
  "moves sha op r r' \<Longrightarrow> lr_state r' \<in> started \<Longrightarrow> lr_state r \<notin> started \<Longrightarrow>
     lr_state r = Approved \<and> (\<exists>now gen. op = BeginExecution now gen \<and> now < lr_deadline_mono_ns r \<and> gen = lr_generation r)"
  by (induction rule: moves.induct) (auto split: if_splits)

lemma approving_run [simp]: "approving (run_ops sha ops r) = approving r"
  using run_ops_fixed [of sha ops r] by (simp add: approving_def fun_eq_iff)

lemma approved_was_decided:
  assumes "lr_state r = Planning" and "lr_state (run_ops sha ops r) = Approved"
  shows "\<exists>before now gen d after. ops = before @ ApplyDecision now gen d # after \<and> approving r now gen d"
  using assms(2)
proof (induction ops rule: rev_induct)
  case Nil
  then show ?case using assms(1) by simp
next
  case (snoc op ops)
  show ?case
  proof (cases "lr_state (run_ops sha ops r) = Approved")
    case True
    from snoc.IH [OF this] show ?thesis by (metis append_Cons append_assoc)
  next
    case False
    with enters_approved [OF run_op_moves, of sha op "run_ops sha ops r"] snoc.prems
    show ?thesis by (fastforce simp: run_ops_append)
  qed
qed

lemma started_was_approved:
  assumes "lr_state r = Planning" and "lr_state (run_ops sha ops r) \<in> started"
  shows "\<exists>before now gen d between now' after.
     ops = before @ ApplyDecision now gen d # between @ BeginExecution now' gen # after
   \<and> approving r now gen d \<and> now' < lr_deadline_mono_ns r"
  using assms(2)
proof (induction ops rule: rev_induct)
  case Nil
  then show ?case using assms(1) by simp
next
  case (snoc op ops)
  show ?case
  proof (cases "lr_state (run_ops sha ops r) \<in> started")
    case True
    from snoc.IH [OF this] obtain before now gen d between now' after where
      "ops = before @ ApplyDecision now gen d # between @ BeginExecution now' gen # after"
      "approving r now gen d \<and> now' < lr_deadline_mono_ns r" by blast
    then show ?thesis
      by (intro exI [of _ before] exI [of _ now] exI [of _ gen] exI [of _ d] exI [of _ between]
          exI [of _ now'] exI [of _ "after @ [op]"]) simp
  next
    case False
    from enters_started [OF run_op_moves _ False] snoc.prems
    obtain now' where st: "lr_state (run_ops sha ops r) = Approved"
      and op: "op = BeginExecution now' (lr_generation r)" "now' < lr_deadline_mono_ns r"
      using run_ops_fixed [of sha ops r] by (auto simp: run_ops_append)
    from approved_was_decided [OF assms(1) st] obtain before now gen d between where
      "ops = before @ ApplyDecision now gen d # between" "approving r now gen d" by blast
    with op show ?thesis
      by (intro exI [of _ before] exI [of _ now] exI [of _ gen] exI [of _ d] exI [of _ between]
          exI [of _ now'] exI [of _ "[]"]) (simp add: approving_def)
  qed
qed

section \<open>The chain commits to the history\<close>

lemma u64_to_be_inject [simp]: "u64_to_be a = u64_to_be b \<longleftrightarrow> a = b"
  by (metis u64_from_to_be)

lemma reason_code_inject [simp]: "reason_code a = reason_code b \<longleftrightarrow> a = b"
  by (cases a; cases b) simp_all

lemma event_preimage_inject:
  assumes "event_preimage i n p s c = event_preimage i' n' p' s' c'"
    and "length (public_id_str i) = length (public_id_str i')"
    and "length (case p of None \<Rightarrow> zero_digest | Some d \<Rightarrow> d) = length (case p' of None \<Rightarrow> zero_digest | Some d \<Rightarrow> d)"
  shows "i = i' \<and> n = n' \<and> s = s' \<and> c = c'
     \<and> (case p of None \<Rightarrow> zero_digest | Some d \<Rightarrow> d) = (case p' of None \<Rightarrow> zero_digest | Some d \<Rightarrow> d)"
  using assms by (auto simp: event_preimage_def append_eq_append_conv public_id.expand)

definition hashed :: "public_id \<Rightarrow> lifecycle_event \<Rightarrow> bytes" where
  "hashed i e = event_preimage i (ev_sequence e) (ev_previous_event_digest e) (ev_state e) (ev_reason e)"

lemma chain_last:
  assumes "chain sha i 0 None (es @ [e])"
  shows "ev_sequence e = of_nat (Suc (length es))"
    and "ev_previous_event_digest e = last_digest None es"
    and "ev_event_digest e = sha (hashed i e)"
proof -
  have e: "e = event_of sha i (of_nat (Suc (length es))) (last_digest None es) (ev_state e) (ev_reason e)"
    using assms by (simp add: chain_append)
  from arg_cong [OF e, of ev_sequence] show n: "ev_sequence e = of_nat (Suc (length es))"
    by (simp add: event_of_def)
  from arg_cong [OF e, of ev_previous_event_digest] show p: "ev_previous_event_digest e = last_digest None es"
    by (simp add: event_of_def)
  from arg_cong [OF e, of ev_event_digest] show "ev_event_digest e = sha (hashed i e)"
    by (simp add: event_of_def hashed_def lifecycle_event_digest_def n p)
qed

abbreviation link :: "lifecycle_event list \<Rightarrow> bytes" where
  "link es \<equiv> (case last_digest None es of None \<Rightarrow> zero_digest | Some d \<Rightarrow> d)"

lemma length_link:
  assumes "chain sha i 0 None es" and "\<And>b. length (sha b) = 32"
  shows "length (link es) = 32"
proof (cases es rule: rev_cases)
  case (snoc fs f)
  then show ?thesis using chain_last(3) [of sha i fs f] assms by (simp add: last_digest_def)
qed simp

lemma of_nat_u64_inject: "m < 2 ^ 64 \<Longrightarrow> n < 2 ^ 64 \<Longrightarrow> (of_nat m :: u64) = of_nat n \<longleftrightarrow> m = n"
  using of_nat_inverse [of m "of_nat n :: u64"] of_nat_inverse [of n "of_nat n :: u64"] by auto

lemma chain_commits:
  assumes "chain sha i 0 None es" and "chain sha i' 0 None fs"
    and "length (public_id_str i) = length (public_id_str i')" and len: "\<And>b. length (sha b) = 32"
    and "inj_on sha (hashed i ` set es \<union> hashed i' ` set fs)"
    and "es \<noteq> []" and "fs \<noteq> []" and "ev_event_digest (last es) = ev_event_digest (last fs)"
    and "length es < 2 ^ 64" and "length fs < 2 ^ 64"
  shows "i = i' \<and> es = fs"
  using assms
proof (induction es arbitrary: fs rule: rev_induct)
  case Nil
  then show ?case by simp
next
  case (snoc e es)
  from snoc.prems(7) obtain fs' f where fs: "fs = fs' @ [f]" by (cases fs rule: rev_cases) auto
  have c: "chain sha i 0 None es" "chain sha i' 0 None fs'"
    using snoc.prems(1,2) by (simp_all add: fs chain_append)
  note e = chain_last [OF snoc.prems(1)] and f = chain_last [OF snoc.prems(2) [unfolded fs]]
  have "hashed i e = hashed i' f"
  proof (rule inj_onD [OF snoc.prems(5)])
    have "ev_event_digest e = ev_event_digest f" using snoc.prems(8) by (simp add: fs)
    then show "sha (hashed i e) = sha (hashed i' f)" by (simp only: e(3) f(3))
  qed (simp_all add: fs)
  then have "i = i' \<and> (of_nat (Suc (length es)) :: u64) = of_nat (Suc (length fs'))
      \<and> ev_state e = ev_state f \<and> ev_reason e = ev_reason f \<and> link es = link fs'"
    using event_preimage_inject [of i "of_nat (Suc (length es))" "last_digest None es" "ev_state e" "ev_reason e"
        i' "of_nat (Suc (length fs'))" "last_digest None fs'" "ev_state f" "ev_reason f"]
      snoc.prems(3) length_link [OF c(1) len] length_link [OF c(2) len]
    by (simp add: hashed_def e f)
  then have eq: "i = i'" "length es = length fs'" "ev_state e = ev_state f" "ev_reason e = ev_reason f" "link es = link fs'"
    using snoc.prems(9,10) of_nat_u64_inject [of "Suc (length es)" "Suc (length fs')"] by (auto simp: fs)
  have "es = fs'"
  proof (cases "es = []")
    case False
    with eq(2,5) have "fs' \<noteq> []" "ev_event_digest (last es) = ev_event_digest (last fs')"
      by (auto simp: last_digest_def)
    moreover have "inj_on sha (hashed i ` set es \<union> hashed i' ` set fs')"
      using snoc.prems(5) by (rule inj_on_subset) (auto simp: fs)
    ultimately show ?thesis
      using snoc.IH [OF c snoc.prems(3) len] False snoc.prems(9,10) by (simp add: fs)
  qed (use eq(2) in simp)
  moreover have "e = f"
    using eq e f \<open>es = fs'\<close> by (intro lifecycle_event.equality) (simp_all add: hashed_def)
  ultimately show ?case using eq(1) fs by simp
qed

section \<open>Properties\<close>

text \<open>C1: whatever sequence of calls is made on a record created by \<^verbatim>\<open>LifecycleRecord::new\<close>, its
  events form a correct hash chain numbered from 1, they start in \<open>Planning\<close>, follow only
  permitted edges and end in the record's state, there are at most six of them, the receipt draft
  exists exactly in a terminal state and is the one of the final event, and the frozen plan is the
  plan of the requested package.\<close>

theorem lifecycle_history_sound:
  "record_inv sha (run_ops sha ops (LifecycleRecord_new sha rid cid pkg dig gen deadline))"
  by (rule record_inv_run) (rule record_inv_new)

text \<open>C2: a request that has started executing (or has finished or failed afterwards) was approved
  before, by a verified approve decision for its request digest and its credential generation, made
  before the deadline, and was handed to execution before the deadline under the same generation.\<close>

theorem execution_requires_approval:
  assumes "lr_state (run_ops sha ops (LifecycleRecord_new sha rid cid pkg dig gen deadline))
      \<in> {Executing, RecoveryRequired, Succeeded, Failed}"
  shows "\<exists>before now d between now' after.
     ops = before @ ApplyDecision now gen d # between @ BeginExecution now' gen # after
   \<and> vd_decision d = Approve \<and> vd_request_digest d = dig \<and> vd_generation d = gen
   \<and> now < deadline \<and> now' < deadline"
proof -
  let ?r = "LifecycleRecord_new sha rid cid pkg dig gen deadline"
  have r: "lr_state ?r = Planning" "lr_request_digest ?r = dig" "lr_generation ?r = gen"
    "lr_deadline_mono_ns ?r = deadline"
    by (simp_all add: LifecycleRecord_new_def)
  from started_was_approved [OF r(1) assms] show ?thesis
    unfolding approving_def r by metis
qed

theorem execution_requires_approval_witness:
  "\<exists>before now d between now' after.
     [ApplyPlan (PlanPending \<lparr>fp_package_name = PackageName (str ''curl''), fp_manifest_digest = [],
        fp_plan_digest = [], fp_action_count = 1\<rparr>),
      ApplyDecision 2 7 \<lparr>vd_request_digest = [9], vd_generation = 7, vd_decision = Approve, vd_assertion_digest = []\<rparr>,
      BeginExecution 3 7]
     = before @ ApplyDecision now 7 d # between @ BeginExecution now' 7 # after
   \<and> vd_decision d = Approve \<and> vd_request_digest d = [9] \<and> vd_generation d = 7 \<and> now < 10 \<and> now' < 10"
  by (rule execution_requires_approval [where sha = "\<lambda>_. replicate 32 0" and rid = "PublicId []"
      and cid = "PublicId []" and pkg = "PackageName (str ''curl'')"])
     (simp add: run)

text \<open>A terminal record is final: every further call is refused with \<^verbatim>\<open>AlreadyTerminal\<close> and
  changes nothing, so the receipt and the event chain never change again.\<close>

theorem terminal_record_final:
  assumes "is_terminal (lr_state r)"
  shows "run_ops sha ops r = r \<and> fst (run_op sha op r) = Inl AlreadyTerminal"
  using assms by (simp add: run_ops_terminal run_op_terminal)

theorem terminal_record_final_witness:
  "let r = snd (apply_plan (\<lambda>_. replicate 32 0) (PlanNoChange 0)
       (LifecycleRecord_new (\<lambda>_. replicate 32 0) (PublicId []) (PublicId []) (PackageName []) [] 0 5)) in
   lr_state r = NoChange \<and> run_ops (\<lambda>_. replicate 32 0) [Cancel 0 0, Reconcile True] r = r
   \<and> fst (run_op (\<lambda>_. replicate 32 0) (Cancel 0 0) r) = Inl AlreadyTerminal"
  unfolding Let_def
  by (intro conjI terminal_record_final [THEN conjunct1] terminal_record_final [THEN conjunct2])
     (simp_all add: apply_plan_def ok_state_def LifecycleRecord_new_def)

text \<open>At or after the monotonic deadline a pending or approved request can no longer be
  decided, cancelled or executed: the call itself expires it, returns \<^verbatim>\<open>AlreadyTerminal\<close>, and the
  receipt of the expiry is made at that moment.\<close>

theorem expiry_wins:
  assumes "lr_state r \<in> {Pending, Approved}" and "lr_deadline_mono_ns r \<le> now"
    and "op \<in> {ApplyDecision now gen d, Cancel now gen, BeginExecution now gen}"
  shows "fst (run_op sha op r) = Inl AlreadyTerminal \<and> lr_state (snd (run_op sha op r)) = Expired
     \<and> (\<exists>receipt. lr_receipt (snd (run_op sha op r)) = Some receipt \<and> rd_terminal_state receipt = Expired)"
  using run_op_expired [OF assms, of sha] by (simp add: receipt_winner make_receipt_def Let_def)

theorem expiry_wins_witness:
  "let r = snd (apply_plan (\<lambda>_. replicate 32 0) (PlanPending \<lparr>fp_package_name = PackageName [], fp_manifest_digest = [],
        fp_plan_digest = [], fp_action_count = 1\<rparr>)
       (LifecycleRecord_new (\<lambda>_. replicate 32 0) (PublicId []) (PublicId []) (PackageName []) [] 0 5)) in
   fst (run_op (\<lambda>_. replicate 32 0) (BeginExecution 5 0) r) = Inl AlreadyTerminal
   \<and> lr_state (snd (run_op (\<lambda>_. replicate 32 0) (BeginExecution 5 0) r)) = Expired
   \<and> (\<exists>receipt. lr_receipt (snd (run_op (\<lambda>_. replicate 32 0) (BeginExecution 5 0) r)) = Some receipt
        \<and> rd_terminal_state receipt = Expired)"
  unfolding Let_def
  by (rule expiry_wins [where now = 5 and gen = 0])
     (simp_all add: apply_plan_def ok_state_def LifecycleRecord_new_def)

text \<open>C21: the digest of the last event commits to the whole history. If two records made by
  \<^verbatim>\<open>LifecycleRecord::new\<close> and any calls have the same final event digest, and SHA-256 does not
  collide on the strings hashed for their events, then both belong to the same request and their
  event lists are identical.\<close>

theorem event_chain_commits:
  assumes "r = run_ops sha ops (LifecycleRecord_new sha rid cid pkg dig gen deadline)"
    and "r' = run_ops sha ops' (LifecycleRecord_new sha rid' cid' pkg' dig' gen' deadline')"
    and "length (public_id_str rid) = 22" and "length (public_id_str rid') = 22"
    and "\<And>b. length (sha b) = 32"
    and "inj_on sha (hashed rid ` set (lr_events r) \<union> hashed rid' ` set (lr_events r'))"
    and "ev_event_digest (last (lr_events r)) = ev_event_digest (last (lr_events r'))"
  shows "rid = rid' \<and> lr_events r = lr_events r'"
proof -
  have inv: "record_inv sha r" "record_inv sha r'"
    unfolding assms(1,2) by (intro record_inv_run record_inv_new)+
  have id: "lr_request_id r = rid" "lr_request_id r' = rid'"
    using run_ops_fixed by (simp_all add: assms(1,2) LifecycleRecord_new_def)
  have short: "length (lr_events x) < 2 ^ 64" if "record_inv sha x" for x
    using that rank_le [of "lr_state x"] by (simp add: record_inv_def)
  show ?thesis
    using inv assms(3-7) short [OF inv(1)] short [OF inv(2)]
    by (intro chain_commits [of sha]) (auto simp: record_inv_def history_ok_def id)
qed

theorem event_chain_commits_witness:
  "\<exists>sha r r'. r = run_ops sha [ApplyPlan (PlanInvalid 0)]
         (LifecycleRecord_new sha (PublicId (replicate 22 65)) (PublicId []) (PackageName []) [] 0 5)
     \<and> r' = run_ops sha [Reconcile True, ApplyPlan (PlanInvalid 0)]
         (LifecycleRecord_new sha (PublicId (replicate 22 65)) (PublicId [1]) (PackageName []) [] 3 9)
     \<and> map ev_state (lr_events r) = [Planning, Invalid] \<and> lr_events r = lr_events r'"
proof -
  let ?sha = "\<lambda>b :: bytes. replicate 31 0 @ [last b]" and ?i = "PublicId (replicate 22 65)"
  let ?r = "run_ops ?sha [ApplyPlan (PlanInvalid 0)] (LifecycleRecord_new ?sha ?i (PublicId []) (PackageName []) [] 0 5)"
  let ?r' = "run_ops ?sha [Reconcile True, ApplyPlan (PlanInvalid 0)] (LifecycleRecord_new ?sha ?i (PublicId [1]) (PackageName []) [] 3 9)"
  have be8: "be_bytes 8 k = be_bytes 7 (k div 256) @ [of_nat k]" for k
    using be_bytes.simps(2) [of 7 k] by simp
  have tail: "last (event_preimage x n p s c) = of_nat (unat (reason_code c))" for x n p s c
    by (simp only: event_preimage_def u64_to_be_def be8 append_assoc [symmetric] last_snoc)
  note eval = run_ops_def LifecycleRecord_new_def append_event_def apply_plan_def reconcile_def state_error_def winner_def ok_state_def
     lifecycle_event_digest_def Let_def
  have states: "map ev_state (lr_events ?r) = [Planning, Invalid]" by (simp add: eval)
  have same: "ev_event_digest (last (lr_events ?r)) = ev_event_digest (last (lr_events ?r'))" by (simp add: eval tail)
  have inj: "inj_on ?sha (hashed ?i ` set (lr_events ?r) \<union> hashed ?i ` set (lr_events ?r'))"
    by (simp add: eval hashed_def tail) auto
  have "?i = ?i \<and> lr_events ?r = lr_events ?r'"
    by (rule event_chain_commits [where sha = ?sha, OF refl refl _ _ _ inj same]) simp_all
  then show ?thesis
    by (intro exI [of _ ?sha] exI [of _ ?r] exI [of _ ?r'] conjI refl states) (rule conjunct2)
qed

text \<open>No request is stuck: in every state that is not terminal some call closes the request.\<close>

theorem no_stuck_request:
  assumes "\<not> is_terminal (lr_state r)"
  shows "\<exists>op. is_terminal (lr_state (snd (run_op sha op r)))
     \<and> fst (run_op sha op (snd (run_op sha op r))) = Inl AlreadyTerminal"
  using run_op_closes [OF assms, of sha] run_op_terminal by fastforce

theorem no_stuck_request_witness:
  "\<exists>op. is_terminal (lr_state (snd (run_op (\<lambda>_. replicate 32 0) op
       (LifecycleRecord_new (\<lambda>_. replicate 32 0) (PublicId []) (PublicId []) (PackageName []) [] 0 5))))
     \<and> fst (run_op (\<lambda>_. replicate 32 0) op (snd (run_op (\<lambda>_. replicate 32 0) op
         (LifecycleRecord_new (\<lambda>_. replicate 32 0) (PublicId []) (PublicId []) (PackageName []) [] 0 5)))) = Inl AlreadyTerminal"
  by (rule no_stuck_request) (simp add: LifecycleRecord_new_def)

end
