(* ===== verification/Store.thy ===== *)
theory Store
  imports Lifecycle Schema_Records Cose
begin

text \<open>
  The durable broker authority \<^verbatim>\<open>BrokerStore\<close> of \<^verbatim>\<open>crates/rp-broker-core/src/lib.rs\<close> over the tables
  of \<^verbatim>\<open>crates/rp-broker-core/migrations\<close>. A table is the list of its rows; a statement of the source
  is a function on the tables that fails with \<open>Sqlite\<close> where a constraint, a unique index or a
  trigger of the migrations rejects it. A method that opens a transaction returns \<open>Inl\<close> with the
  store as it was (the transaction is dropped and rolls back) or \<open>Inr\<close> with the store after the
  commit. Integers of SQLite are 64-bit words read with \<open>sint\<close>; text and blobs are byte lists.

  Outside the repository, and so parameters: SHA-256, Ed25519 signing and the base64 engine
  (collected in the record \<open>env\<close>), the bytes read from \<^verbatim>\<open>/dev/urandom\<close> (an argument \<open>rnd\<close>,
  \<open>None\<close> when the read fails), and the WebAuthn verifier. Opening the files
  of the key and the database is in \<open>Private_Files\<close>.
\<close>

section \<open>Conversions\<close>

definition i64_from_u64 :: "'e \<Rightarrow> u64 \<Rightarrow> 'e + i64" where
  [run]: "i64_from_u64 e w = (if uint w < 2 ^ 63 then Inr w else Inl e)"

definition u64_from_i64 :: "'e \<Rightarrow> i64 \<Rightarrow> 'e + u64" where
  [run]: "u64_from_i64 e w = (if 0 \<le> sint w then Inr w else Inl e)"

definition u32_from_i64 :: "'e \<Rightarrow> i64 \<Rightarrow> 'e + u32" where
  [run]: "u32_from_i64 e w = (if 0 \<le> sint w \<and> sint w < 2 ^ 32 then Inr (ucast w) else Inl e)"

definition fixed_array :: "'e \<Rightarrow> nat \<Rightarrow> bytes \<Rightarrow> 'e + bytes" where
  [run]: "fixed_array e n b = (if length b = n then Inr b else Inl e)"

section \<open>Tables\<close>

record request_row =
  rr_request_id :: bytes
  rr_device_id :: bytes
  rr_requester_uid :: i64
  rr_operation_key :: bytes
  rr_input_digest :: bytes
  rr_package_name :: bytes
  rr_generation :: i64
  rr_state :: bytes
  rr_boot_epoch :: i64
  rr_deadline_mono_ns :: "i64 option"
  rr_plan_digest :: "bytes option"
  rr_created_utc :: i64
  rr_updated_utc :: i64
  rr_receipt_bytes :: "bytes option"
  rr_recovery_evidence :: "bytes option"
  rr_request_digest :: "bytes option"
  rr_request_cose :: "bytes option"
  rr_request_nonce :: "bytes option"
  rr_request_boot_id :: "bytes option"
  rr_request_policy_id :: "bytes option"
  rr_request_policy_digest :: "bytes option"
  rr_request_frozen_plan :: "bytes option"
  rr_request_expires_utc :: "i64 option"

record event_row =
  er_request_id :: bytes
  er_sequence :: i64
  er_state :: bytes
  er_reason :: i64
  er_previous_event_digest :: "bytes option"
  er_event_digest :: bytes

record receipt_row =
  cr_receipt_id :: bytes
  cr_request_id :: bytes
  cr_requester_uid :: i64
  cr_terminal_state :: bytes
  cr_cose_bytes :: bytes
  cr_created_utc :: i64
  cr_completed_utc :: i64

record credential_row =
  cd_credential_id :: bytes
  cd_generation :: i64
  cd_cose_algorithm :: i64
  cd_public_key_cose :: bytes
  cd_sign_count :: i64
  cd_quarantined :: i64

record identity_row =
  bi_key_kid :: bytes
  bi_public_key :: bytes
  bi_broker_epoch :: i64
  bi_device_id :: "bytes option"

record database =
  db_requests :: "request_row list"
  db_events :: "event_row list"
  db_receipts :: "receipt_row list"
  db_credentials :: "credential_row list"
  db_boot_epoch :: i64
  db_credential_generation :: i64
  db_identity :: "identity_row option"

record broker_store =
  bs_db :: database
  bs_device_id :: bytes
  bs_device_id_bytes :: bytes

record env =
  e_sha :: hash
  e_b64_encode :: "bytes \<Rightarrow> bytes"
  e_b64_decode :: "bytes \<Rightarrow> bytes option"
  e_ed_sign :: "bytes \<Rightarrow> bytes \<Rightarrow> bytes"
  e_ed_public :: "bytes \<Rightarrow> bytes"

type_synonym 'a store_result = "broker_error + 'a \<times> broker_store"

text \<open>A database without rows: what an empty file holds, before and after the migrations.\<close>

definition empty_database :: database where
  [run]: "empty_database = \<lparr>db_requests = [], db_events = [], db_receipts = [], db_credentials = [],
     db_boot_epoch = 0, db_credential_generation = 0, db_identity = None\<rparr>"

section \<open>Constraints\<close>

definition active_text :: "bytes \<Rightarrow> bool" where
  [run]: "active_text t \<longleftrightarrow> t \<in> set [str ''planning'', str ''pending'', str ''approved'', str ''executing'', str ''recovery_required'']"

definition opt_length :: "nat \<Rightarrow> bytes option \<Rightarrow> bool" where
  [run]: "opt_length n b \<longleftrightarrow> (case b of None \<Rightarrow> True | Some x \<Rightarrow> length x = n)"

definition request_checks :: "request_row \<Rightarrow> bool" where
  [run]: "request_checks r \<longleftrightarrow>
     0 \<le> sint (rr_requester_uid r) \<and> length (rr_input_digest r) = 32 \<and> 0 \<le> sint (rr_generation r)
   \<and> rr_state r \<in> set [str ''planning'', str ''pending'', str ''approved'', str ''executing'', str ''no_change'',
       str ''invalid'', str ''denied'', str ''expired'', str ''cancelled'', str ''stale'', str ''succeeded'', str ''failed'',
       str ''recovery_required'']
   \<and> 0 \<le> sint (rr_boot_epoch r)
   \<and> (case rr_deadline_mono_ns r of None \<Rightarrow> True | Some d \<Rightarrow> 0 \<le> sint d)
   \<and> opt_length 32 (rr_plan_digest r) \<and> opt_length 32 (rr_request_digest r) \<and> opt_length 32 (rr_request_nonce r)
   \<and> opt_length 16 (rr_request_boot_id r) \<and> opt_length 16 (rr_request_policy_id r)
   \<and> opt_length 32 (rr_request_policy_digest r)"

text \<open>Primary key, \<^verbatim>\<open>requests_idempotency\<close>, \<^verbatim>\<open>requests_one_active_per_device\<close> and the column checks.\<close>

definition requests_ok :: "request_row list \<Rightarrow> bool" where
  [run]: "requests_ok rs \<longleftrightarrow>
     distinct (map rr_request_id rs)
   \<and> distinct (map (\<lambda>r. (rr_requester_uid r, rr_operation_key r)) rs)
   \<and> distinct (map rr_device_id (filter (\<lambda>r. active_text (rr_state r)) rs))
   \<and> list_all request_checks rs"

text \<open>A statement that writes the table \<^verbatim>\<open>requests\<close>.\<close>

definition write_requests :: "request_row list \<Rightarrow> database \<Rightarrow> broker_error + database" where
  [run]: "write_requests rs db = (if requests_ok rs then Inr (db\<lparr>db_requests := rs\<rparr>) else Inl Sqlite)"

definition insert_event :: "event_row \<Rightarrow> database \<Rightarrow> broker_error + database" where
  [run]: "insert_event e db =
     (if er_request_id e \<in> set (map rr_request_id (db_requests db))
       \<and> 0 < sint (er_sequence e) \<and> 0 < sint (er_reason e)
       \<and> opt_length 32 (er_previous_event_digest e) \<and> length (er_event_digest e) = 32
       \<and> (er_request_id e, er_sequence e) \<notin> set (map (\<lambda>x. (er_request_id x, er_sequence x)) (db_events db))
      then Inr (db\<lparr>db_events := db_events db @ [e]\<rparr>) else Inl Sqlite)"

definition insert_receipt :: "receipt_row \<Rightarrow> database \<Rightarrow> broker_error + database" where
  [run]: "insert_receipt c db =
     (if cr_receipt_id c \<notin> set (map cr_receipt_id (db_receipts db))
       \<and> cr_request_id c \<notin> set (map cr_request_id (db_receipts db))
       \<and> cr_request_id c \<in> set (map rr_request_id (db_requests db))
       \<and> 0 \<le> sint (cr_requester_uid c)
      then Inr (db\<lparr>db_receipts := db_receipts db @ [c]\<rparr>) else Inl Sqlite)"

definition insert_credential :: "credential_row \<Rightarrow> database \<Rightarrow> broker_error + database" where
  [run]: "insert_credential c db =
     (if cd_credential_id c \<notin> set (map cd_credential_id (db_credentials db))
       \<and> 1 \<le> length (cd_credential_id c) \<and> length (cd_credential_id c) \<le> 1024
       \<and> 0 \<le> sint (cd_generation c)
       \<and> 1 \<le> length (cd_public_key_cose c) \<and> length (cd_public_key_cose c) \<le> 4096
      then Inr (db\<lparr>db_credentials := db_credentials db @ [c]\<rparr>) else Inl Sqlite)"

text \<open>A query for one row.\<close>

definition find_request :: "database \<Rightarrow> bytes \<Rightarrow> request_row option" where
  [run]: "find_request db request_id = find (\<lambda>r. rr_request_id r = request_id) (db_requests db)"

definition update_request :: "bytes \<Rightarrow> (request_row \<Rightarrow> request_row) \<Rightarrow> database \<Rightarrow> request_row list" where
  [run]: "update_request request_id f db =
     map (\<lambda>r. if rr_request_id r = request_id then f r else r) (db_requests db)"

section \<open>Signing key and identifiers\<close>

record broker_signing_key =
  sg_key :: bytes
  sg_kid :: bytes
  sg_public_key :: bytes

definition BrokerSigningKey_from_seed :: "env \<Rightarrow> bytes \<Rightarrow> broker_signing_key" where
  [run]: "BrokerSigningKey_from_seed env seed =
     \<lparr>sg_key = seed, sg_kid = take 16 (e_sha env (e_ed_public env seed)), sg_public_key = e_ed_public env seed\<rparr>"

definition PublicId_bytes :: "env \<Rightarrow> public_id \<Rightarrow> broker_error + bytes" where
  [run]: "PublicId_bytes env i =
     (case e_b64_decode env (public_id_str i) of
        Some b \<Rightarrow> if length b = 16 then Inr b else Inl CorruptState
      | None \<Rightarrow> Inl CorruptState)"

definition PublicId_random :: "env \<Rightarrow> bytes option \<Rightarrow> broker_error + public_id" where
  [run]: "PublicId_random env rnd = rbind (ok_or BrokerIo rnd) (\<lambda>b.
     map_err (\<lambda>_. CorruptState) (PublicId_parse (e_b64_encode env b)))"

definition input_digest :: "hash \<Rightarrow> package_name \<Rightarrow> digest" where
  [run]: "input_digest sha package_name =
     sha (str ''rootpermit/v1/package-install-input'' @ [0] @ package_name_str package_name)"

section \<open>Opening\<close>

text \<open>
  A connection: the \<^verbatim>\<open>user_version\<close> of its file, what \<^verbatim>\<open>PRAGMA quick_check\<close> reports, and the tables
  (those that a later migration creates have no rows and the columns it adds are empty).
\<close>

record connection =
  cn_user_version :: u32
  cn_quick_check :: bytes
  cn_db :: database

text \<open>The effect of the seven migration scripts on the tables. The fourth creates an index again.\<close>

definition MIGRATIONS :: "(database \<Rightarrow> database) list" where
  [run]: "MIGRATIONS =
     [\<lambda>db. db\<lparr>db_requests := [], db_events := []\<rparr>,
      \<lambda>db. db\<lparr>db_boot_epoch := 0, db_credential_generation := 0\<rparr>,
      \<lambda>db. db\<lparr>db_identity := None, db_receipts := []\<rparr>,
      \<lambda>db. db,
      \<lambda>db. db\<lparr>db_identity := map_option (\<lambda>i. i\<lparr>bi_device_id := None\<rparr>) (db_identity db)\<rparr>,
      \<lambda>db. db\<lparr>db_requests := map (\<lambda>r. r\<lparr>rr_request_digest := None, rr_request_cose := None, rr_request_nonce := None,
         rr_request_boot_id := None, rr_request_policy_id := None, rr_request_policy_digest := None,
         rr_request_frozen_plan := None, rr_request_expires_utc := None\<rparr>) (db_requests db)\<rparr>,
      \<lambda>db. db\<lparr>db_credentials := []\<rparr>]"

definition from_connection :: "env \<Rightarrow> connection \<Rightarrow> broker_error + broker_store" where
  [run]: "from_connection env c =
     (if length MIGRATIONS < unat (cn_user_version c) then Inl UnsupportedSchema
      else
        let db = fold (\<lambda>migration. migration) (drop (unat (cn_user_version c)) MIGRATIONS) (cn_db c) in
        if cn_quick_check c \<noteq> str ''ok'' then Inl CorruptState
        else
          rbind (case db_identity db of
              None \<Rightarrow> Inr (replicate 16 0)
            | Some i \<Rightarrow> (case bi_device_id i of
                  None \<Rightarrow> Inr (replicate 16 0)
                | Some b \<Rightarrow> fixed_array CorruptState 16 b)) (\<lambda>device_id_bytes.
            Inr \<lparr>bs_db = db, bs_device_id = e_b64_encode env device_id_bytes, bs_device_id_bytes = device_id_bytes\<rparr>))"

definition in_memory :: "env \<Rightarrow> broker_error + broker_store" where
  [run]: "in_memory env =
     from_connection env \<lparr>cn_user_version = 0, cn_quick_check = str ''ok'', cn_db = empty_database\<rparr>"

definition initialize_identity :: "env \<Rightarrow> bytes option \<Rightarrow> broker_signing_key \<Rightarrow> broker_store \<Rightarrow> unit store_result" where
  [run]: "initialize_identity env rnd signer s =
     (let db = bs_db s in
      rbind (case db_identity db of
         Some i \<Rightarrow>
           if bi_key_kid i = sg_kid signer \<and> bi_public_key i = sg_public_key signer then
             (case bi_device_id i of
                Some device_id \<Rightarrow> map_ok (\<lambda>d. (d, db)) (fixed_array CorruptState 16 device_id)
              | None \<Rightarrow> rbind (ok_or BrokerIo rnd) (\<lambda>d.
                  if length d = 16 then Inr (d, db\<lparr>db_identity := Some (i\<lparr>bi_device_id := Some d\<rparr>)\<rparr>) else Inl Sqlite))
           else Inl UnsafeKey
       | None \<Rightarrow> rbind (ok_or BrokerIo rnd) (\<lambda>d.
           if 8 \<le> length (sg_kid signer) \<and> length (sg_kid signer) \<le> 32 \<and> length (sg_public_key signer) = 32
             \<and> length d = 16
           then Inr (d, db\<lparr>db_identity := Some \<lparr>bi_key_kid = sg_kid signer, bi_public_key = sg_public_key signer,
                 bi_broker_epoch = 0, bi_device_id = Some d\<rparr>\<rparr>)
           else Inl Sqlite)) (\<lambda>(d, db).
        Inr ((), s\<lparr>bs_db := db, bs_device_id := e_b64_encode env d, bs_device_id_bytes := d\<rparr>)))"

definition ensure_identity :: "database \<Rightarrow> broker_signing_key \<Rightarrow> broker_error + unit" where
  [run]: "ensure_identity db signer =
     (case db_identity db of
        Some i \<Rightarrow> if bi_key_kid i = sg_kid signer \<and> bi_public_key i = sg_public_key signer then Inr () else Inl UnsafeKey
      | None \<Rightarrow> Inl UnsafeKey)"

section \<open>Transitions\<close>

definition request_state_of :: "database \<Rightarrow> public_id \<Rightarrow> broker_error + request_state option" where
  [run]: "request_state_of db request_id =
     (case find_request db (public_id_str request_id) of
        None \<Rightarrow> Inr None
      | Some r \<Rightarrow> map_ok Some (from_db (rr_state r)))"

text \<open>The error after a compare-and-set that changed no row.\<close>

definition race_lost :: "database \<Rightarrow> public_id \<Rightarrow> broker_error + 'a" where
  [run]: "race_lost db request_id = rbind (request_state_of db request_id) (\<lambda>actual.
     case actual of Some actual \<Rightarrow> Inl (LifecycleRaceLost actual) | None \<Rightarrow> Inl NotFound)"

text \<open>\<^verbatim>\<open>SELECT ... WHERE request_id = ?1 ORDER BY sequence DESC LIMIT 1\<close>.\<close>

definition events_of :: "database \<Rightarrow> bytes \<Rightarrow> event_row list" where
  [run]: "events_of db request_id =
     sort_key (\<lambda>e. sint (er_sequence e)) (filter (\<lambda>e. er_request_id e = request_id) (db_events db))"

definition latest_event :: "database \<Rightarrow> bytes \<Rightarrow> event_row option" where
  [run]: "latest_event db request_id =
     (case events_of db request_id of [] \<Rightarrow> None | e # es \<Rightarrow> Some (last (e # es)))"

text \<open>Appending the event of a transition; \<open>next_sequence\<close> is the checked or the saturating
  successor.\<close>

definition append_store_event :: "env \<Rightarrow> (u64 \<Rightarrow> broker_error + u64) \<Rightarrow> public_id \<Rightarrow> request_state \<Rightarrow> reason
    \<Rightarrow> database \<Rightarrow> broker_error + database" where
  [run]: "append_store_event env next_sequence request_id next reason db =
     rbind (ok_or Sqlite (latest_event db (public_id_str request_id))) (\<lambda>e.
     rbind (u64_from_i64 NumericOutOfRange (er_sequence e)) (\<lambda>sequence.
     rbind (next_sequence sequence) (\<lambda>sequence.
     rbind (fixed_array CorruptState 32 (er_event_digest e)) (\<lambda>previous.
     rbind (i64_from_u64 NumericOutOfRange sequence) (\<lambda>seq.
       insert_event \<lparr>er_request_id = public_id_str request_id, er_sequence = seq, er_state = as_db next,
         er_reason = reason_code reason, er_previous_event_digest = Some previous,
         er_event_digest = lifecycle_event_digest (e_sha env) request_id sequence (Some previous) next reason\<rparr> db)))))"

definition checked_succ :: "u64 \<Rightarrow> broker_error + u64" where
  [run]: "checked_succ n = (if unat n + 1 < 2 ^ 64 then Inr (n + 1) else Inl NumericOutOfRange)"

definition append_transition :: "env \<Rightarrow> public_id \<Rightarrow> request_state option \<Rightarrow> request_state \<Rightarrow> reason
    \<Rightarrow> database \<Rightarrow> broker_error + database" where
  [run]: "append_transition env request_id expected next reason db =
     (case find_request db (public_id_str request_id) of
        Some r \<Rightarrow>
          if (case expected of None \<Rightarrow> True | Some x \<Rightarrow> rr_state r = as_db x) then
            rbind (write_requests (update_request (public_id_str request_id) (\<lambda>r. r\<lparr>rr_state := as_db next\<rparr>) db) db)
              (append_store_event env checked_succ request_id next reason)
          else race_lost db request_id
      | None \<Rightarrow> race_lost db request_id)"

definition transition_nonterminal :: "env \<Rightarrow> public_id \<Rightarrow> request_state \<Rightarrow> request_state \<Rightarrow> broker_store
    \<Rightarrow> request_state store_result" where
  [run]: "transition_nonterminal env request_id expected next s =
     (if is_terminal next \<or> \<not> permits expected next then Inl (InvalidTransition expected next)
      else
        let db = bs_db s in
        case find_request db (public_id_str request_id) of
          Some r \<Rightarrow>
            if rr_state r = as_db expected then
              rbind (write_requests (update_request (public_id_str request_id) (\<lambda>r. r\<lparr>rr_state := as_db next\<rparr>) db) db) (\<lambda>db.
              rbind (append_store_event env (\<lambda>n. Inr (saturating_add n 1)) request_id next (transition_reason next) db) (\<lambda>db.
                Inr (next, s\<lparr>bs_db := db\<rparr>)))
            else race_lost db request_id
        | None \<Rightarrow> race_lost db request_id)"

section \<open>Receipts\<close>

fun receipt_state_code :: "request_state \<Rightarrow> u64" where
  "receipt_state_code NoChange = 1"
| "receipt_state_code Invalid = 2"
| "receipt_state_code Denied = 3"
| "receipt_state_code Expired = 4"
| "receipt_state_code Cancelled = 5"
| "receipt_state_code Stale = 6"
| "receipt_state_code Succeeded = 7"
| "receipt_state_code Failed = 8"
| "receipt_state_code RecoveryRequired = 9"
| "receipt_state_code _ = 0"

text \<open>Signing and encoding an envelope, every failure reported as \<open>ReceiptFailed\<close>.\<close>

definition sign_envelope :: "env \<Rightarrow> broker_signing_key \<Rightarrow> bytes \<Rightarrow> u64 \<Rightarrow> domain \<Rightarrow> broker_error + bytes" where
  [run]: "sign_envelope env signer payload content_type d =
     map_err (\<lambda>_. ReceiptFailed)
       (rbind (CoseSign1_sign (e_ed_sign env) payload (sg_kid signer) content_type d (sg_key signer)) CoseSign1_encode)"

definition receipt_of :: "env \<Rightarrow> database \<Rightarrow> request_row \<Rightarrow> public_id \<Rightarrow> public_id \<Rightarrow> request_state \<Rightarrow> i64 \<Rightarrow> cbor_value list
    \<Rightarrow> broker_error + receipt_msg" where
  [run]: "receipt_of env db r receipt_id request_id terminal_state now_utc authorization_evidence =
     rbind (fixed_array CorruptState 32 (case rr_request_digest r of Some d \<Rightarrow> d | None \<Rightarrow> rr_input_digest r)) (\<lambda>request_digest.
     rbind (case rr_plan_digest r of None \<Rightarrow> Inr zero_digest | Some d \<Rightarrow> fixed_array CorruptState 32 d) (\<lambda>plan_digest.
     rbind (PublicId_bytes env receipt_id) (\<lambda>receipt_id_bytes.
     rbind (PublicId_bytes env request_id) (\<lambda>request_id_bytes.
     rbind (u64_from_i64 NumericOutOfRange (db_boot_epoch db)) (\<lambda>broker_epoch.
       Inr \<lparr>rc_receipt_id = receipt_id_bytes, rc_request_id = request_id_bytes, rc_request_digest = request_digest,
            rc_plan_digest = plan_digest, rc_terminal_state = receipt_state_code terminal_state,
            rc_authorization_evidence = authorization_evidence, rc_prestate_evidence = CMap [],
            rc_execution_evidence = CMap ((Unsigned 1, Unsigned (receipt_state_code terminal_state))
              # (case rr_recovery_evidence r of None \<Rightarrow> [] | Some e \<Rightarrow> [(Unsigned 2, Bytes (e_sha env e))])),
            rc_created_utc = rr_created_utc r, rc_completed_utc = now_utc, rc_broker_epoch = broker_epoch\<rparr>)))))"

definition create_receipt :: "env \<Rightarrow> bytes option \<Rightarrow> public_id \<Rightarrow> request_state \<Rightarrow> broker_signing_key \<Rightarrow> i64
    \<Rightarrow> cbor_value list \<Rightarrow> database \<Rightarrow> broker_error + bytes \<times> database" where
  [run]: "create_receipt env rnd request_id terminal_state signer now_utc authorization_evidence db =
     rbind (PublicId_random env rnd) (\<lambda>receipt_id.
     rbind (ok_or Sqlite (find_request db (public_id_str request_id))) (\<lambda>r.
     rbind (receipt_of env db r receipt_id request_id terminal_state now_utc authorization_evidence) (\<lambda>receipt.
     rbind (map_err (\<lambda>_. ReceiptFailed) (Receipt_canonical_bytes receipt)) (\<lambda>payload.
     rbind (sign_envelope env signer payload 3 DomainReceipt) (\<lambda>cose.
     rbind (insert_receipt \<lparr>cr_receipt_id = public_id_str receipt_id, cr_request_id = public_id_str request_id,
         cr_requester_uid = rr_requester_uid r, cr_terminal_state = as_db terminal_state, cr_cose_bytes = cose,
         cr_created_utc = rr_created_utc r, cr_completed_utc = now_utc\<rparr> db) (\<lambda>db.
     if rr_receipt_bytes r \<noteq> None then Inl Sqlite
     else map_ok (\<lambda>db. (cose, db))
       (write_requests (update_request (public_id_str request_id) (\<lambda>r. r\<lparr>rr_receipt_bytes := Some cose\<rparr>) db) db)))))))"

definition transition_terminal_with_evidence :: "env \<Rightarrow> bytes option \<Rightarrow> public_id \<Rightarrow> request_state \<Rightarrow> request_state
    \<Rightarrow> broker_signing_key \<Rightarrow> i64 \<Rightarrow> cbor_value list \<Rightarrow> broker_store \<Rightarrow> bytes store_result" where
  [run]: "transition_terminal_with_evidence env rnd request_id expected next signer now_utc evidence s =
     (if \<not> is_terminal next \<or> \<not> permits expected next then Inl (InvalidTransition expected next)
      else
        rbind (ensure_identity (bs_db s) signer) (\<lambda>_.
        rbind (append_transition env request_id (Some expected) next (transition_reason next) (bs_db s)) (\<lambda>db.
        rbind (create_receipt env rnd request_id next signer now_utc evidence db) (\<lambda>(cose, db).
          Inr (cose, s\<lparr>bs_db := db\<rparr>)))))"

definition transition_terminal :: "env \<Rightarrow> bytes option \<Rightarrow> public_id \<Rightarrow> request_state \<Rightarrow> request_state
    \<Rightarrow> broker_signing_key \<Rightarrow> i64 \<Rightarrow> broker_store \<Rightarrow> bytes store_result" where
  [run]: "transition_terminal env rnd request_id expected next signer now_utc s =
     transition_terminal_with_evidence env rnd request_id expected next signer now_utc [] s"

definition reconcile_recovery :: "env \<Rightarrow> bytes option \<Rightarrow> public_id \<Rightarrow> bool \<Rightarrow> bytes \<Rightarrow> broker_signing_key \<Rightarrow> i64
    \<Rightarrow> broker_store \<Rightarrow> bytes store_result" where
  [run]: "reconcile_recovery env rnd request_id succeeded operator_evidence signer now_utc s =
     (if operator_evidence = [] \<or> 65536 < length operator_evidence then Inl CorruptState
      else
        let next = (if succeeded then Succeeded else Failed);
            reason = (if succeeded then ReasonReconciledSucceeded else ReasonReconciledFailed) in
        rbind (ensure_identity (bs_db s) signer) (\<lambda>_.
        rbind (append_transition env request_id (Some RecoveryRequired) next reason (bs_db s)) (\<lambda>db.
        rbind (write_requests (update_request (public_id_str request_id)
            (\<lambda>r. r\<lparr>rr_recovery_evidence := Some operator_evidence\<rparr>) db) db) (\<lambda>db.
        rbind (create_receipt env rnd request_id next signer now_utc [] db) (\<lambda>(cose, db).
          Inr (cose, s\<lparr>bs_db := db\<rparr>))))))"

section \<open>Boot\<close>

text \<open>The loop of \<^verbatim>\<open>start_boot\<close>; \<open>rnds\<close> holds the random bytes of each receipt.\<close>

fun expire_all :: "env \<Rightarrow> broker_signing_key \<Rightarrow> i64 \<Rightarrow> bytes list \<Rightarrow> bytes option list \<Rightarrow> nat \<Rightarrow> database
    \<Rightarrow> broker_error + nat \<times> database" where
  "expire_all env signer now_utc [] rnds changed db = Inr (changed, db)"
| "expire_all env signer now_utc (request_id # request_ids) rnds changed db =
     rbind (map_err (\<lambda>_. CorruptState) (PublicId_parse request_id)) (\<lambda>rid.
     rbind (append_transition env rid None Expired ReasonExpired db) (\<lambda>db.
     rbind (create_receipt env (case rnds of [] \<Rightarrow> None | r # _ \<Rightarrow> r) rid Expired signer now_utc [] db) (\<lambda>(_, db).
       expire_all env signer now_utc request_ids (drop 1 rnds) (changed + 1) db)))"

definition start_boot :: "env \<Rightarrow> bytes option list \<Rightarrow> u64 \<Rightarrow> broker_signing_key \<Rightarrow> i64 \<Rightarrow> broker_store \<Rightarrow> nat store_result" where
  [run]: "start_boot env rnds boot_epoch signer now_utc s =
     rbind (i64_from_u64 NumericOutOfRange boot_epoch) (\<lambda>epoch.
     let db = bs_db s in
     if db_boot_epoch db = epoch then Inr (0, s)
     else
       rbind (ensure_identity db signer) (\<lambda>_.
       rbind (expire_all env signer now_utc
           (map rr_request_id (filter (\<lambda>r. rr_state r \<in> set [str ''planning'', str ''pending'', str ''approved'']
              \<and> rr_boot_epoch r \<noteq> epoch) (db_requests db))) rnds 0 db) (\<lambda>(changed, db).
         Inr (changed, s\<lparr>bs_db := db\<lparr>db_boot_epoch := epoch\<rparr>\<rparr>))))"

section \<open>Submission\<close>

record submit_package_install =
  sp_request_id :: public_id
  sp_requester_uid :: requester_uid
  sp_operation_key :: operation_key
  sp_package_name :: package_name
  sp_generation :: u64

record request_summary =
  sm_request_id :: public_id
  sm_requester_uid :: requester_uid
  sm_state :: request_state
  sm_generation :: u64

datatype submit_outcome = Created request_summary | Existing request_summary

definition summary_from_values :: "public_id \<Rightarrow> i64 \<Rightarrow> bytes \<Rightarrow> i64 \<Rightarrow> broker_error + request_summary" where
  [run]: "summary_from_values request_id requester_uid state generation =
     rbind (u32_from_i64 NumericOutOfRange requester_uid) (\<lambda>uid.
     rbind (from_db state) (\<lambda>st.
     rbind (u64_from_i64 NumericOutOfRange generation) (\<lambda>gen.
       Inr \<lparr>sm_request_id = request_id, sm_requester_uid = RequesterUid uid, sm_state = st, sm_generation = gen\<rparr>)))"

definition uid_i64 :: "requester_uid \<Rightarrow> i64" where
  [run]: "uid_i64 u = ucast (as_u32 u)"

definition lookup_idempotency :: "database \<Rightarrow> requester_uid \<Rightarrow> operation_key
    \<Rightarrow> broker_error + (digest \<times> request_summary) option" where
  [run]: "lookup_idempotency db requester_uid operation_key =
     (case find (\<lambda>r. rr_requester_uid r = uid_i64 requester_uid \<and> rr_operation_key r = operation_key_str operation_key)
         (db_requests db) of
        None \<Rightarrow> Inr None
      | Some r \<Rightarrow>
          rbind (fixed_array Sqlite 32 (rr_input_digest r)) (\<lambda>digest.
          rbind (map_err (\<lambda>_. Sqlite) (PublicId_parse (rr_request_id r))) (\<lambda>request_id.
          rbind (map_err (\<lambda>_. Sqlite) (summary_from_values request_id (uid_i64 requester_uid) (rr_state r) (rr_generation r))) (\<lambda>summary.
            Inr (Some (digest, summary))))))"

definition new_request_row :: "hash \<Rightarrow> bytes \<Rightarrow> submit_package_install \<Rightarrow> i64 \<Rightarrow> request_row" where
  [run]: "new_request_row sha device_id request generation = \<lparr>
     rr_request_id = public_id_str (sp_request_id request), rr_device_id = device_id,
     rr_requester_uid = uid_i64 (sp_requester_uid request),
     rr_operation_key = operation_key_str (sp_operation_key request),
     rr_input_digest = input_digest sha (sp_package_name request),
     rr_package_name = package_name_str (sp_package_name request), rr_generation = generation,
     rr_state = str ''planning'', rr_boot_epoch = 0, rr_deadline_mono_ns = None, rr_plan_digest = None,
     rr_created_utc = 0, rr_updated_utc = 0, rr_receipt_bytes = None, rr_recovery_evidence = None,
     rr_request_digest = None, rr_request_cose = None, rr_request_nonce = None, rr_request_boot_id = None,
     rr_request_policy_id = None, rr_request_policy_digest = None, rr_request_frozen_plan = None,
     rr_request_expires_utc = None\<rparr>"

definition submit :: "env \<Rightarrow> install_policy \<Rightarrow> submit_package_install \<Rightarrow> broker_store \<Rightarrow> submit_outcome store_result" where
  [run]: "submit env policy request s =
     (if policy (sp_requester_uid request) (sp_package_name request) = PolicyDeny then Inl PolicyDenied
      else
        let db = bs_db s; digest = input_digest (e_sha env) (sp_package_name request) in
        rbind (lookup_idempotency db (sp_requester_uid request) (sp_operation_key request)) (\<lambda>existing.
        case existing of
          Some (existing_digest, summary) \<Rightarrow>
            if existing_digest = digest then Inr (Existing summary, s) else Inl IdempotencyConflict
        | None \<Rightarrow>
            (case find (\<lambda>r. rr_device_id r = bs_device_id s \<and> active_text (rr_state r)) (db_requests db) of
               Some r \<Rightarrow> Inl (Busy (rr_request_id r))
             | None \<Rightarrow>
                 rbind (i64_from_u64 NumericOutOfRange (sp_generation request)) (\<lambda>generation.
                 rbind (write_requests (db_requests db @ [new_request_row (e_sha env) (bs_device_id s) request generation]) db) (\<lambda>db.
                 rbind (insert_event \<lparr>er_request_id = public_id_str (sp_request_id request), er_sequence = 1,
                     er_state = str ''planning'', er_reason = reason_code ReasonCreated, er_previous_event_digest = None,
                     er_event_digest = lifecycle_event_digest (e_sha env) (sp_request_id request) 1 None Planning ReasonCreated\<rparr> db) (\<lambda>db.
                   Inr (Created \<lparr>sm_request_id = sp_request_id request, sm_requester_uid = sp_requester_uid request,
                       sm_state = Planning, sm_generation = sp_generation request\<rparr>, s\<lparr>bs_db := db\<rparr>)))))))"

section \<open>Decisions\<close>

record pending_request_context =
  px_created_utc :: i64
  px_expires_utc :: i64
  px_boot_id :: bytes
  px_deadline_mono_ns :: u64
  px_nonce :: bytes
  px_policy_id :: bytes
  px_policy_digest :: digest

record relying_party =
  rp_rp_id :: bytes
  rp_origin :: bytes

record credential_pin =
  cp_credential_id :: bytes
  cp_public_key_cose :: bytes
  cp_cose_algorithm :: i64

record decision_outcome =
  do_state :: request_state
  do_receipt_cose :: "bytes option"

text \<open>The request that is frozen for a decision.\<close>

definition pending_request :: "env \<Rightarrow> broker_store \<Rightarrow> public_id \<Rightarrow> request_row \<Rightarrow> frozen_plan \<Rightarrow> pending_request_context
    \<Rightarrow> broker_error + request" where
  [run]: "pending_request env s request_id r plan context =
     rbind (ok_or Sqlite (db_identity (bs_db s))) (\<lambda>identity.
     rbind (PublicId_bytes env request_id) (\<lambda>request_id_bytes.
     rbind (u64_from_i64 NumericOutOfRange (bi_broker_epoch identity)) (\<lambda>broker_epoch.
     rbind (u64_from_i64 NumericOutOfRange (rr_generation r)) (\<lambda>generation.
     rbind (u64_from_i64 NumericOutOfRange (rr_requester_uid r)) (\<lambda>requester_uid.
     rbind (map_err (\<lambda>_. CorruptState) (OperationInput_package_install (rr_package_name r))) (\<lambda>input.
       Inr \<lparr>rq_request_id = request_id_bytes, rq_device_id = bs_device_id_bytes s, rq_broker_epoch = broker_epoch,
            rq_generation = generation, rq_created_utc = px_created_utc context, rq_expires_utc = px_expires_utc context,
            rq_boot_id = px_boot_id context, rq_deadline_mono_ns = px_deadline_mono_ns context, rq_nonce = px_nonce context,
            rq_requester_uid = requester_uid, rq_operation = PackageInstall, rq_operation_input = input,
            rq_policy_id = px_policy_id context, rq_policy_digest = px_policy_digest context,
            rq_plan_digest = fp_plan_digest plan, rq_frozen_plan = FrozenPlan_to_cbor plan, rq_agent_note = None\<rparr>))))))"

definition prepare_for_decision :: "env \<Rightarrow> public_id \<Rightarrow> frozen_plan \<Rightarrow> pending_request_context \<Rightarrow> broker_signing_key
    \<Rightarrow> broker_store \<Rightarrow> bytes store_result" where
  [run]: "prepare_for_decision env request_id plan context signer s =
     (if sint (px_expires_utc context) < sint (px_created_utc context) then Inl CorruptState
      else
        let db = bs_db s in
        rbind (ensure_identity db signer) (\<lambda>_.
        case find_request db (public_id_str request_id) of
          None \<Rightarrow> race_lost db request_id
        | Some r \<Rightarrow>
            if rr_state r \<noteq> str ''planning'' then race_lost db request_id
            else if rr_package_name r \<noteq> package_name_str (fp_package_name plan) then Inl CorruptState
            else
              rbind (pending_request env s request_id r plan context) (\<lambda>request.
              rbind (map_err (\<lambda>_. ReceiptFailed) (Request_digest (e_sha env) request)) (\<lambda>request_digest.
              rbind (map_err (\<lambda>_. ReceiptFailed) (Request_canonical_bytes request)) (\<lambda>payload.
              rbind (sign_envelope env signer payload 1 DomainRequest) (\<lambda>request_cose.
              rbind (map_err (\<lambda>_. ReceiptFailed) (encode (rq_frozen_plan request))) (\<lambda>frozen_plan.
              rbind (append_transition env request_id (Some Planning) Pending ReasonPlannerPending db) (\<lambda>db.
              rbind (i64_from_u64 NumericOutOfRange (px_deadline_mono_ns context)) (\<lambda>deadline.
              rbind (write_requests (update_request (public_id_str request_id) (\<lambda>r. r\<lparr>
                  rr_plan_digest := Some (fp_plan_digest plan), rr_request_digest := Some request_digest,
                  rr_request_cose := Some request_cose, rr_request_nonce := Some (px_nonce context),
                  rr_request_boot_id := Some (px_boot_id context), rr_request_policy_id := Some (px_policy_id context),
                  rr_request_policy_digest := Some (px_policy_digest context), rr_request_frozen_plan := Some frozen_plan,
                  rr_request_expires_utc := Some (px_expires_utc context), rr_deadline_mono_ns := Some deadline,
                  rr_created_utc := px_created_utc context, rr_updated_utc := px_created_utc context\<rparr>) db) db) (\<lambda>db.
                Inr (request_cose, s\<lparr>bs_db := db\<rparr>)))))))))))"

fun insert_credentials :: "i64 \<Rightarrow> credential_pin list \<Rightarrow> database \<Rightarrow> broker_error + database" where
  "insert_credentials generation [] db = Inr db"
| "insert_credentials generation (c # cs) db =
     rbind (insert_credential \<lparr>cd_credential_id = cp_credential_id c, cd_generation = generation,
         cd_cose_algorithm = cp_cose_algorithm c, cd_public_key_cose = cp_public_key_cose c,
         cd_sign_count = 0, cd_quarantined = 0\<rparr> db) (insert_credentials generation cs)"

definition replace_credentials :: "u64 \<Rightarrow> credential_pin list \<Rightarrow> broker_store \<Rightarrow> unit store_result" where
  [run]: "replace_credentials generation credentials s =
     (if credentials = [] \<or> list_ex (\<lambda>c. cp_credential_id c = [] \<or> 1024 < length (cp_credential_id c)
           \<or> cp_public_key_cose c = [] \<or> 4096 < length (cp_public_key_cose c)
           \<or> cp_cose_algorithm c \<noteq> ES256_ALGORITHM) credentials
      then Inl CorruptState
      else
        rbind (i64_from_u64 NumericOutOfRange generation) (\<lambda>generation.
        rbind (insert_credentials generation credentials ((bs_db s)\<lparr>db_credentials := []\<rparr>)) (\<lambda>db.
          Inr ((), s\<lparr>bs_db := db\<lparr>db_credential_generation := generation\<rparr>\<rparr>))))"

definition approval_context :: "env \<Rightarrow> public_id \<Rightarrow> decision \<Rightarrow> relying_party \<Rightarrow> broker_store
    \<Rightarrow> broker_error + approval_context" where
  [run]: "approval_context env request_id decision rp s =
     rbind (ok_or Sqlite (find_request (bs_db s) (public_id_str request_id))) (\<lambda>r.
     rbind (ok_or Sqlite (rr_request_digest r)) (\<lambda>request_digest.
     rbind (ok_or Sqlite (rr_request_nonce r)) (\<lambda>nonce.
     rbind (from_db (rr_state r)) (\<lambda>state.
     if state \<noteq> Pending then Inl (LifecycleRaceLost state)
     else
       rbind (ok_or Sqlite (db_identity (bs_db s))) (\<lambda>identity.
       rbind (PublicId_bytes env request_id) (\<lambda>request_id_bytes.
       rbind (u64_from_i64 NumericOutOfRange (bi_broker_epoch identity)) (\<lambda>broker_epoch.
       rbind (fixed_array CorruptState 32 request_digest) (\<lambda>request_digest.
       rbind (u64_from_i64 NumericOutOfRange (rr_generation r)) (\<lambda>generation.
       rbind (fixed_array CorruptState 32 nonce) (\<lambda>nonce.
       rbind (ok_or CorruptState (rr_request_expires_utc r)) (\<lambda>expires_utc.
         Inr \<lparr>ac_request_id = request_id_bytes, ac_device_id = bs_device_id_bytes s, ac_broker_epoch = broker_epoch,
              ac_request_digest = request_digest, ac_generation = generation, ac_nonce = nonce,
              ac_rp_id = rp_rp_id rp, ac_origin = rp_origin rp, ac_decision = decision,
              ac_expires_utc = expires_utc\<rparr>)))))))))))"

definition deadline_elapsed :: "public_id \<Rightarrow> u64 \<Rightarrow> broker_store \<Rightarrow> broker_error + bool" where
  [run]: "deadline_elapsed request_id now_mono_ns s =
     rbind (ok_or Sqlite (find_request (bs_db s) (public_id_str request_id))) (\<lambda>r.
     rbind (ok_or CorruptState (rr_deadline_mono_ns r)) (\<lambda>deadline.
     rbind (u64_from_i64 NumericOutOfRange deadline) (\<lambda>deadline.
       Inr (deadline \<le> now_mono_ns))))"

definition credential_generation :: "broker_store \<Rightarrow> broker_error + u64" where
  [run]: "credential_generation s = u64_from_i64 NumericOutOfRange (db_credential_generation (bs_db s))"

definition pinned_credential_of :: "credential_row \<Rightarrow> broker_error + pinned_credential" where
  [run]: "pinned_credential_of c =
     rbind (u64_from_i64 Sqlite (cd_generation c)) (\<lambda>generation.
     rbind (u32_from_i64 Sqlite (cd_sign_count c)) (\<lambda>previous_sign_count.
       Inr \<lparr>pc_credential_id = cd_credential_id c, pc_generation = generation, pc_quarantined = (cd_quarantined c \<noteq> 0),
            pc_cose_algorithm = cd_cose_algorithm c, pc_previous_sign_count = previous_sign_count\<rparr>))"

definition pinned_credentials :: "u64 \<Rightarrow> broker_store \<Rightarrow> broker_error + pinned_credential list" where
  [run]: "pinned_credentials generation s =
     rbind (i64_from_u64 NumericOutOfRange generation) (\<lambda>generation.
       collect_results (map pinned_credential_of
         (filter (\<lambda>c. cd_generation c = generation) (db_credentials (bs_db s)))))"

text \<open>\<^verbatim>\<open>UPDATE credentials SET sign_count = MAX(sign_count, ?1) WHERE credential_id = ?2\<close>.\<close>

definition raise_sign_count :: "u32 \<Rightarrow> bytes \<Rightarrow> database \<Rightarrow> database" where
  [run]: "raise_sign_count n credential_id db = db\<lparr>db_credentials :=
     map (\<lambda>c. if cd_credential_id c = credential_id
              then c\<lparr>cd_sign_count := (if sint (cd_sign_count c) < sint (ucast n :: i64) then ucast n else cd_sign_count c)\<rparr>
              else c) (db_credentials db)\<rparr>"

text \<open>The transaction of \<^verbatim>\<open>apply_webauthn_submission\<close> after the assertion was verified.\<close>

definition commit_decision :: "env \<Rightarrow> bytes option \<Rightarrow> public_id \<Rightarrow> decision_submission \<Rightarrow> approval_context \<Rightarrow> verified_assertion
    \<Rightarrow> broker_signing_key \<Rightarrow> i64 \<Rightarrow> broker_store \<Rightarrow> decision_outcome store_result" where
  [run]: "commit_decision env rnd request_id submission context verified signer now_utc s =
     (let db = bs_db s in
      rbind (ensure_identity db signer) (\<lambda>_.
      rbind (ok_or Sqlite (find_request db (public_id_str request_id))) (\<lambda>r.
      rbind (from_db (rr_state r)) (\<lambda>state.
      if state \<noteq> Pending then Inl (LifecycleRaceLost state)
      else
        rbind (u64_from_i64 NumericOutOfRange (db_credential_generation db)) (\<lambda>current_generation.
        if current_generation \<noteq> ac_generation context then
          rbind (append_transition env request_id (Some Pending) Stale ReasonGenerationStale db) (\<lambda>db.
          rbind (create_receipt env rnd request_id Stale signer now_utc [] db) (\<lambda>(receipt, db).
            Inr (\<lparr>do_state = Stale, do_receipt_cose = Some receipt\<rparr>, s\<lparr>bs_db := db\<rparr>)))
        else
          let next = (case va_decision verified of Approve \<Rightarrow> Approved | Deny \<Rightarrow> Denied) in
          rbind (append_transition env request_id (Some Pending) next (transition_reason next) db) (\<lambda>db.
          let db = raise_sign_count (va_sign_count verified) (va_credential_id verified) db in
          if is_terminal next then
            rbind (create_receipt env rnd request_id next signer now_utc
              [CMap [(Unsigned 1, Bytes (ds_credential_id submission)),
                     (Unsigned 2, CBool (va_counter_anomaly verified))]] db) (\<lambda>(receipt, db).
              Inr (\<lparr>do_state = next, do_receipt_cose = Some receipt\<rparr>, s\<lparr>bs_db := db\<rparr>))
          else Inr (\<lparr>do_state = next, do_receipt_cose = None\<rparr>, s\<lparr>bs_db := db\<rparr>)))))))"

definition apply_webauthn_submission :: "env \<Rightarrow> webauthn_verifier \<Rightarrow> bytes option \<Rightarrow> public_id \<Rightarrow> decision_submission
    \<Rightarrow> relying_party \<Rightarrow> broker_signing_key \<Rightarrow> u64 \<Rightarrow> i64 \<Rightarrow> broker_store \<Rightarrow> decision_outcome store_result" where
  [run]: "apply_webauthn_submission env verifier rnd request_id submission rp signer now_mono_ns now_utc s =
     rbind (approval_context env request_id (ac_decision (ds_approval_context submission)) rp s) (\<lambda>context.
     if context \<noteq> ds_approval_context submission then Inl (WebAuthnFailed ContextMismatch)
     else
       rbind (if sint (ac_expires_utc context) \<le> sint now_utc then Inr True
              else deadline_elapsed request_id now_mono_ns s) (\<lambda>expired.
       if expired then
         rbind (transition_terminal env rnd request_id Pending Expired signer now_utc s) (\<lambda>(receipt, s).
           Inr (\<lparr>do_state = Expired, do_receipt_cose = Some receipt\<rparr>, s))
       else
         rbind (credential_generation s) (\<lambda>active_generation.
         if active_generation \<noteq> ac_generation context then
           rbind (transition_terminal env rnd request_id Pending Stale signer now_utc s) (\<lambda>(receipt, s).
             Inr (\<lparr>do_state = Stale, do_receipt_cose = Some receipt\<rparr>, s))
         else
           rbind (pinned_credentials active_generation s) (\<lambda>credentials.
           rbind (map_err WebAuthnFailed (verify_submission (e_sha env) verifier context credentials submission)) (\<lambda>verified.
             commit_decision env rnd request_id submission context verified signer now_utc s)))))"

section \<open>Queries\<close>

definition receipt :: "public_id \<Rightarrow> broker_store \<Rightarrow> broker_error + bytes option" where
  [run]: "receipt request_id s =
     Inr (map_option cr_cose_bytes (find (\<lambda>c. cr_request_id c = public_id_str request_id) (db_receipts (bs_db s))))"

definition request_summary_of :: "public_id \<Rightarrow> broker_store \<Rightarrow> broker_error + request_summary option" where
  [run]: "request_summary_of request_id s =
     (case find_request (bs_db s) (public_id_str request_id) of
        None \<Rightarrow> Inr None
      | Some r \<Rightarrow> map_ok Some (map_err (\<lambda>_. Sqlite)
          (summary_from_values request_id (rr_requester_uid r) (rr_state r) (rr_generation r))))"

definition event_of_row :: "event_row \<Rightarrow> broker_error + lifecycle_event" where
  [run]: "event_of_row e =
     rbind (case er_previous_event_digest e of None \<Rightarrow> Inr None
            | Some d \<Rightarrow> map_ok Some (fixed_array CorruptState 32 d)) (\<lambda>previous.
     rbind (fixed_array CorruptState 32 (er_event_digest e)) (\<lambda>digest.
     rbind (u64_from_i64 NumericOutOfRange (er_sequence e)) (\<lambda>sequence.
     rbind (from_db (er_state e)) (\<lambda>state.
     rbind (transition_reason_from_code (er_reason e)) (\<lambda>reason.
       Inr \<lparr>ev_sequence = sequence, ev_previous_event_digest = previous, ev_state = state, ev_reason = reason,
            ev_event_digest = digest\<rparr>)))))"

definition events :: "public_id \<Rightarrow> broker_store \<Rightarrow> broker_error + lifecycle_event list" where
  [run]: "events request_id s = collect_results (map event_of_row (events_of (bs_db s) (public_id_str request_id)))"

end
