(* ===== verification/Store_Invariants.thy ===== *)
theory Store_Invariants
  imports Store
begin

text \<open>
  The invariant of the durable store and the effect of every operation on it. A request is seen
  through three views: its row (\<open>find_request\<close>), its event rows in the order they were inserted
  (\<open>event_rows\<close>) and its receipts (\<open>receipt_rows\<close>). \<open>db_inv\<close> states that the event rows of
  every request are a correct hash chain that ends in the state of the row, and that a receipt
  exists exactly in a terminal state. \<open>advanced\<close> is the effect of one
  transition of one request.
\<close>

section \<open>Statements that succeed\<close>

lemma write_requests_ok [ok_iff]:
  "write_requests rs db = Inr db' \<longleftrightarrow> requests_ok rs \<and> db' = db\<lparr>db_requests := rs\<rparr>"
  by (auto simp: write_requests_def)

lemma insert_receipt_ok [ok_iff]:
  "insert_receipt c db = Inr db' \<longleftrightarrow>
     cr_receipt_id c \<notin> set (map cr_receipt_id (db_receipts db))
   \<and> cr_request_id c \<notin> set (map cr_request_id (db_receipts db))
   \<and> cr_request_id c \<in> set (map rr_request_id (db_requests db))
   \<and> 0 \<le> sint (cr_requester_uid c)
   \<and> db' = db\<lparr>db_receipts := db_receipts db @ [c]\<rparr>"
  by (auto simp: insert_receipt_def)

lemma i64_from_u64_ok [ok_iff]: "i64_from_u64 e w = Inr v \<longleftrightarrow> uint w < 2 ^ 63 \<and> v = w"
  by (auto simp: i64_from_u64_def)

lemma u64_from_i64_ok [ok_iff]: "u64_from_i64 e w = Inr v \<longleftrightarrow> 0 \<le> sint w \<and> v = w"
  by (auto simp: u64_from_i64_def)

lemma fixed_array_ok [ok_iff]: "fixed_array e n b = Inr c \<longleftrightarrow> length b = n \<and> c = b"
  by (auto simp: fixed_array_def)

lemma race_lost_not_ok [simp]: "race_lost db i \<noteq> Inr x" "(race_lost db i = Inr x) = False"
  by (auto simp: race_lost_def ok_iff split: option.splits)

lemma ensure_identity_ok [ok_iff]:
  "ensure_identity db signer = Inr u \<longleftrightarrow>
     (\<exists>i. db_identity db = Some i \<and> bi_key_kid i = sg_kid signer \<and> bi_public_key i = sg_public_key signer)"
  by (auto simp: ensure_identity_def split: option.splits)

section \<open>Small sequence numbers\<close>

lemma sint_small: "n < 2 ^ 63 \<Longrightarrow> sint (of_nat n :: i64) = int n"
  by (simp add: signed_of_nat signed_take_bit_int_eq_self)

lemma uint_small: "n < 2 ^ 63 \<Longrightarrow> uint (of_nat n :: u64) = int n"
  by (simp add: unsigned_of_nat take_bit_nat_eq_self)

section \<open>Views of one request\<close>

definition event_rows :: "database \<Rightarrow> bytes \<Rightarrow> event_row list" where
  "event_rows db i = filter (\<lambda>e. er_request_id e = i) (db_events db)"

definition receipt_rows :: "database \<Rightarrow> bytes \<Rightarrow> receipt_row list" where
  "receipt_rows db i = filter (\<lambda>c. cr_request_id c = i) (db_receipts db)"

definition state_of :: "request_row \<Rightarrow> request_state" where
  "state_of r = (case from_db (rr_state r) of Inr s \<Rightarrow> s | Inl _ \<Rightarrow> Planning)"

lemma view_update [simp]:
  "event_rows (db\<lparr>db_requests := rs\<rparr>) = event_rows db"
  "event_rows (db\<lparr>db_receipts := cs\<rparr>) = event_rows db"
  "event_rows (db\<lparr>db_credentials := ks\<rparr>) = event_rows db"
  "event_rows (db\<lparr>db_boot_epoch := n\<rparr>) = event_rows db"
  "event_rows (db\<lparr>db_credential_generation := n\<rparr>) = event_rows db"
  "event_rows (db\<lparr>db_identity := x\<rparr>) = event_rows db"
  "receipt_rows (db\<lparr>db_requests := rs\<rparr>) = receipt_rows db"
  "receipt_rows (db\<lparr>db_events := es\<rparr>) = receipt_rows db"
  "receipt_rows (db\<lparr>db_credentials := ks\<rparr>) = receipt_rows db"
  "receipt_rows (db\<lparr>db_boot_epoch := n\<rparr>) = receipt_rows db"
  "receipt_rows (db\<lparr>db_credential_generation := n\<rparr>) = receipt_rows db"
  "receipt_rows (db\<lparr>db_identity := x\<rparr>) = receipt_rows db"
  "find_request (db\<lparr>db_events := es\<rparr>) = find_request db"
  "find_request (db\<lparr>db_receipts := cs\<rparr>) = find_request db"
  "find_request (db\<lparr>db_credentials := ks\<rparr>) = find_request db"
  "find_request (db\<lparr>db_boot_epoch := n\<rparr>) = find_request db"
  "find_request (db\<lparr>db_credential_generation := n\<rparr>) = find_request db"
  "find_request (db\<lparr>db_identity := x\<rparr>) = find_request db"
  by (simp_all add: event_rows_def receipt_rows_def find_request_def fun_eq_iff)

lemma view_append [simp]:
  "event_rows (db\<lparr>db_events := db_events db @ [e]\<rparr>) i = event_rows db i @ (if er_request_id e = i then [e] else [])"
  "receipt_rows (db\<lparr>db_receipts := db_receipts db @ [c]\<rparr>) i = receipt_rows db i @ (if cr_request_id c = i then [c] else [])"
  by (simp_all add: event_rows_def receipt_rows_def)

lemma find_map_if:
  assumes "\<And>r. key (f r) = key r"
  shows "find (\<lambda>r. key r = j) (map (\<lambda>r. if key r = i then f r else r) rs)
     = (if j = i then map_option f (find (\<lambda>r. key r = j) rs) else find (\<lambda>r. key r = j) rs)"
  by (induction rs) (auto simp: assms)

lemma find_update_request [simp]:
  assumes "\<And>r. rr_request_id (f r) = rr_request_id r"
  shows "find_request (db\<lparr>db_requests := update_request i f db'\<rparr>) j =
     (if j = i then map_option f (find_request db' j) else find_request db' j)"
  using find_map_if [of rr_request_id f] assms by (simp add: find_request_def update_request_def)

lemma find_request_SomeD:
  "find_request db i = Some r \<Longrightarrow> r \<in> set (db_requests db) \<and> rr_request_id r = i"
  unfolding find_request_def by (rule find_SomeD)

lemma find_request_id: "find_request db i = Some r \<Longrightarrow> rr_request_id r = i"
  using find_request_SomeD by blast

lemma find_request_iff:
  assumes "distinct (map rr_request_id (db_requests db))"
  shows "find_request db i = Some r \<longleftrightarrow> r \<in> set (db_requests db) \<and> rr_request_id r = i"
proof
  assume "r \<in> set (db_requests db) \<and> rr_request_id r = i"
  moreover from this obtain r' where "find_request db i = Some r'"
    by (cases "find_request db i") (auto simp: find_request_def find_None_iff)
  ultimately show "find_request db i = Some r"
    using assms find_request_SomeD [of db i r'] by (metis distinct_map inj_onD)
qed (rule find_request_SomeD)

lemma find_request_None: "find_request db i = None \<longleftrightarrow> i \<notin> rr_request_id ` set (db_requests db)"
  by (auto simp: find_request_def find_None_iff)

section \<open>Rows of the table \<^verbatim>\<open>requests\<close>\<close>

lemma as_db_range: "set [str ''planning'', str ''pending'', str ''approved'', str ''executing'', str ''no_change'',
       str ''invalid'', str ''denied'', str ''expired'', str ''cancelled'', str ''stale'', str ''succeeded'', str ''failed'',
       str ''recovery_required''] = as_db ` UNIV"
proof -
  have all: "UNIV = set [Planning, Pending, Approved, Executing, NoChange, Invalid, Denied, Expired, Cancelled, Stale,
      Succeeded, Failed, RecoveryRequired]" 
    using request_state.exhaust by auto
  show ?thesis unfolding all by simp
qed

lemma request_checks_state:
  assumes "request_checks r"
  shows "rr_state r = as_db (state_of r)"
proof -
  have "rr_state r \<in> as_db ` UNIV"
    using assms unfolding request_checks_def as_db_range by blast
  then show ?thesis by (auto simp: state_of_def from_as_db)
qed

lemma active_text_as_db [simp]: "active_text (as_db s) \<longleftrightarrow> is_active s"
  by (cases s) (simp_all add: active_text_def is_active_def str_def)

lemma state_of_as_db: "rr_state r = as_db s \<Longrightarrow> state_of r = s"
  by (simp add: state_of_def from_as_db)

lemma state_of_update [simp]: "state_of (r\<lparr>rr_state := as_db s\<rparr>) = s"
  by (simp add: state_of_def from_as_db)

lemma requests_ok_checks: "requests_ok rs \<Longrightarrow> r \<in> set rs \<Longrightarrow> request_checks r"
  by (simp add: requests_ok_def list_all_iff)

lemma requests_ok_state: "requests_ok (db_requests db) \<Longrightarrow> find_request db i = Some r \<Longrightarrow> rr_state r = as_db (state_of r)"
  by (meson find_request_SomeD requests_ok_checks request_checks_state)

lemma distinct_map_filter_subset:
  "distinct (map f (filter P xs)) \<Longrightarrow> (\<And>x. Q x \<Longrightarrow> P x) \<Longrightarrow> distinct (map f (filter Q xs))"
  by (induction xs) (auto split: if_splits)

lemma requests_ok_update:
  assumes ok: "requests_ok (db_requests db)"
    and keep: "\<And>r. rr_request_id (f r) = rr_request_id r" "\<And>r. rr_requester_uid (f r) = rr_requester_uid r"
      "\<And>r. rr_operation_key (f r) = rr_operation_key r" "\<And>r. rr_device_id (f r) = rr_device_id r"
    and act: "\<And>r. find_request db i = Some r \<Longrightarrow> active_text (rr_state (f r)) \<Longrightarrow> active_text (rr_state r)"
    and checks: "\<And>r. find_request db i = Some r \<Longrightarrow> request_checks (f r)"
  shows "requests_ok (update_request i f db)"
proof -
  let ?g = "\<lambda>r. if rr_request_id r = i then f r else r"
  have at: "find_request db i = Some r" if "r \<in> set (db_requests db)" "rr_request_id r = i" for r
    using that ok by (simp add: find_request_iff requests_ok_def)
  have "map rr_request_id (update_request i f db) = map rr_request_id (db_requests db)"
    "map (\<lambda>r. (rr_requester_uid r, rr_operation_key r)) (update_request i f db)
      = map (\<lambda>r. (rr_requester_uid r, rr_operation_key r)) (db_requests db)"
    by (simp_all add: update_request_def keep)
  moreover have "distinct (map rr_device_id (filter (\<lambda>r. active_text (rr_state r)) (update_request i f db)))"
  proof -
    have "map rr_device_id (filter (\<lambda>r. active_text (rr_state r)) (update_request i f db))
        = map rr_device_id (filter (\<lambda>r. r \<in> set (db_requests db) \<and> active_text (rr_state (?g r))) (db_requests db))"
      by (simp add: update_request_def filter_map o_def keep if_distrib cong: filter_cong map_cong)
    also have "distinct \<dots>"
      by (rule distinct_map_filter_subset [where P = "\<lambda>r. active_text (rr_state r)"])
         (use ok act at in \<open>auto simp: requests_ok_def split: if_splits\<close>)
    finally show ?thesis .
  qed
  moreover have "list_all request_checks (update_request i f db)"
    using ok checks at by (auto simp: update_request_def list_all_iff requests_ok_def)
  ultimately show ?thesis using ok by (simp add: requests_ok_def)
qed

section \<open>Invariant\<close>

text \<open>The edges a stored request moves along: the permitted ones, and the expiry of a request that
  is still being planned when the machine reboots.\<close>

definition store_edge :: "request_state \<Rightarrow> request_state \<Rightarrow> bool" where
  "store_edge s t \<longleftrightarrow> permits s t \<or> s = Planning \<and> t = Expired"

lemma store_edge_rank: "store_edge s t \<Longrightarrow> rank s < rank t"
  by (auto simp: store_edge_def permits_rank)

lemma store_edge_terminal: "store_edge s t \<Longrightarrow> \<not> is_terminal s"
  using terminal_absorbing by (auto simp: store_edge_def)

definition row_of_event :: "bytes \<Rightarrow> lifecycle_event \<Rightarrow> event_row" where
  "row_of_event i e = \<lparr>er_request_id = i, er_sequence = ev_sequence e, er_state = as_db (ev_state e),
     er_reason = reason_code (ev_reason e), er_previous_event_digest = ev_previous_event_digest e,
     er_event_digest = ev_event_digest e\<rparr>"

definition history_inv :: "hash \<Rightarrow> bytes \<Rightarrow> request_state \<Rightarrow> lifecycle_event list \<Rightarrow> bool" where
  "history_inv sha i s es \<longleftrightarrow>
     chain sha (PublicId i) 0 None es
   \<and> es \<noteq> [] \<and> ev_state (hd es) = Planning \<and> successively (\<lambda>a b. store_edge (ev_state a) (ev_state b)) es
   \<and> ev_state (last es) = s \<and> length es \<le> Suc (rank s)
   \<and> list_all (\<lambda>e. length (ev_event_digest e) = 32) es"

definition receipts_inv :: "request_state \<Rightarrow> request_row \<Rightarrow> receipt_row list \<Rightarrow> bool" where
  "receipts_inv s r cs \<longleftrightarrow>
     (if is_terminal s
      then \<exists>c. cs = [c] \<and> cr_terminal_state c = as_db s \<and> cr_requester_uid c = rr_requester_uid r
         \<and> rr_receipt_bytes r = Some (cr_cose_bytes c)
      else cs = [] \<and> rr_receipt_bytes r = None)"

text \<open>\<open>db_inv sha X db\<close>: the tables are consistent; the requests in \<open>X\<close> have no receipt yet. \<open>X\<close> is
  empty outside a transaction.\<close>

definition request_inv :: "hash \<Rightarrow> bytes set \<Rightarrow> database \<Rightarrow> bytes \<Rightarrow> request_row \<Rightarrow> bool" where
  "request_inv sha X db i r \<longleftrightarrow>
     (\<exists>es. event_rows db i = map (row_of_event i) es \<and> history_inv sha i (state_of r) es)
   \<and> (if i \<in> X then receipt_rows db i = [] \<and> rr_receipt_bytes r = None
      else receipts_inv (state_of r) r (receipt_rows db i))
   \<and> rr_boot_epoch r = 0"

definition db_inv :: "hash \<Rightarrow> bytes set \<Rightarrow> database \<Rightarrow> bool" where
  "db_inv sha X db \<longleftrightarrow> requests_ok (db_requests db)
   \<and> (\<forall>i. case find_request db i of
           None \<Rightarrow> event_rows db i = [] \<and> receipt_rows db i = []
         | Some r \<Rightarrow> request_inv sha X db i r)"

lemma db_inv_at: "db_inv sha X db \<Longrightarrow> find_request db i = Some r \<Longrightarrow> request_inv sha X db i r"
  by (auto simp: db_inv_def split: option.splits dest: spec [of _ i])

lemma db_inv_ok: "db_inv sha X db \<Longrightarrow> requests_ok (db_requests db)"
  by (simp add: db_inv_def)

lemma db_inv_state: "db_inv sha X db \<Longrightarrow> find_request db i = Some r \<Longrightarrow> rr_state r = as_db (state_of r)"
  using requests_ok_state db_inv_ok by blast

lemma db_inv_update [simp]:
  "db_inv sha X (db\<lparr>db_credentials := ks\<rparr>) = db_inv sha X db"
  "db_inv sha X (db\<lparr>db_boot_epoch := n\<rparr>) = db_inv sha X db"
  "db_inv sha X (db\<lparr>db_credential_generation := n\<rparr>) = db_inv sha X db"
  "db_inv sha X (db\<lparr>db_identity := x\<rparr>) = db_inv sha X db"
  by (simp_all add: db_inv_def request_inv_def cong: option.case_cong)

lemma db_inv_empty: "db_inv sha {} empty_database"
  by (simp add: db_inv_def empty_database_def requests_ok_def find_request_def event_rows_def receipt_rows_def)

section \<open>The stored chain\<close>

lemma chain_sequences:
  "chain sha i n prev es \<Longrightarrow> map ev_sequence es = map (\<lambda>k. of_nat (Suc (n + k))) [0..<length es]"
proof (induction es arbitrary: n prev)
  case (Cons e es)
  then have "ev_sequence e = of_nat (Suc n)"
    using arg_cong [of e _ ev_sequence] by (metis chain.simps(2) event_of_def lifecycle_event.select_convs(1))
  moreover have "map ev_sequence es = map (\<lambda>k. of_nat (Suc (Suc n + k))) [0..<length es]"
    using Cons.prems by (intro Cons.IH [where prev = "Some (ev_event_digest e)"]) simp
  moreover have "[0..<length (e # es)] = 0 # map Suc [0..<length es]"
    by (simp add: upt_conv_Cons map_Suc_upt del: upt_Suc)
  ultimately show ?case by (simp add: o_def del: upt_Suc of_nat_Suc)
qed simp

lemma history_short: "history_inv sha i s es \<Longrightarrow> length es \<le> 6"
  using rank_le [of s] by (simp add: history_inv_def)

lemma history_sorted:
  assumes "history_inv sha i s es"
  shows "sorted (map (\<lambda>e. sint (er_sequence e)) (map (row_of_event i) es))"
proof -
  have "map (\<lambda>e. sint (er_sequence e)) (map (row_of_event i) es) = map sint (map ev_sequence es)"
    by (simp add: row_of_event_def)
  also have "\<dots> = map (\<lambda>k. int (Suc k)) [0..<length es]"
    using assms history_short [OF assms] chain_sequences [of sha "PublicId i" 0 None es]
    by (simp add: history_inv_def sint_small del: of_nat_Suc)
  finally show ?thesis
    by (simp add: sorted_iff_nth_mono)
qed

lemma events_of_rows:
  assumes "event_rows db i = map (row_of_event i) es" and "history_inv sha i s es"
  shows "events_of db i = map (row_of_event i) es"
  using history_sorted [OF assms(2)] assms(1) by (simp add: events_of_def event_rows_def sorted_sort_id sort_key_id_if_sorted)

lemma latest_event_rows:
  assumes "event_rows db i = map (row_of_event i) es" and "history_inv sha i s es"
  shows "latest_event db i = Some (row_of_event i (last es))"
  using events_of_rows [OF assms] assms(2)
  by (cases es) (auto simp: latest_event_def history_inv_def last_map)

lemma history_last:
  assumes "history_inv sha i s es"
  shows "ev_sequence (last es) = of_nat (length es)" and "length (ev_event_digest (last es)) = 32"
    and "last_digest None es = Some (ev_event_digest (last es))"
proof -
  from assms obtain fs f where es: "es = fs @ [f]" by (cases es rule: rev_cases) (auto simp: history_inv_def)
  with assms show "ev_sequence (last es) = of_nat (length es)"
    using chain_last(1) [of sha "PublicId i" fs f] by (simp add: history_inv_def)
  show "length (ev_event_digest (last es)) = 32" using assms es by (simp add: history_inv_def)
  show "last_digest None es = Some (ev_event_digest (last es))" using es by (simp add: last_digest_def)
qed

definition next_event :: "hash \<Rightarrow> bytes \<Rightarrow> lifecycle_event list \<Rightarrow> request_state \<Rightarrow> reason \<Rightarrow> lifecycle_event" where
  "next_event sha i es s c = event_of sha (PublicId i) (of_nat (Suc (length es))) (last_digest None es) s c"

lemma history_next:
  assumes "history_inv sha i s es" and "store_edge s t" and "length (ev_event_digest (next_event sha i es t c)) = 32"
  shows "history_inv sha i t (es @ [next_event sha i es t c])"
  using assms store_edge_rank [OF assms(2)]
  by (auto simp: history_inv_def chain_append next_event_def event_of_def successively_append_iff)

lemma sequence_fresh:
  assumes "event_rows db i = map (row_of_event i) es" and "history_inv sha i s es"
  shows "(i, of_nat (Suc (length es))) \<notin> (\<lambda>x. (er_request_id x, er_sequence x)) ` set (db_events db)"
proof
  assume "(i, of_nat (Suc (length es))) \<in> (\<lambda>x. (er_request_id x, er_sequence x)) ` set (db_events db)"
  then obtain x where "x \<in> set (event_rows db i)" "er_sequence x = of_nat (Suc (length es))"
    by (auto simp: event_rows_def)
  with assms have "of_nat (Suc (length es)) \<in> set (map ev_sequence es)"
    by (force simp: row_of_event_def simp del: of_nat_Suc)
  with assms(2) obtain k where "k < length es" "(of_nat (Suc (length es)) :: u64) = of_nat (Suc k)"
    using chain_sequences [of sha "PublicId i" 0 None es] by (auto simp: history_inv_def simp del: of_nat_Suc)
  with history_short [OF assms(2)] of_nat_u64_inject [of "Suc (length es)" "Suc k"] show False by simp
qed

lemma append_store_event_eq:
  assumes rows: "event_rows db i = map (row_of_event i) es" and hist: "history_inv sha i s es"
    and i: "public_id_str rid = i" and there: "find_request db i \<noteq> None" and sha: "e_sha env = sha"
    and succ: "\<And>n. unat n < 10 \<Longrightarrow> ns n = Inr (n + 1)"
  shows "append_store_event env ns rid t c db =
     (if length (ev_event_digest (next_event sha i es t c)) = 32
      then Inr (db\<lparr>db_events := db_events db @ [row_of_event i (next_event sha i es t c)]\<rparr>)
      else Inl Sqlite)"
proof -
  have short: "length es \<le> 6" by (rule history_short [OF hist])
  have n: "(of_nat (length es) :: u64) + 1 = of_nat (Suc (length es))" by simp
  have "ns (of_nat (length es)) = Inr (of_nat (Suc (length es)))"
    using succ [of "of_nat (length es)"] short by (simp add: unat_of_nat)
  moreover have "0 \<le> sint (of_nat (length es) :: i64)" "0 < sint (of_nat (Suc (length es)) :: i64)"
    "uint (of_nat (Suc (length es)) :: u64) < 2 ^ 63"
    using short sint_small [of "length es"] sint_small [of "Suc (length es)"] uint_small [of "Suc (length es)"] by simp_all
  moreover have "0 < sint (reason_code c)" by (cases c) simp_all
  moreover have "i \<in> rr_request_id ` set (db_requests db)" using there by (simp add: find_request_None)
  moreover have "rid = PublicId i" using i by (cases rid) simp
  ultimately show ?thesis
    using latest_event_rows [OF rows hist] history_last [OF hist] sequence_fresh [OF rows hist]
    by (simp add: append_store_event_def i row_of_event_def u64_from_i64_def fixed_array_def i64_from_u64_def
        insert_event_def opt_length_def next_event_def event_of_def sha n del: of_nat_Suc)
qed

lemma checked_succ_small: "unat n < 10 \<Longrightarrow> checked_succ n = Inr (n + 1)"
  by (simp add: checked_succ_def)

lemma saturating_succ_small: "unat n < 10 \<Longrightarrow> (Inr (saturating_add n 1) :: broker_error + u64) = Inr (n + 1)"
  by (simp add: saturating_add_def)

section \<open>One transition\<close>

definition same_at :: "bytes \<Rightarrow> database \<Rightarrow> database \<Rightarrow> bool" where
  "same_at j db db' \<longleftrightarrow> find_request db' j = find_request db j
     \<and> event_rows db' j = event_rows db j \<and> receipt_rows db' j = receipt_rows db j"

definition same_intake :: "request_row \<Rightarrow> request_row \<Rightarrow> bool" where
  "same_intake r r' \<longleftrightarrow> rr_request_id r' = rr_request_id r \<and> rr_device_id r' = rr_device_id r
     \<and> rr_requester_uid r' = rr_requester_uid r \<and> rr_operation_key r' = rr_operation_key r
     \<and> rr_input_digest r' = rr_input_digest r \<and> rr_package_name r' = rr_package_name r
     \<and> rr_generation r' = rr_generation r"

text \<open>The request \<open>i\<close> moved along one edge to \<open>t\<close> with one new event; in \<open>advanced\<close>, no other
  request changed.\<close>

definition moved :: "bytes \<Rightarrow> request_state \<Rightarrow> database \<Rightarrow> database \<Rightarrow> bool" where
  "moved i t db db' \<longleftrightarrow>
     (\<exists>r r' e. find_request db i = Some r \<and> find_request db' i = Some r' \<and> same_intake r r'
        \<and> store_edge (state_of r) t \<and> rr_state r' = as_db t
        \<and> event_rows db' i = event_rows db i @ [e] \<and> er_state e = as_db t)"

definition advanced :: "bytes \<Rightarrow> request_state \<Rightarrow> database \<Rightarrow> database \<Rightarrow> bool" where
  "advanced i t db db' \<longleftrightarrow> moved i t db db' \<and> (\<forall>j. j \<noteq> i \<longrightarrow> same_at j db db')"

lemma moved_same: "moved i t db db' \<Longrightarrow> same_at i db' db'' \<Longrightarrow> moved i t db db''"
  by (simp add: moved_def same_at_def)

lemma same_moved: "same_at i db db' \<Longrightarrow> moved i t db' db'' \<Longrightarrow> moved i t db db''"
  by (simp add: moved_def same_at_def)

lemma same_at_refl [simp]: "same_at j db db"
  by (simp add: same_at_def)

lemma same_at_trans: "same_at j db db' \<Longrightarrow> same_at j db' db'' \<Longrightarrow> same_at j db db''"
  by (simp add: same_at_def)

lemma same_at_inv:
  assumes "db_inv sha X db" and "same_at j db db'" and "j \<in> X \<longleftrightarrow> j \<in> Y"
  shows "case find_request db' j of
           None \<Rightarrow> event_rows db' j = [] \<and> receipt_rows db' j = []
         | Some r \<Rightarrow> request_inv sha Y db' j r"
  using assms by (auto simp: db_inv_def same_at_def request_inv_def split: option.splits dest!: spec [of _ j])

lemma db_invI:
  assumes "db_inv sha X db" and "requests_ok (db_requests db')"
    and "\<And>j. j \<noteq> i \<Longrightarrow> same_at j db db'" and "\<And>j. j \<noteq> i \<Longrightarrow> j \<in> X \<longleftrightarrow> j \<in> Y"
    and "find_request db' i = Some r" and "request_inv sha Y db' i r"
  shows "db_inv sha Y db'"
  unfolding db_inv_def
proof (intro conjI allI)
  fix j
  show "case find_request db' j of
           None \<Rightarrow> event_rows db' j = [] \<and> receipt_rows db' j = []
         | Some r \<Rightarrow> request_inv sha Y db' j r"
    using same_at_inv [OF assms(1) assms(3) assms(4)] assms(5,6) by (cases "j = i") auto
qed (rule assms(2))

abbreviation transitioned :: "bytes \<Rightarrow> request_state \<Rightarrow> lifecycle_event \<Rightarrow> database \<Rightarrow> database" where
  "transitioned i t e db \<equiv> db\<lparr>db_requests := update_request i (\<lambda>r. r\<lparr>rr_state := as_db t\<rparr>) db,
     db_events := db_events db @ [row_of_event i e]\<rparr>"

lemma requests_ok_transition:
  assumes "requests_ok (db_requests db)" and "find_request db i = Some r" and "\<not> is_terminal (state_of r)"
  shows "requests_ok (update_request i (\<lambda>r. r\<lparr>rr_state := as_db t\<rparr>) db)"
proof (rule requests_ok_update [OF assms(1)])
  fix r'
  assume "find_request db i = Some r'"
  with assms(2) have "r' = r" by simp
  then have r': "request_checks r'" "rr_state r' = as_db (state_of r)"
    using requests_ok_checks [OF assms(1)] find_request_SomeD [OF assms(2)] requests_ok_state [OF assms(1,2)] by simp_all
  then show "active_text (rr_state r')" using assms(3) by (simp add: is_active_iff)
  show "request_checks (r'\<lparr>rr_state := as_db t\<rparr>)"
    using r'(1) unfolding request_checks_def as_db_range by simp
qed simp_all

lemma append_transition_eq:
  assumes inv: "db_inv sha X db" and r: "find_request db i = Some r" and i: "public_id_str rid = i"
    and exp: "expected = None \<or> expected = Some (state_of r)" and edge: "store_edge (state_of r) t"
    and sha: "e_sha env = sha"
    and es: "event_rows db i = map (row_of_event i) es" "history_inv sha i (state_of r) es"
  shows "append_transition env rid expected t c db =
     (if length (ev_event_digest (next_event sha i es t c)) = 32
      then Inr (transitioned i t (next_event sha i es t c) db) else Inl Sqlite)"
proof -
  let ?db = "db\<lparr>db_requests := update_request i (\<lambda>r. r\<lparr>rr_state := as_db t\<rparr>) db\<rparr>"
  have "requests_ok (update_request i (\<lambda>r. r\<lparr>rr_state := as_db t\<rparr>) db)"
    by (rule requests_ok_transition [OF db_inv_ok [OF inv] r store_edge_terminal [OF edge]])
  moreover have "(case expected of None \<Rightarrow> True | Some x \<Rightarrow> rr_state r = as_db x)"
    using exp db_inv_state [OF inv r] by auto
  moreover have "append_store_event env checked_succ rid t c ?db =
     (if length (ev_event_digest (next_event sha i es t c)) = 32
      then Inr (?db\<lparr>db_events := db_events ?db @ [row_of_event i (next_event sha i es t c)]\<rparr>) else Inl Sqlite)"
    using es r by (intro append_store_event_eq [OF _ _ i _ sha checked_succ_small]) simp_all
  ultimately show ?thesis
    using r i by (simp add: append_transition_def write_requests_def)
qed

lemma transitioned_find:
  "find_request (transitioned i t e db) j =
     (if j = i then map_option (\<lambda>r. r\<lparr>rr_state := as_db t\<rparr>) (find_request db j) else find_request db j)"
  by (subst find_update_request [where f = "\<lambda>r. r\<lparr>rr_state := as_db t\<rparr>" and db = db and db' = db and i = i, symmetric]) (simp_all add: find_request_def)

lemma transitioned_views:
  "event_rows (transitioned i t e db) j = event_rows db j @ (if j = i then [row_of_event i e] else [])"
  "receipt_rows (transitioned i t e db) j = receipt_rows db j"
  by (simp_all add: event_rows_def receipt_rows_def row_of_event_def)

lemma transitioned_advanced:
  assumes inv: "db_inv sha {} db" and r: "find_request db i = Some r" and edge: "store_edge (state_of r) t"
    and es: "event_rows db i = map (row_of_event i) es" "history_inv sha i (state_of r) es"
    and len: "length (ev_event_digest (next_event sha i es t c)) = 32"
  shows "advanced i t db (transitioned i t (next_event sha i es t c) db)"
    and "db_inv sha {i} (transitioned i t (next_event sha i es t c) db)"
proof -
  let ?db = "transitioned i t (next_event sha i es t c) db"
  let ?r = "r\<lparr>rr_state := as_db t\<rparr>"
  have r': "find_request ?db i = Some ?r"
    using r by (simp only: transitioned_find) simp
  have same: "same_at j db ?db" if "j \<noteq> i" for j
    unfolding same_at_def transitioned_find transitioned_views using that by simp
  have "event_rows ?db i = event_rows db i @ [row_of_event i (next_event sha i es t c)]"
    unfolding transitioned_views by simp
  moreover have "er_state (row_of_event i (next_event sha i es t c)) = as_db t"
    by (simp add: row_of_event_def next_event_def event_of_def)
  moreover have "same_intake r ?r" by (simp add: same_intake_def)
  moreover have "rr_state ?r = as_db t" by simp
  ultimately show "advanced i t db ?db"
    unfolding advanced_def moved_def using r r' same edge by blast
  show "db_inv sha {i} ?db"
  proof (rule db_invI [OF inv _ same _ r'])
    show "requests_ok (db_requests ?db)"
      using requests_ok_transition [OF db_inv_ok [OF inv] r store_edge_terminal [OF edge]] by simp
    have "event_rows ?db i = map (row_of_event i) (es @ [next_event sha i es t c])"
      unfolding transitioned_views es by simp
    moreover have "receipt_rows ?db i = [] \<and> rr_receipt_bytes r = None \<and> rr_boot_epoch r = 0"
      using db_inv_at [OF inv r] store_edge_terminal [OF edge]
      unfolding transitioned_views by (simp add: request_inv_def receipts_inv_def)
    ultimately show "request_inv sha {i} ?db i ?r"
      unfolding request_inv_def using history_next [OF es(2) edge len]
      by (intro conjI exI [of _ "es @ [next_event sha i es t c]"]) simp_all
  qed auto
qed

lemma append_transition_ok:
  assumes "append_transition env rid expected t c db = Inr db'" and inv: "db_inv (e_sha env) {} db"
    and i: "i = public_id_str rid"
    and edge: "\<And>r. find_request db i = Some r \<Longrightarrow> expected = None \<or> expected = Some (state_of r) \<Longrightarrow> store_edge (state_of r) t"
  shows "\<exists>r es. find_request db i = Some r \<and> (expected = None \<or> expected = Some (state_of r))
     \<and> event_rows db i = map (row_of_event i) es \<and> history_inv (e_sha env) i (state_of r) es
     \<and> db' = transitioned i t (next_event (e_sha env) i es t c) db
     \<and> advanced i t db db' \<and> db_inv (e_sha env) {i} db'"
proof -
  from assms(1) obtain r where r: "find_request db i = Some r"
    by (auto simp: append_transition_def i split: option.splits)
  from assms(1) r have exp: "expected = None \<or> expected = Some (state_of r)"
    using db_inv_state [OF inv r] by (auto simp: append_transition_def i split: option.splits if_splits)
  note edge = edge [OF r exp]
  from db_inv_at [OF inv r] obtain es where
    es: "event_rows db i = map (row_of_event i) es" "history_inv (e_sha env) i (state_of r) es"
    by (auto simp: request_inv_def)
  have *: "length (ev_event_digest (next_event (e_sha env) i es t c)) = 32"
      "db' = transitioned i t (next_event (e_sha env) i es t c) db"
    using assms(1) append_transition_eq [OF inv r i [symmetric] exp edge refl es, of c] by (auto split: if_splits)
  with transitioned_advanced [OF inv r edge es *(1)] show ?thesis
    using r exp es by blast
qed

section \<open>Receipts\<close>

lemma create_receipt_ok:
  assumes "create_receipt env rnd rid t signer now_utc ev db = Inr (cose, db')"
  shows "\<exists>r c. find_request db (public_id_str rid) = Some r \<and> rr_receipt_bytes r = None
     \<and> cr_request_id c = public_id_str rid \<and> cr_terminal_state c = as_db t \<and> cr_cose_bytes c = cose
     \<and> cr_requester_uid c = rr_requester_uid r
     \<and> requests_ok (update_request (public_id_str rid) (\<lambda>r. r\<lparr>rr_receipt_bytes := Some cose\<rparr>) db)
     \<and> db' = db\<lparr>db_receipts := db_receipts db @ [c],
                db_requests := update_request (public_id_str rid) (\<lambda>r. r\<lparr>rr_receipt_bytes := Some cose\<rparr>) db\<rparr>"
  using assms
  by (auto simp: create_receipt_def ok_iff if_ok update_request_def
      intro!: exI [of _ "\<lparr>cr_receipt_id = _, cr_request_id = _, cr_requester_uid = _, cr_terminal_state = _,
        cr_cose_bytes = _, cr_created_utc = _, cr_completed_utc = _\<rparr>"])

lemma create_receipt_seals:
  assumes "create_receipt env rnd rid t signer now_utc ev db' = Inr (cose, db'')" and i: "i = public_id_str rid"
    and adv: "advanced i t db db'" and inv: "db_inv sha {i} db'" and closed: "is_terminal t"
  shows "advanced i t db db'' \<and> db_inv sha {} db''"
proof -
  from create_receipt_ok [OF assms(1)] obtain r c where
    r: "find_request db' i = Some r" "rr_receipt_bytes r = None" and
    c: "cr_request_id c = i" "cr_terminal_state c = as_db t" "cr_cose_bytes c = cose" "cr_requester_uid c = rr_requester_uid r" and
    ok: "requests_ok (update_request i (\<lambda>r. r\<lparr>rr_receipt_bytes := Some cose\<rparr>) db')" and
    db'': "db'' = db'\<lparr>db_receipts := db_receipts db' @ [c],
                db_requests := update_request i (\<lambda>r. r\<lparr>rr_receipt_bytes := Some cose\<rparr>) db'\<rparr>"
    by (auto simp: i)
  let ?r = "r\<lparr>rr_receipt_bytes := Some cose\<rparr>"
  have find: "find_request db'' j = (if j = i then Some ?r else find_request db' j)" for j
    unfolding db'' using find_update_request [where f = "\<lambda>r. r\<lparr>rr_receipt_bytes := Some cose\<rparr>" and db = db' and db' = db' and i = i and j = j] r(1)
    by (simp add: find_request_def)
  have views: "event_rows db'' j = event_rows db' j" "receipt_rows db'' j = receipt_rows db' j @ (if j = i then [c] else [])" for j
    using c(1) by (auto simp: db'' event_rows_def receipt_rows_def)
  have same: "same_at j db' db''" if "j \<noteq> i" for j
    using that by (simp add: same_at_def find views)
  from adv r(1) have st: "rr_state r = as_db t" by (auto simp: advanced_def moved_def)
  have "advanced i t db db''"
    using adv r(1) same same_at_trans unfolding advanced_def moved_def
    by (auto simp: find views same_intake_def)
  moreover have "db_inv sha {} db''"
  proof (rule db_invI [OF inv _ same])
    show "find_request db'' i = Some ?r" by (simp add: find)
    show "requests_ok (db_requests db'')" using ok by (simp add: db'')
    show "request_inv sha {} db'' i ?r"
      using db_inv_at [OF inv r(1)] state_of_as_db [OF st] closed c by (simp add: request_inv_def views state_of_def receipts_inv_def)
  qed auto
  ultimately show ?thesis by simp
qed

lemma nonterminal_sealed:
  assumes adv: "advanced i t db db'" and inv: "db_inv sha {i} db'" and live: "\<not> is_terminal t"
  shows "db_inv sha {} db'"
proof -
  from adv obtain r where r: "find_request db' i = Some r" "rr_state r = as_db t" by (auto simp: advanced_def moved_def)
  show ?thesis
  proof (rule db_invI [OF inv db_inv_ok [OF inv] same_at_refl _ r(1)])
    show "request_inv sha {} db' i r"
      using db_inv_at [OF inv r(1)] state_of_as_db [OF r(2)] live by (simp add: request_inv_def receipts_inv_def)
  qed auto
qed

text \<open>Writing further columns of the request that just moved.\<close>

lemma annotate_advanced:
  assumes ok: "requests_ok (update_request i f db')" and adv: "advanced i t db db'" and inv: "db_inv sha {i} db'"
    and f: "\<And>r. same_intake r (f r)" "\<And>r. rr_state (f r) = rr_state r" "\<And>r. rr_receipt_bytes (f r) = rr_receipt_bytes r"
      "\<And>r. rr_boot_epoch (f r) = rr_boot_epoch r"
  shows "advanced i t db (db'\<lparr>db_requests := update_request i f db'\<rparr>)
     \<and> db_inv sha {i} (db'\<lparr>db_requests := update_request i f db'\<rparr>)"
proof -
  let ?db = "db'\<lparr>db_requests := update_request i f db'\<rparr>"
  from adv obtain r where r: "find_request db' i = Some r" by (auto simp: advanced_def moved_def)
  have find: "find_request ?db j = (if j = i then Some (f r) else find_request db' j)" for j
    using find_update_request [where f = f and db = db' and db' = db' and i = i and j = j] f(1) r by (simp add: same_intake_def)
  have same: "same_at j db' ?db" if "j \<noteq> i" for j
    using that by (simp add: same_at_def find)
  have "advanced i t db ?db"
    using adv r same same_at_trans f(1,2) unfolding advanced_def moved_def
    by (simp only: find view_update) (auto simp: same_intake_def)
  moreover have "db_inv sha {i} ?db"
  proof (rule db_invI [OF inv _ same])
    show "find_request ?db i = Some (f r)" unfolding find by simp
    show "request_inv sha {i} ?db i (f r)"
      using db_inv_at [OF inv r] f by (simp add: request_inv_def state_of_def)
  qed (use ok in auto)
  ultimately show ?thesis by simp
qed

end
