(* ===== verification/Store_Operations.thy ===== *)
theory Store_Operations
  imports Store_Invariants
begin

text \<open>
  The effect of every operation of \<^verbatim>\<open>BrokerStore\<close>: it keeps \<open>db_inv\<close> and does to each request
  nothing, or one transition with one event (\<open>moved\<close>), or creates it (\<open>created\<close>). \<open>run_store\<close>
  dispatches an operation; a failed one rolls back. For each request the store is a
  \<open>lifecycle_machine\<close> along \<open>store_edge\<close>.
\<close>

section \<open>Boot\<close>

lemma PublicId_parse_ok [ok_iff]:
  "PublicId_parse b = Inr i \<longleftrightarrow> i = PublicId b \<and> length b = 22 \<and> list_all is_base64url b"
  by (auto simp: PublicId_parse_def)

definition expirable :: "database \<Rightarrow> bytes \<Rightarrow> bool" where
  "expirable db i \<longleftrightarrow> (\<exists>r. find_request db i = Some r \<and> state_of r \<in> {Planning, Pending, Approved})"

lemma expirable_edge: "find_request db i = Some r \<Longrightarrow> expirable db i \<Longrightarrow> store_edge (state_of r) Expired"
  by (auto simp: expirable_def store_edge_def)

lemma expire_one:
  assumes "append_transition env rid None Expired ReasonExpired db = Inr db1"
    and "create_receipt env rnd rid Expired signer now_utc [] db1 = Inr (cose, db2)"
    and "db_inv (e_sha env) {} db" and i: "i = public_id_str rid" and "expirable db i"
  shows "advanced i Expired db db2 \<and> db_inv (e_sha env) {} db2"
proof -
  from append_transition_ok [OF assms(1,3) i] have "advanced i Expired db db1" "db_inv (e_sha env) {i} db1"
    using expirable_edge assms(5) by blast+
  from create_receipt_seals [OF assms(2) i this] show ?thesis by simp
qed

lemma expire_all_ok:
  assumes "expire_all env signer now_utc is rnds n db = Inr (m, db')"
    and "db_inv (e_sha env) {} db" and "distinct is" and "\<forall>i\<in>set is. expirable db i"
  shows "db_inv (e_sha env) {} db' \<and> m = n + length is
     \<and> (\<forall>i\<in>set is. moved i Expired db db') \<and> (\<forall>j. j \<notin> set is \<longrightarrow> same_at j db db')
     \<and> db_credentials db' = db_credentials db \<and> db_identity db' = db_identity db"
  using assms
proof (induction "is" arbitrary: rnds n db)
  case Nil
  then show ?case by simp
next
  case (Cons i "is")
  let ?rid = "PublicId i"
  from Cons.prems(1) obtain db1 cose db2 where
    t: "append_transition env ?rid None Expired ReasonExpired db = Inr db1" and
    c: "create_receipt env (case rnds of [] \<Rightarrow> None | r # _ \<Rightarrow> r) ?rid Expired signer now_utc [] db1 = Inr (cose, db2)" and
    rest: "expire_all env signer now_utc is (drop 1 rnds) (n + 1) db2 = Inr (m, db')"
    by (auto simp: ok_iff)
  have i: "i = public_id_str ?rid" by simp
  have one: "advanced i Expired db db2" "db_inv (e_sha env) {} db2"
    using expire_one [OF t c Cons.prems(2) i] Cons.prems(4) by auto
  have fixed: "db_credentials db2 = db_credentials db \<and> db_identity db2 = db_identity db"
    using append_transition_ok [OF t Cons.prems(2) i] expirable_edge [of db i] Cons.prems(4) create_receipt_ok [OF c]
    by auto
  have "\<forall>j\<in>set is. expirable db2 j"
    using one(1) Cons.prems(3,4) by (auto simp: advanced_def same_at_def expirable_def)
  from Cons.IH [OF rest one(2) _ this] Cons.prems(3) have
    IH: "db_inv (e_sha env) {} db'" "m = n + 1 + length is" "\<forall>j\<in>set is. moved j Expired db2 db'"
      "\<forall>j. j \<notin> set is \<longrightarrow> same_at j db2 db'" "db_credentials db' = db_credentials db2 \<and> db_identity db' = db_identity db2"
    by auto
  have "moved i Expired db db'"
    using one(1) IH(4) Cons.prems(3) moved_same by (auto simp: advanced_def)
  moreover have "\<forall>j\<in>set is. moved j Expired db db'"
    using one(1) IH(3) Cons.prems(3) same_moved by (auto simp: advanced_def) metis
  moreover have "\<forall>j. j \<notin> set (i # is) \<longrightarrow> same_at j db db'"
    using one(1) IH(4) same_at_trans by (auto simp: advanced_def)
  ultimately show ?case using IH fixed by auto
qed

section \<open>The effect of an operation\<close>

definition created :: "bytes \<Rightarrow> database \<Rightarrow> database \<Rightarrow> bool" where
  "created i db db' \<longleftrightarrow> find_request db i = None
     \<and> (\<exists>r e. find_request db' i = Some r \<and> rr_state r = as_db Planning \<and> event_rows db' i = [e]
          \<and> er_state e = as_db Planning)"

text \<open>What an operation may do to a request.\<close>

definition step_at :: "bytes \<Rightarrow> database \<Rightarrow> database \<Rightarrow> bool" where
  "step_at i db db' \<longleftrightarrow> same_at i db db' \<or> (\<exists>t. moved i t db db') \<or> created i db db'"

definition sound_step :: "hash \<Rightarrow> database \<Rightarrow> database \<Rightarrow> bool" where
  "sound_step sha db db' \<longleftrightarrow> db_inv sha {} db' \<and> (\<forall>i. step_at i db db')"

lemma sound_step_same [simp]: "db_inv sha {} db \<Longrightarrow> sound_step sha db db"
  by (simp add: sound_step_def step_at_def)

lemma sound_step_advanced: "db_inv sha {} db' \<Longrightarrow> advanced i t db db' \<Longrightarrow> sound_step sha db db'"
  by (auto simp: sound_step_def step_at_def advanced_def)

lemma sound_step_update [simp]:
  "sound_step sha db (db'\<lparr>db_credentials := ks\<rparr>) = sound_step sha db db'"
  "sound_step sha db (db'\<lparr>db_boot_epoch := n\<rparr>) = sound_step sha db db'"
  "sound_step sha db (db'\<lparr>db_credential_generation := n\<rparr>) = sound_step sha db db'"
  "sound_step sha db (db'\<lparr>db_identity := x\<rparr>) = sound_step sha db db'"
  by (simp_all add: sound_step_def step_at_def same_at_def moved_def created_def)

lemma raise_sign_count_sound [simp]: "sound_step sha db (raise_sign_count n c db') = sound_step sha db db'"
  by (simp add: raise_sign_count_def)

lemma start_boot_ids:
  assumes "requests_ok (db_requests db)"
  shows "distinct (map rr_request_id (filter P (db_requests db)))"
    and "\<And>i. i \<in> set (map rr_request_id (filter (\<lambda>r. rr_state r \<in> set [str ''planning'', str ''pending'', str ''approved'']
              \<and> rr_boot_epoch r \<noteq> epoch) (db_requests db)))
     \<longleftrightarrow> (\<exists>r. find_request db i = Some r \<and> state_of r \<in> {Planning, Pending, Approved} \<and> rr_boot_epoch r \<noteq> epoch)"
proof -
  show "distinct (map rr_request_id (filter P (db_requests db)))"
    using assms by (simp add: requests_ok_def distinct_map_filter)
  have "rr_state r \<in> set [str ''planning'', str ''pending'', str ''approved''] \<longleftrightarrow> state_of r \<in> {Planning, Pending, Approved}"
    if "r \<in> set (db_requests db)" for r
  proof -
    have "rr_state r = as_db (state_of r)"
      using assms that requests_ok_checks request_checks_state by blast
    moreover have "as_db s \<in> set [str ''planning'', str ''pending'', str ''approved''] \<longleftrightarrow> s \<in> {Planning, Pending, Approved}" for s
      by (simp flip: as_db.simps)
    ultimately show ?thesis by metis
  qed
  then show "i \<in> set (map rr_request_id (filter (\<lambda>r. rr_state r \<in> set [str ''planning'', str ''pending'', str ''approved'']
              \<and> rr_boot_epoch r \<noteq> epoch) (db_requests db)))
     \<longleftrightarrow> (\<exists>r. find_request db i = Some r \<and> state_of r \<in> {Planning, Pending, Approved} \<and> rr_boot_epoch r \<noteq> epoch)" for i
    using assms by (auto simp: requests_ok_def find_request_iff simp del: list.set)
qed

lemma start_boot_ok:
  assumes "start_boot env rnds epoch signer now_utc s = Inr (n, s')" and inv: "db_inv (e_sha env) {} (bs_db s)"
    and new: "db_boot_epoch (bs_db s) \<noteq> epoch"
  shows "db_inv (e_sha env) {} (bs_db s') \<and> db_boot_epoch (bs_db s') = epoch
     \<and> (\<forall>i. case find_request (bs_db s) i of
            Some r \<Rightarrow> if state_of r \<in> {Planning, Pending, Approved} \<and> rr_boot_epoch r \<noteq> epoch
              then moved i Expired (bs_db s) (bs_db s') else same_at i (bs_db s) (bs_db s')
          | None \<Rightarrow> same_at i (bs_db s) (bs_db s'))"
proof -
  let ?is = "map rr_request_id (filter (\<lambda>r. rr_state r \<in> set [str ''planning'', str ''pending'', str ''approved'']
              \<and> rr_boot_epoch r \<noteq> epoch) (db_requests (bs_db s)))"
  from assms(1) new obtain m db' where
    all: "expire_all env signer now_utc ?is rnds 0 (bs_db s) = Inr (m, db')" and s': "s' = s\<lparr>bs_db := db'\<lparr>db_boot_epoch := epoch\<rparr>\<rparr>"
    by (auto simp: start_boot_def ok_iff Let_def simp del: list.set)
  note ids = start_boot_ids [OF db_inv_ok [OF inv]]
  have "\<forall>i\<in>set ?is. expirable (bs_db s) i"
  proof
    fix i
    assume "i \<in> set ?is"
    then show "expirable (bs_db s) i" unfolding ids(2) by (auto simp: expirable_def)
  qed
  note ok = expire_all_ok [OF all inv ids(1) this]
  show ?thesis
  proof (intro conjI allI)
    show "db_inv (e_sha env) {} (bs_db s')" "db_boot_epoch (bs_db s') = epoch" using ok by (simp_all add: s')
    fix i
    have "moved i Expired (bs_db s) (bs_db s')" if "i \<in> set ?is"
    proof -
      have "moved i Expired (bs_db s) db'" using ok that by blast
      then show ?thesis by (simp add: s' moved_def)
    qed
    moreover have "same_at i (bs_db s) (bs_db s')" if "i \<notin> set ?is"
    proof -
      have "same_at i (bs_db s) db'" using ok that by blast
      then show ?thesis by (simp add: s' same_at_def)
    qed
    ultimately show "case find_request (bs_db s) i of
            Some r \<Rightarrow> if state_of r \<in> {Planning, Pending, Approved} \<and> rr_boot_epoch r \<noteq> epoch
              then moved i Expired (bs_db s) (bs_db s') else same_at i (bs_db s) (bs_db s')
          | None \<Rightarrow> same_at i (bs_db s) (bs_db s')"
      unfolding ids(2) by (auto split: option.split)
  qed
qed

lemma start_boot_sound:
  assumes "start_boot env rnds epoch signer now_utc s = Inr (n, s')" and "db_inv (e_sha env) {} (bs_db s)"
  shows "sound_step (e_sha env) (bs_db s) (bs_db s')"
proof (cases "db_boot_epoch (bs_db s) = epoch")
  case True
  with assms show ?thesis by (auto simp: start_boot_def ok_iff)
next
  case False
  note ok = start_boot_ok [OF assms False]
  have "step_at i (bs_db s) (bs_db s')" for i
    using ok [THEN conjunct2, THEN conjunct2, rule_format, of i]
    by (cases "find_request (bs_db s) i") (auto simp: step_at_def split: if_splits)
  with ok show ?thesis by (simp add: sound_step_def)
qed

lemma initialize_identity_sound:
  assumes "initialize_identity env rnd signer s = Inr (u, s')" and "db_inv sha {} (bs_db s)"
  shows "sound_step sha (bs_db s) (bs_db s')"
  using assms by (auto simp: initialize_identity_def ok_iff Let_def split: option.splits if_splits)

lemma insert_credentials_frame:
  "insert_credentials g cs db = Inr db' \<Longrightarrow> \<exists>ks. db' = db\<lparr>db_credentials := ks\<rparr>"
proof (induction cs arbitrary: db)
  case Nil
  then show ?case by (auto intro: exI [of _ "db_credentials db"])
next
  case (Cons c cs)
  then show ?case by (fastforce simp: ok_iff insert_credential_def split: if_splits)
qed

lemma replace_credentials_sound:
  assumes "replace_credentials g cs s = Inr (u, s')" and "db_inv sha {} (bs_db s)"
  shows "sound_step sha (bs_db s) (bs_db s')"
proof -
  from assms(1) obtain db' where "insert_credentials g cs ((bs_db s)\<lparr>db_credentials := []\<rparr>) = Inr db'"
    "s' = s\<lparr>bs_db := db'\<lparr>db_credential_generation := g\<rparr>\<rparr>"
    by (auto simp: replace_credentials_def ok_iff split: if_splits)
  with insert_credentials_frame [of g cs] assms(2) show ?thesis by fastforce
qed

section \<open>Submission\<close>

lemma requests_ok_append_event: "requests_ok (db_requests (db\<lparr>db_events := es\<rparr>)) = requests_ok (db_requests db)"
  by simp

lemma find_snoc: "find P (xs @ [x]) = (case find P xs of Some y \<Rightarrow> Some y | None \<Rightarrow> if P x then Some x else None)"
  by (induction xs) auto

lemma find_request_snoc:
  "find_request (db\<lparr>db_requests := db_requests db @ [r]\<rparr>) j =
     (case find_request db j of Some x \<Rightarrow> Some x | None \<Rightarrow> if rr_request_id r = j then Some r else None)"
  by (simp add: find_request_def find_snoc)

lemma submit_created:
  assumes ok: "requests_ok (db_requests db @ [r])" and inv: "db_inv sha {} db" and i: "rr_request_id r = i"
    and r: "rr_state r = as_db Planning" "rr_receipt_bytes r = None" "rr_boot_epoch r = 0"
    and e: "e = event_of sha (PublicId i) 1 None Planning ReasonCreated" "length (ev_event_digest e) = 32"
    and db': "db' = db\<lparr>db_requests := db_requests db @ [r], db_events := db_events db @ [row_of_event i e]\<rparr>"
  shows "db_inv sha {} db'" and "created i db db'" and "\<And>j. j \<noteq> i \<Longrightarrow> same_at j db db'"
    and "find_request db' i = Some r"
proof -
  have none: "find_request db i = None"
    using ok i by (auto simp: requests_ok_def find_request_None)
  have find: "find_request db' j = (if j = i then Some r else find_request db j)" for j
    unfolding db' using none i find_request_snoc [of db r j] by (auto split: option.splits)
  have views: "event_rows db' j = event_rows db j @ (if j = i then [row_of_event i e] else [])"
    "receipt_rows db' j = receipt_rows db j" for j
    by (simp_all add: db' event_rows_def receipt_rows_def row_of_event_def)
  have empty: "event_rows db i = []" "receipt_rows db i = []"
    using inv none by (auto simp: db_inv_def split: option.splits dest: spec [of _ i])
  have st: "state_of r = Planning" by (rule state_of_as_db [OF r(1)])
  show same: "same_at j db db'" if "j \<noteq> i" for j using that by (simp add: same_at_def find views)
  show "find_request db' i = Some r" by (simp add: find)
  show "created i db db'"
    using none empty r by (simp add: created_def find views row_of_event_def e event_of_def)
  have "history_inv sha i Planning [e]"
    using e(2) by (simp add: history_inv_def e(1) event_of_def)
  then have "request_inv sha {} db' i r"
    using empty r st by (auto simp: request_inv_def views receipts_inv_def intro!: exI [of _ "[e]"])
  then show "db_inv sha {} db'"
    using db_invI [OF inv _ same _ \<open>find_request db' i = Some r\<close>] ok by (simp add: db')
qed

lemma submit_cases:
  assumes "submit env policy request s = Inr (outcome, s')" and inv: "db_inv (e_sha env) {} (bs_db s)"
  shows "(\<exists>summary. outcome = Existing summary \<and> s' = s)
    \<or> (\<exists>summary r db'. outcome = Created summary
         \<and> r = new_request_row (e_sha env) (bs_device_id s) request (sp_generation request)
         \<and> s' = s\<lparr>bs_db := db'\<rparr> \<and> db_requests db' = db_requests (bs_db s) @ [r]
         \<and> uint (sp_generation request) < 2 ^ 63
         \<and> db_inv (e_sha env) {} db' \<and> created (public_id_str (sp_request_id request)) (bs_db s) db'
         \<and> (\<forall>j. j \<noteq> public_id_str (sp_request_id request) \<longrightarrow> same_at j (bs_db s) db')
         \<and> find_request db' (public_id_str (sp_request_id request)) = Some r)"
proof (cases outcome)
  case (Existing summary)
  then show ?thesis using assms(1)
    by (auto simp: submit_def ok_iff Let_def split: option.splits if_splits prod.splits)
next
  case (Created summary)
  let ?i = "public_id_str (sp_request_id request)"
  let ?r = "new_request_row (e_sha env) (bs_device_id s) request (sp_generation request)"
  let ?e = "event_of (e_sha env) (PublicId ?i) 1 None Planning ReasonCreated"
  from assms(1) Created obtain db' where
    ok: "requests_ok (db_requests (bs_db s) @ [?r])" "uint (sp_generation request) < 2 ^ 63" and
    ins: "insert_event (row_of_event ?i ?e) ((bs_db s)\<lparr>db_requests := db_requests (bs_db s) @ [?r]\<rparr>) = Inr db'" and
    s': "s' = s\<lparr>bs_db := db'\<rparr>"
    by (auto simp: submit_def ok_iff Let_def row_of_event_def event_of_def split: option.splits if_splits prod.splits)
  have db': "db' = (bs_db s)\<lparr>db_requests := db_requests (bs_db s) @ [?r], db_events := db_events (bs_db s) @ [row_of_event ?i ?e]\<rparr>"
    and len: "length (ev_event_digest ?e) = 32"
    using ins by (auto simp: insert_event_def row_of_event_def event_of_def split: if_splits)
  have r: "rr_request_id ?r = ?i" "rr_state ?r = as_db Planning" "rr_receipt_bytes ?r = None" "rr_boot_epoch ?r = 0"
    by (simp_all add: new_request_row_def)
  note c = submit_created [OF ok(1) inv r refl len db']
  have "db_requests db' = db_requests (bs_db s) @ [?r]" by (simp add: db')
  with c s' ok(2) Created show ?thesis by blast
qed

lemma submit_sound:
  assumes "submit env policy request s = Inr (outcome, s')" and inv: "db_inv (e_sha env) {} (bs_db s)"
  shows "sound_step (e_sha env) (bs_db s) (bs_db s')"
  using submit_cases [OF assms]
proof (elim disjE exE conjE)
  fix summary r db'
  assume *: "s' = s\<lparr>bs_db := db'\<rparr>" "db_inv (e_sha env) {} db'" "created (public_id_str (sp_request_id request)) (bs_db s) db'"
    "\<forall>j. j \<noteq> public_id_str (sp_request_id request) \<longrightarrow> same_at j (bs_db s) db'"
  then have "step_at i (bs_db s) db'" for i
    by (cases "i = public_id_str (sp_request_id request)") (auto simp: step_at_def)
  with * show ?thesis by (simp add: sound_step_def)
qed (simp add: inv)

section \<open>Transitions of the store\<close>

text \<open>\<^verbatim>\<open>transition_nonterminal\<close> writes out the compare-and-set that the other operations share; on a
  consistent store both do the same.\<close>

lemma transition_nonterminal_eq:
  assumes inv: "db_inv (e_sha env) {} (bs_db s)"
  shows "transition_nonterminal env rid expected next s =
     (if is_terminal next \<or> \<not> permits expected next then Inl (InvalidTransition expected next)
      else map_ok (\<lambda>db. (next, s\<lparr>bs_db := db\<rparr>))
        (append_transition env rid (Some expected) next (transition_reason next) (bs_db s)))"
proof (cases "\<not> is_terminal next \<and> permits expected next
    \<and> (\<exists>r. find_request (bs_db s) (public_id_str rid) = Some r \<and> rr_state r = as_db expected)")
  case True
  let ?i = "public_id_str rid" and ?db = "bs_db s"
  from True obtain r where r: "find_request ?db ?i = Some r" "rr_state r = as_db expected"
    and guard: "\<not> is_terminal next" "permits expected next" by blast
  note st = state_of_as_db [OF r(2)]
  from db_inv_at [OF inv r(1)] obtain es where
    es: "event_rows ?db ?i = map (row_of_event ?i) es" "history_inv (e_sha env) ?i (state_of r) es"
    by (auto simp: request_inv_def)
  have edge: "store_edge (state_of r) next" using guard by (simp add: store_edge_def st)
  have ok: "requests_ok (update_request ?i (\<lambda>r. r\<lparr>rr_state := as_db next\<rparr>) ?db)"
    by (rule requests_ok_transition [OF db_inv_ok [OF inv] r(1) store_edge_terminal [OF edge]])
  have "append_store_event env (\<lambda>n. Inr (saturating_add n 1)) rid next (transition_reason next)
      (?db\<lparr>db_requests := update_request ?i (\<lambda>r. r\<lparr>rr_state := as_db next\<rparr>) ?db\<rparr>)
    = append_store_event env checked_succ rid next (transition_reason next)
      (?db\<lparr>db_requests := update_request ?i (\<lambda>r. r\<lparr>rr_state := as_db next\<rparr>) ?db\<rparr>)" (is "_ = ?ev")
    using es r
    by (subst append_store_event_eq [OF _ _ refl _ refl saturating_succ_small], simp_all
        add: append_store_event_eq [OF _ _ refl _ refl checked_succ_small])
  with ok r guard show ?thesis
    by (cases ?ev) (simp_all add: transition_nonterminal_def append_transition_def write_requests_def)
next
  case False
  then show ?thesis
    by (auto simp: transition_nonterminal_def append_transition_def race_lost_def Let_def rbind_def map_ok_def
        split: option.split sum.split)
qed

lemma permitted_transition:
  assumes "append_transition env rid (Some expected) t c db = Inr db'" and inv: "db_inv (e_sha env) {} db"
    and "i = public_id_str rid" and "store_edge expected t"
  shows "\<exists>r es. find_request db i = Some r \<and> state_of r = expected
     \<and> event_rows db i = map (row_of_event i) es \<and> history_inv (e_sha env) i expected es
     \<and> db' = transitioned i t (next_event (e_sha env) i es t c) db
     \<and> advanced i t db db' \<and> db_inv (e_sha env) {i} db'"
  using append_transition_ok [OF assms(1-3)] assms(4) by auto

lemma transition_nonterminal_sound:
  assumes "transition_nonterminal env rid expected next s = Inr (st, s')" and inv: "db_inv (e_sha env) {} (bs_db s)"
  shows "advanced (public_id_str rid) next (bs_db s) (bs_db s') \<and> db_inv (e_sha env) {} (bs_db s')
     \<and> \<not> is_terminal next \<and> permits expected next \<and> st = next"
proof -
  from assms obtain db' where guard: "\<not> is_terminal next" "permits expected next" and
    t: "append_transition env rid (Some expected) next (transition_reason next) (bs_db s) = Inr db'" and
    s': "s' = s\<lparr>bs_db := db'\<rparr>" "st = next"
    by (auto simp: transition_nonterminal_eq ok_iff split: if_splits)
  have "store_edge expected next" using guard by (simp add: store_edge_def)
  from permitted_transition [OF t inv refl this] have "advanced (public_id_str rid) next (bs_db s) db'"
    "db_inv (e_sha env) {public_id_str rid} db'" by blast+
  with nonterminal_sealed [OF this guard(1)] guard s' show ?thesis by simp
qed

text \<open>A transition and its receipt in one transaction.\<close>

lemma close_request:
  assumes "append_transition env rid (Some expected) t c db = Inr db1"
    and "create_receipt env rnd rid t signer now_utc ev db1 = Inr (cose, db2)"
    and "db_inv (e_sha env) {} db" and "store_edge expected t" and "is_terminal t"
  shows "advanced (public_id_str rid) t db db2 \<and> db_inv (e_sha env) {} db2"
  using permitted_transition [OF assms(1,3) refl assms(4)] create_receipt_seals [OF assms(2) refl _ _ assms(5)] by blast

lemma transition_terminal_sound:
  assumes "transition_terminal env rnd rid expected next signer now_utc s = Inr (cose, s')"
    and inv: "db_inv (e_sha env) {} (bs_db s)"
  shows "advanced (public_id_str rid) next (bs_db s) (bs_db s') \<and> db_inv (e_sha env) {} (bs_db s')
     \<and> is_terminal next \<and> permits expected next"
proof -
  from assms(1) obtain db1 db2 where guard: "is_terminal next" "permits expected next" and
    t: "append_transition env rid (Some expected) next (transition_reason next) (bs_db s) = Inr db1" and
    c: "create_receipt env rnd rid next signer now_utc [] db1 = Inr (cose, db2)" and s': "s' = s\<lparr>bs_db := db2\<rparr>"
    by (auto simp: transition_terminal_def transition_terminal_with_evidence_def ok_iff split: if_splits)
  from close_request [OF t c inv] guard s' show ?thesis by (simp add: store_edge_def)
qed

lemma reconcile_recovery_sound:
  assumes "reconcile_recovery env rnd rid succeeded evidence signer now_utc s = Inr (cose, s')"
    and inv: "db_inv (e_sha env) {} (bs_db s)"
  shows "advanced (public_id_str rid) (if succeeded then Succeeded else Failed) (bs_db s) (bs_db s')
     \<and> db_inv (e_sha env) {} (bs_db s')"
proof -
  let ?t = "if succeeded then Succeeded else Failed"
  let ?c = "if succeeded then ReasonReconciledSucceeded else ReasonReconciledFailed"
  let ?f = "\<lambda>r :: request_row. r\<lparr>rr_recovery_evidence := Some evidence\<rparr>"
  from assms(1) obtain db1 db2 where
    t: "append_transition env rid (Some RecoveryRequired) ?t ?c (bs_db s) = Inr db1" and
    ok: "requests_ok (update_request (public_id_str rid) ?f db1)" and
    c: "create_receipt env rnd rid ?t signer now_utc [] (db1\<lparr>db_requests := update_request (public_id_str rid) ?f db1\<rparr>)
      = Inr (cose, db2)" and s': "s' = s\<lparr>bs_db := db2\<rparr>"
    by (auto simp: reconcile_recovery_def Let_def ok_iff simp del: if_split split del: if_split split: if_split_asm)
  have edge: "store_edge RecoveryRequired ?t" "is_terminal ?t" by (simp_all add: store_edge_def)
  from permitted_transition [OF t inv refl edge(1)] have
    "advanced (public_id_str rid) ?t (bs_db s) db1" "db_inv (e_sha env) {public_id_str rid} db1" by blast+
  from annotate_advanced [OF ok this] have
    "advanced (public_id_str rid) ?t (bs_db s) (db1\<lparr>db_requests := update_request (public_id_str rid) ?f db1\<rparr>)"
    "db_inv (e_sha env) {public_id_str rid} (db1\<lparr>db_requests := update_request (public_id_str rid) ?f db1\<rparr>)"
    by (simp_all add: same_intake_def)
  from create_receipt_seals [OF c refl this edge(2)] s' show ?thesis by simp
qed

lemma prepare_for_decision_sound:
  assumes "prepare_for_decision env rid plan ctx signer s = Inr (cose, s')"
    and inv: "db_inv (e_sha env) {} (bs_db s)"
  shows "advanced (public_id_str rid) Pending (bs_db s) (bs_db s') \<and> db_inv (e_sha env) {} (bs_db s')"
proof -
  from assms(1) obtain db1 f where
    t: "append_transition env rid (Some Planning) Pending ReasonPlannerPending (bs_db s) = Inr db1" and
    ok: "requests_ok (update_request (public_id_str rid) f db1)" and
    s': "s' = s\<lparr>bs_db := db1\<lparr>db_requests := update_request (public_id_str rid) f db1\<rparr>\<rparr>" and
    f: "\<And>r. same_intake r (f r)" "\<And>r. rr_state (f r) = rr_state r" "\<And>r. rr_receipt_bytes (f r) = rr_receipt_bytes r"
      "\<And>r. rr_boot_epoch (f r) = rr_boot_epoch r"
    by (auto simp: prepare_for_decision_def ok_iff if_ok Let_def same_intake_def split: option.splits if_split_asm)
  have edge: "store_edge Planning Pending" by (simp add: store_edge_def)
  from permitted_transition [OF t inv refl edge] have
    "advanced (public_id_str rid) Pending (bs_db s) db1" "db_inv (e_sha env) {public_id_str rid} db1" by blast+
  from annotate_advanced [OF ok this f] nonterminal_sealed s' show ?thesis by fastforce
qed

section \<open>Decisions\<close>

lemma advanced_update [simp]: "advanced i t db (db'\<lparr>db_credentials := ks\<rparr>) = advanced i t db db'"
  by (simp add: advanced_def moved_def same_at_def)

lemma raise_sign_count_frame [simp]:
  "advanced i t db (raise_sign_count n c db') = advanced i t db db'"
  "db_inv sha X (raise_sign_count n c db') = db_inv sha X db'"
  by (simp_all add: raise_sign_count_def)

lemma pending_edges [simp]:
  "store_edge Pending Approved" "store_edge Pending Denied" "store_edge Pending Stale" "store_edge Pending Expired"
  by (simp_all add: store_edge_def)

definition decided :: "verified_assertion \<Rightarrow> request_state" where
  "decided v = (case va_decision v of Approve \<Rightarrow> Approved | Deny \<Rightarrow> Denied)"

lemma decided_cases: "decided v = Approved \<and> va_decision v = Approve \<or> decided v = Denied \<and> va_decision v = Deny"
  by (cases "va_decision v") (simp_all add: decided_def)

lemma commit_decision_ok:
  assumes "commit_decision env rnd rid submission ctx v signer now_utc s = Inr (out, s')"
    and inv: "db_inv (e_sha env) {} (bs_db s)"
  shows "advanced (public_id_str rid) (do_state out) (bs_db s) (bs_db s') \<and> db_inv (e_sha env) {} (bs_db s')
     \<and> do_state out = (if db_credential_generation (bs_db s) \<noteq> ac_generation ctx then Stale else decided v)
     \<and> (do_receipt_cose out = None \<longleftrightarrow> do_state out = Approved)"
proof (cases "db_credential_generation (bs_db s) = ac_generation ctx")
  case False
  with assms(1) obtain db1 db2 cose where
    t: "append_transition env rid (Some Pending) Stale ReasonGenerationStale (bs_db s) = Inr db1" and
    c: "create_receipt env rnd rid Stale signer now_utc [] db1 = Inr (cose, db2)" and
    out: "out = \<lparr>do_state = Stale, do_receipt_cose = Some cose\<rparr>" "s' = s\<lparr>bs_db := db2\<rparr>"
    by (auto simp: commit_decision_def Let_def ok_iff split: if_split_asm)
  from close_request [OF t c inv] out False show ?thesis by simp
next
  case True
  note gen = this
  from assms(1) True obtain db1 where
    t: "append_transition env rid (Some Pending) (decided v) (transition_reason (decided v)) (bs_db s) = Inr db1" and
    rest: "(if is_terminal (decided v) then
            rbind (create_receipt env rnd rid (decided v) signer now_utc
              [CMap [(Unsigned 1, Bytes (ds_credential_id submission)),
                     (Unsigned 2, CBool (va_counter_anomaly v))]] (raise_sign_count (va_sign_count v) (va_credential_id v) db1)) (\<lambda>(receipt, db).
              Inr (\<lparr>do_state = decided v, do_receipt_cose = Some receipt\<rparr>, s\<lparr>bs_db := db\<rparr>))
          else Inr (\<lparr>do_state = decided v, do_receipt_cose = None\<rparr>, s\<lparr>bs_db := raise_sign_count (va_sign_count v) (va_credential_id v) db1\<rparr>))
      = Inr (out, s')"
    by (auto simp: commit_decision_def Let_def ok_iff decided_def split: if_split_asm)
  have edge: "store_edge Pending (decided v)" using decided_cases [of v] by auto
  from permitted_transition [OF t inv refl edge] have
    1: "advanced (public_id_str rid) (decided v) (bs_db s) (raise_sign_count (va_sign_count v) (va_credential_id v) db1)"
      "db_inv (e_sha env) {public_id_str rid} (raise_sign_count (va_sign_count v) (va_credential_id v) db1)"
    by auto
  show ?thesis
  proof (cases "is_terminal (decided v)")
    case True
    with rest obtain cose db2 where
      "create_receipt env rnd rid (decided v) signer now_utc
              [CMap [(Unsigned 1, Bytes (ds_credential_id submission)),
                     (Unsigned 2, CBool (va_counter_anomaly v))]] (raise_sign_count (va_sign_count v) (va_credential_id v) db1)
        = Inr (cose, db2)" and out: "out = \<lparr>do_state = decided v, do_receipt_cose = Some cose\<rparr>" "s' = s\<lparr>bs_db := db2\<rparr>"
      by (auto simp: ok_iff)
    from create_receipt_seals [OF this(1) refl 1 True] out gen True show ?thesis by auto
  next
    case False
    with rest have out: "out = \<lparr>do_state = decided v, do_receipt_cose = None\<rparr>"
      "s' = s\<lparr>bs_db := raise_sign_count (va_sign_count v) (va_credential_id v) db1\<rparr>" by simp_all
    from nonterminal_sealed [OF 1 False] 1 out gen False decided_cases [of v] show ?thesis by auto
  qed
qed

text \<open>Which of its four outcomes a decision has, and the condition for each.\<close>

definition decision_rule :: "env \<Rightarrow> webauthn_verifier \<Rightarrow> decision_submission \<Rightarrow> u64 \<Rightarrow> i64 \<Rightarrow> request_row
    \<Rightarrow> broker_store \<Rightarrow> request_state \<Rightarrow> bool" where
  "decision_rule env verifier submission now_mono_ns now_utc r s st \<longleftrightarrow>
     (let ctx = ds_approval_context submission;
          elapsed = sint (ac_expires_utc ctx) \<le> sint now_utc
            \<or> (\<exists>d. rr_deadline_mono_ns r = Some d \<and> d \<le> now_mono_ns);
          rotated = db_credential_generation (bs_db s) \<noteq> ac_generation ctx in
      if elapsed then st = Expired
      else if rotated then st = Stale
      else \<exists>pins v. pinned_credentials (ac_generation ctx) s = Inr pins
        \<and> verify_submission (e_sha env) verifier ctx pins submission = Inr v \<and> st = decided v)"

lemma approval_context_ok:
  assumes "approval_context env rid d rp s = Inr ctx"
  shows "\<exists>r digest nonce expires. find_request (bs_db s) (public_id_str rid) = Some r \<and> rr_state r = as_db Pending
     \<and> rr_request_digest r = Some digest \<and> rr_request_nonce r = Some nonce \<and> rr_request_expires_utc r = Some expires
     \<and> ac_request_digest ctx = digest \<and> ac_nonce ctx = nonce \<and> ac_expires_utc ctx = expires
     \<and> ac_generation ctx = rr_generation r \<and> ac_decision ctx = d \<and> ac_rp_id ctx = rp_rp_id rp \<and> ac_origin ctx = rp_origin rp
     \<and> PublicId_bytes env rid = Inr (ac_request_id ctx) \<and> ac_device_id ctx = bs_device_id_bytes s"
  using assms by (auto simp: approval_context_def ok_iff as_from_db split: if_split_asm)

text \<open>The three ways in which a submission can be applied.\<close>

definition decision_elapsed :: "decision_submission \<Rightarrow> u64 \<Rightarrow> i64 \<Rightarrow> request_row \<Rightarrow> bool" where
  "decision_elapsed submission now_mono_ns now_utc r \<longleftrightarrow>
     sint (ac_expires_utc (ds_approval_context submission)) \<le> sint now_utc
     \<or> (\<exists>d. rr_deadline_mono_ns r = Some d \<and> d \<le> now_mono_ns)"

lemma apply_webauthn_submission_cases:
  assumes ok: "apply_webauthn_submission env verifier rnd rid submission rp signer now_mono_ns now_utc s = Inr (out, s')"
    and r: "find_request (bs_db s) (public_id_str rid) = Some r"
  obtains (expired) cose where "decision_elapsed submission now_mono_ns now_utc r"
      "transition_terminal env rnd rid Pending Expired signer now_utc s = Inr (cose, s')"
      "out = \<lparr>do_state = Expired, do_receipt_cose = Some cose\<rparr>"
    | (stale) cose where "\<not> decision_elapsed submission now_mono_ns now_utc r"
      "db_credential_generation (bs_db s) \<noteq> ac_generation (ds_approval_context submission)"
      "transition_terminal env rnd rid Pending Stale signer now_utc s = Inr (cose, s')"
      "out = \<lparr>do_state = Stale, do_receipt_cose = Some cose\<rparr>"
    | (decided) pins v where "\<not> decision_elapsed submission now_mono_ns now_utc r"
      "db_credential_generation (bs_db s) = ac_generation (ds_approval_context submission)"
      "pinned_credentials (ac_generation (ds_approval_context submission)) s = Inr pins"
      "verify_submission (e_sha env) verifier (ds_approval_context submission) pins submission = Inr v"
      "commit_decision env rnd rid submission (ds_approval_context submission) v signer now_utc s = Inr (out, s')"
proof -
  let ?ctx = "ds_approval_context submission"
  from ok obtain elapsed where
    e: "(if sint (ac_expires_utc ?ctx) \<le> sint now_utc then Inr True else deadline_elapsed rid now_mono_ns s) = Inr elapsed" and
    rest: "(if elapsed then
         rbind (transition_terminal env rnd rid Pending Expired signer now_utc s) (\<lambda>(receipt, s).
           Inr (\<lparr>do_state = Expired, do_receipt_cose = Some receipt\<rparr>, s))
       else
         rbind (credential_generation s) (\<lambda>active_generation.
         if active_generation \<noteq> ac_generation ?ctx then
           rbind (transition_terminal env rnd rid Pending Stale signer now_utc s) (\<lambda>(receipt, s).
             Inr (\<lparr>do_state = Stale, do_receipt_cose = Some receipt\<rparr>, s))
         else
           rbind (pinned_credentials active_generation s) (\<lambda>credentials.
           rbind (map_err WebAuthnFailed (verify_submission (e_sha env) verifier ?ctx credentials submission)) (\<lambda>verified.
             commit_decision env rnd rid submission ?ctx verified signer now_utc s)))) = Inr (out, s')"
    by (auto simp: apply_webauthn_submission_def rbind_ok split: if_split_asm)
  have "elapsed \<longleftrightarrow> decision_elapsed submission now_mono_ns now_utc r"
    using e r by (auto simp: decision_elapsed_def deadline_elapsed_def ok_iff split: if_split_asm)
  with rest show thesis
    by (cases elapsed; cases "db_credential_generation (bs_db s) = ac_generation ?ctx")
       (auto simp: rbind_ok map_err_ok case_prod_ok credential_generation_def u64_from_i64_ok intro: expired stale decided)
qed

lemma apply_webauthn_submission_context:
  "apply_webauthn_submission env verifier rnd rid submission rp signer now_mono_ns now_utc s = Inr x \<Longrightarrow>
     approval_context env rid (ac_decision (ds_approval_context submission)) rp s = Inr (ds_approval_context submission)"
  by (auto simp: apply_webauthn_submission_def rbind_ok split: if_split_asm)

lemma apply_webauthn_submission_ok:
  assumes ok: "apply_webauthn_submission env verifier rnd rid submission rp signer now_mono_ns now_utc s = Inr (out, s')"
    and inv: "db_inv (e_sha env) {} (bs_db s)"
  shows "approval_context env rid (ac_decision (ds_approval_context submission)) rp s = Inr (ds_approval_context submission)"
    and "advanced (public_id_str rid) (do_state out) (bs_db s) (bs_db s')"
    and "db_inv (e_sha env) {} (bs_db s')"
    and "find_request (bs_db s) (public_id_str rid) = Some r \<Longrightarrow>
      decision_rule env verifier submission now_mono_ns now_utc r s (do_state out)"
    and "do_receipt_cose out = None \<longleftrightarrow> do_state out = Approved"
proof -
  note ctx = apply_webauthn_submission_context [OF ok]
  from approval_context_ok [OF ctx] obtain r' where r': "find_request (bs_db s) (public_id_str rid) = Some r'" by blast
  have "advanced (public_id_str rid) (do_state out) (bs_db s) (bs_db s') \<and> db_inv (e_sha env) {} (bs_db s')
    \<and> decision_rule env verifier submission now_mono_ns now_utc r' s (do_state out)
    \<and> (do_receipt_cose out = None \<longleftrightarrow> do_state out = Approved)"
    using ok r'
  proof (cases rule: apply_webauthn_submission_cases)
    case (expired cose)
    with transition_terminal_sound [OF expired(2) inv] show ?thesis
      by (simp add: decision_rule_def decision_elapsed_def Let_def)
  next
    case (stale cose)
    with transition_terminal_sound [OF stale(3) inv] show ?thesis
      by (simp add: decision_rule_def decision_elapsed_def Let_def)
  next
    case (decided pins v)
    with commit_decision_ok [OF decided(5) inv] show ?thesis
      by (auto simp: decision_rule_def decision_elapsed_def Let_def)
  qed
  with ctx r' show "approval_context env rid (ac_decision (ds_approval_context submission)) rp s = Inr (ds_approval_context submission)"
    "advanced (public_id_str rid) (do_state out) (bs_db s) (bs_db s')" "db_inv (e_sha env) {} (bs_db s')"
    "find_request (bs_db s) (public_id_str rid) = Some r \<Longrightarrow>
      decision_rule env verifier submission now_mono_ns now_utc r s (do_state out)"
    "do_receipt_cose out = None \<longleftrightarrow> do_state out = Approved" by auto
qed

section \<open>Any operation\<close>

datatype store_op =
    StartBoot "bytes option list" u64 broker_signing_key i64
  | InitializeIdentity "bytes option" broker_signing_key
  | Submit install_policy submit_package_install
  | TransitionNonterminal public_id request_state request_state
  | PrepareForDecision public_id frozen_plan pending_request_context broker_signing_key
  | ReplaceCredentials u64 "credential_pin list"
  | ApplySubmission webauthn_verifier "bytes option" public_id decision_submission relying_party broker_signing_key u64 i64
  | TransitionTerminal "bytes option" public_id request_state request_state broker_signing_key i64
  | ReconcileRecovery "bytes option" public_id bool bytes broker_signing_key i64

text \<open>A failed operation rolls its transaction back.\<close>

definition committed :: "broker_store \<Rightarrow> 'a store_result \<Rightarrow> broker_store" where
  [run]: "committed s res = (case res of Inl _ \<Rightarrow> s | Inr (_, s') \<Rightarrow> s')"

fun run_store :: "env \<Rightarrow> store_op \<Rightarrow> broker_store \<Rightarrow> broker_store" where
  "run_store env (StartBoot rnds epoch signer now) s = committed s (start_boot env rnds epoch signer now s)"
| "run_store env (InitializeIdentity rnd signer) s = committed s (initialize_identity env rnd signer s)"
| "run_store env (Submit policy request) s = committed s (submit env policy request s)"
| "run_store env (TransitionNonterminal rid expected next) s = committed s (transition_nonterminal env rid expected next s)"
| "run_store env (PrepareForDecision rid plan context signer) s = committed s (prepare_for_decision env rid plan context signer s)"
| "run_store env (ReplaceCredentials generation credentials) s = committed s (replace_credentials generation credentials s)"
| "run_store env (ApplySubmission verifier rnd rid submission rp signer now_mono now) s =
     committed s (apply_webauthn_submission env verifier rnd rid submission rp signer now_mono now s)"
| "run_store env (TransitionTerminal rnd rid expected next signer now) s =
     committed s (transition_terminal env rnd rid expected next signer now s)"
| "run_store env (ReconcileRecovery rnd rid succeeded evidence signer now) s =
     committed s (reconcile_recovery env rnd rid succeeded evidence signer now s)"

definition store_inv :: "env \<Rightarrow> broker_store \<Rightarrow> bool" where
  "store_inv env s \<longleftrightarrow> db_inv (e_sha env) {} (bs_db s)"

lemma committed_sound:
  assumes "\<And>x s'. res = Inr (x, s') \<Longrightarrow> sound_step sha (bs_db s) (bs_db s')" and "db_inv sha {} (bs_db s)"
  shows "sound_step sha (bs_db s) (bs_db (committed s res))"
  using assms by (auto simp: committed_def split: sum.split)

lemma run_store_sound:
  assumes "store_inv env s"
  shows "sound_step (e_sha env) (bs_db s) (bs_db (run_store env op s))"
proof -
  note inv = assms [unfolded store_inv_def]
  show ?thesis
    by (cases op; simp; rule committed_sound [OF _ inv])
       (blast intro: start_boot_sound initialize_identity_sound submit_sound replace_credentials_sound inv
          sound_step_advanced dest: transition_nonterminal_sound prepare_for_decision_sound transition_terminal_sound
          reconcile_recovery_sound apply_webauthn_submission_ok(2,3))+
qed

lemma store_inv_step: "store_inv env s \<Longrightarrow> store_inv env (run_store env op s)"
  using run_store_sound by (auto simp: store_inv_def sound_step_def)

lemma store_inv_open:
  "\<exists>s. in_memory env = Inr s \<and> bs_db s = empty_database \<and> store_inv env s"
proof -
  have "fold (\<lambda>migration. migration) MIGRATIONS empty_database = empty_database"
    by (simp add: MIGRATIONS_def empty_database_def)
  moreover have "db_identity empty_database = None" by (simp add: empty_database_def)
  ultimately show ?thesis
    by (simp add: in_memory_def from_connection_def store_inv_def db_inv_empty)
qed

text \<open>A file the broker wrote is read back as it was: opening it again changes nothing.\<close>

lemma reopen:
  assumes "from_connection env \<lparr>cn_user_version = 7, cn_quick_check = str ''ok'', cn_db = db\<rparr> = Inr s"
  shows "bs_db s = db"
  using assms by (auto simp: from_connection_def MIGRATIONS_def ok_iff split: if_splits option.splits)

lemma run_store_at: "store_inv env s \<Longrightarrow> step_at i (bs_db s) (bs_db (run_store env op s))"
  using run_store_sound by (auto simp: sound_step_def)

text \<open>The state of a request; a request that is not stored yet is about to be planned.\<close>

definition request_view :: "bytes \<Rightarrow> broker_store \<Rightarrow> request_state" where
  "request_view i s = (case find_request (bs_db s) i of None \<Rightarrow> Planning | Some r \<Rightarrow> state_of r)"

lemma step_at_view:
  assumes "step_at i (bs_db s) (bs_db s')"
  shows "request_view i s' = request_view i s \<or> store_edge (request_view i s) (request_view i s')"
  using assms state_of_as_db
  by (fastforce simp: step_at_def same_at_def moved_def created_def request_view_def)

interpretation store_machine: lifecycle_machine "store_inv env" "request_view i" "run_store env" store_edge
proof
  show "store_edge s t \<Longrightarrow> \<not> is_terminal s" for s t by (rule store_edge_terminal)
  show "store_edge s t \<Longrightarrow> rank s < rank t" for s t by (rule store_edge_rank)
  show "store_inv env s \<Longrightarrow> store_inv env (run_store env op s)" for op s by (rule store_inv_step)
  show "store_inv env s \<Longrightarrow> request_view i (run_store env op s) = request_view i s
      \<or> store_edge (request_view i s) (request_view i (run_store env op s))" for op s
    by (rule step_at_view) (rule run_store_at)
qed

text \<open>A terminal request never changes again.\<close>

lemma terminal_step_same:
  assumes "store_inv env s" and "find_request (bs_db s) i = Some r" and "is_terminal (state_of r)"
  shows "same_at i (bs_db s) (bs_db (run_store env op s))"
  using run_store_at [OF assms(1), of i op] assms(2,3) store_edge_terminal
  by (auto simp: step_at_def moved_def created_def)

lemma terminal_run_same:
  assumes "store_inv env s" and "find_request (bs_db s) i = Some r" and "is_terminal (state_of r)"
  shows "same_at i (bs_db s) (bs_db (fold (run_store env) ops s))"
  using assms
proof (induction ops arbitrary: s)
  case (Cons op ops)
  note same = terminal_step_same [OF Cons.prems, of op]
  then have "find_request (bs_db (run_store env op s)) i = Some r" using Cons.prems(2) by (simp add: same_at_def)
  from Cons.IH [OF store_inv_step [OF Cons.prems(1)] this Cons.prems(3)] same show ?case
    using same_at_trans by simp
qed simp

text \<open>A stored request keeps what it was submitted with.\<close>

lemma same_intake_refl [simp]: "same_intake r r"
  by (simp add: same_intake_def)

lemma same_intake_trans: "same_intake r r' \<Longrightarrow> same_intake r' r'' \<Longrightarrow> same_intake r r''"
  by (simp add: same_intake_def)

lemma intake_step:
  assumes "store_inv env s" and "find_request (bs_db s) i = Some r"
  shows "\<exists>r'. find_request (bs_db (run_store env op s)) i = Some r' \<and> same_intake r r'"
  using run_store_at [OF assms(1), of i op] assms(2)
  by (auto simp: step_at_def same_at_def moved_def created_def)

lemma intake_run:
  assumes "store_inv env s" and "find_request (bs_db s) i = Some r"
  shows "\<exists>r'. find_request (bs_db (fold (run_store env) ops s)) i = Some r' \<and> same_intake r r'"
  using assms
proof (induction ops arbitrary: s r)
  case (Cons op ops)
  from intake_step [OF Cons.prems, of op] obtain r' where
    "find_request (bs_db (run_store env op s)) i = Some r'" "same_intake r r'" by blast
  with Cons.IH [OF store_inv_step [OF Cons.prems(1)]] show ?case
    using same_intake_trans by fastforce
qed simp

end
