(* ===== verification/Store_Contracts.thy ===== *)
theory Store_Contracts
  imports Store_Operations
begin

text \<open>
  What the operations of the store promise to their callers: \<open>events\<close> returns the chain of the
  invariant, a second submission under the same key finds the first request, signed requests and
  receipts verify and say what the tables say, a decision is applied at most once, and the stored
  log refines the in-memory \<open>lifecycle_record\<close>.
\<close>

section \<open>Queries\<close>

lemma reason_roundtrip [simp]: "transition_reason_from_code (reason_code c) = Inr c"
  by (cases c) (simp_all add: transition_reason_from_code_def)

lemma event_of_row_of_event:
  assumes "length (ev_event_digest e) = 32" and "\<And>d. ev_previous_event_digest e = Some d \<Longrightarrow> length d = 32"
    and "0 \<le> sint (ev_sequence e)"
  shows "event_of_row (row_of_event i e) = Inr e"
  using assms
  by (cases "ev_previous_event_digest e")
     (simp_all add: event_of_row_def row_of_event_def fixed_array_def u64_from_i64_def from_as_db)

lemma chain_previous:
  assumes "chain sha i n prev es" and "list_all (\<lambda>e. length (ev_event_digest e) = 32) es"
    and "\<And>d. prev = Some d \<Longrightarrow> length d = 32" and "e \<in> set es" and "ev_previous_event_digest e = Some d"
  shows "length d = 32"
  using assms
proof (induction es arbitrary: n prev)
  case (Cons f es)
  have "ev_previous_event_digest f = prev"
    using Cons.prems(1) arg_cong [of f _ ev_previous_event_digest]
    by (metis chain.simps(2) event_of_def lifecycle_event.select_convs(2))
  with Cons show ?case by fastforce
qed simp

text \<open>\<^verbatim>\<open>BrokerStore::events\<close> returns the chain of the invariant.\<close>

lemma events_inv:
  assumes "event_rows (bs_db s) i = map (row_of_event i) es" and hist: "history_inv sha i st es"
    and i: "i = public_id_str rid"
  shows "events rid s = Inr es"
proof -
  have "event_of_row (row_of_event i e) = Inr e" if "e \<in> set es" for e
  proof (rule event_of_row_of_event)
    show "length (ev_event_digest e) = 32" using hist that by (auto simp: history_inv_def list_all_iff)
    show "length d = 32" if "ev_previous_event_digest e = Some d" for d
      using chain_previous [of sha "PublicId i" 0 None es e d] hist \<open>e \<in> set es\<close> that by (simp add: history_inv_def)
    have "map ev_sequence es = map (\<lambda>k. of_nat (Suc (0 + k))) [0..<length es]"
      using hist by (intro chain_sequences [of sha "PublicId i" 0 None]) (simp add: history_inv_def)
    moreover have "ev_sequence e \<in> set (map ev_sequence es)" using \<open>e \<in> set es\<close> by simp
    ultimately obtain k where "ev_sequence e = of_nat (Suc k)" "k < length es"
      by (auto simp del: of_nat_Suc)
    with history_short [OF hist] show "0 \<le> sint (ev_sequence e)" by (simp add: sint_small del: of_nat_Suc)
  qed
  then show ?thesis
    using events_of_rows [OF assms(1,2)] by (simp add: events_def i [symmetric] collect_results_ok)
qed

section \<open>Submission\<close>

lemma uid_roundtrip: "u32_from_i64 e (uid_i64 u) = Inr (as_u32 u)"
proof -
  have lt: "uint (as_u32 u) < 2 ^ 32" using uint_bounded [of "as_u32 u"] by simp
  have "- (2 ^ 63) \<le> uint (as_u32 u)" by (rule order_trans [of _ 0]) simp_all
  then have "sint (ucast (as_u32 u) :: i64) = uint (as_u32 u)"
    using lt signed_take_bit_int_eq_self [of 63 "uint (as_u32 u)"] by (simp add: signed_ucast_eq)
  moreover note lt
  ultimately show ?thesis by (simp add: uid_i64_def u32_from_i64_def ucast_up_ucast_id is_up)
qed

lemma find_unique:
  assumes "distinct (map f xs)" and "x \<in> set xs"
  shows "find (\<lambda>y. f y = f x) xs = Some x"
  using assms by (induction xs) (auto simp: rev_image_eqI)

lemma lookup_stored:
  assumes inv: "db_inv sha X db" and r: "find_request db i = Some r"
    and "rr_requester_uid r = uid_i64 u" and "rr_operation_key r = operation_key_str k"
    and parse: "PublicId_parse i = Inr rid"
  shows "lookup_idempotency db u k = Inr (Some (rr_input_digest r,
     \<lparr>sm_request_id = rid, sm_requester_uid = u, sm_state = state_of r, sm_generation = rr_generation r\<rparr>))"
proof -
  have row: "r \<in> set (db_requests db)" "rr_request_id r = i" using find_request_SomeD [OF r] by simp_all
  have checks: "request_checks r" using requests_ok_checks [OF db_inv_ok [OF inv] row(1)] .
  have "find (\<lambda>x. (rr_requester_uid x, rr_operation_key x) = (rr_requester_uid r, rr_operation_key r)) (db_requests db) = Some r"
    using db_inv_ok [OF inv] row(1) by (intro find_unique) (simp_all add: requests_ok_def)
  then have "find (\<lambda>x. rr_requester_uid x = uid_i64 u \<and> rr_operation_key x = operation_key_str k) (db_requests db) = Some r"
    by (simp add: assms(3,4))
  moreover have "length (rr_input_digest r) = 32" "0 \<le> sint (rr_generation r)"
    using checks by (simp_all add: request_checks_def)
  ultimately show ?thesis
    using db_inv_state [OF inv r] parse row(2)
    by (simp add: lookup_idempotency_def fixed_array_def summary_from_values_def uid_roundtrip from_as_db u64_from_i64_def)
qed

text \<open>Submitting again with the same requester and operation key.\<close>

lemma submit_again:
  assumes inv: "db_inv (e_sha env) X (bs_db s)" and r: "find_request (bs_db s) i = Some r"
    and key: "rr_requester_uid r = uid_i64 (sp_requester_uid request)"
      "rr_operation_key r = operation_key_str (sp_operation_key request)"
    and parse: "PublicId_parse i = Inr rid"
  shows "submit env policy request s =
     (if policy (sp_requester_uid request) (sp_package_name request) = PolicyDeny then Inl PolicyDenied
      else if rr_input_digest r = input_digest (e_sha env) (sp_package_name request)
      then Inr (Existing \<lparr>sm_request_id = rid, sm_requester_uid = sp_requester_uid request,
          sm_state = state_of r, sm_generation = rr_generation r\<rparr>, s)
      else Inl IdempotencyConflict)"
  using lookup_stored [OF inv r key parse] by (simp add: submit_def Let_def)

lemma submit_twice:
  assumes "submit env policy request s = Inr (Created summary, s')" and inv: "store_inv env s"
    and valid: "PublicId_parse (public_id_str (sp_request_id request)) = Inr (sp_request_id request)"
    and again: "sp_requester_uid retry = sp_requester_uid request" "sp_operation_key retry = sp_operation_key request"
  shows "submit env policy' retry (fold (run_store env) ops s') =
     (if policy' (sp_requester_uid retry) (sp_package_name retry) = PolicyDeny then Inl PolicyDenied
      else if input_digest (e_sha env) (sp_package_name request) = input_digest (e_sha env) (sp_package_name retry)
      then Inr (Existing \<lparr>sm_request_id = sp_request_id request, sm_requester_uid = sp_requester_uid request,
          sm_state = request_view (public_id_str (sp_request_id request)) (fold (run_store env) ops s'),
          sm_generation = sp_generation request\<rparr>, fold (run_store env) ops s')
      else Inl IdempotencyConflict)"
proof -
  let ?i = "public_id_str (sp_request_id request)"
  let ?s = "fold (run_store env) ops s'"
  let ?r = "new_request_row (e_sha env) (bs_device_id s) request (sp_generation request)"
  from submit_cases [OF assms(1) inv [unfolded store_inv_def]] have
    s': "store_inv env s'" "find_request (bs_db s') ?i = Some ?r"
    by (auto simp: store_inv_def)
  from intake_run [OF s'] obtain r where r: "find_request (bs_db ?s) ?i = Some r" "same_intake ?r r" by blast
  have "db_inv (e_sha env) {} (bs_db ?s)"
    using store_machine.good_run [OF s'(1)] by (simp add: store_inv_def)
  from submit_again [where policy = policy' and request = retry, OF this r(1) _ _ valid] r again show ?thesis
    by (simp add: same_intake_def new_request_row_def request_view_def)
qed

section \<open>Signed messages of the broker\<close>

text \<open>A key under which the signatures of \<open>signer\<close> are checked, at a time inside its window.\<close>

definition broker_key_for :: "env \<Rightarrow> broker_signing_key \<Rightarrow> ('pk \<Rightarrow> bytes \<Rightarrow> bytes \<Rightarrow> bool) \<Rightarrow> 'pk verification_key \<Rightarrow> i64 \<Rightarrow> bool" where
  "broker_key_for env signer ed_verify key now \<longleftrightarrow>
     (\<forall>msg. ed_verify (vk_public_key key) msg (e_ed_sign env (sg_key signer) msg)
        \<and> length (e_ed_sign env (sg_key signer) msg) = 64)
   \<and> vk_kid key = sg_kid signer \<and> RoleBroker \<in> set (vk_roles key)
   \<and> sint (vk_not_before_utc key) \<le> sint now \<and> sint now < sint (vk_not_after_utc key)"

lemma sign_envelope_verifies:
  assumes "sign_envelope env signer payload content_type d = Inr b" and "broker_key_for env signer ed_verify key now"
  shows "\<exists>c. CoseSign1_decode b = Inr c \<and> cs_payload c = payload
     \<and> CoseSign1_verify ed_verify c key \<lparr>vp_content_type = content_type, vp_domain = d, vp_required_role = RoleBroker, vp_now_utc = now\<rparr> = Inr ()"
proof -
  from assms(1) obtain c where
    c: "CoseSign1_sign (e_ed_sign env) payload (sg_kid signer) content_type d (sg_key signer) = Inr c" "CoseSign1_encode c = Inr b"
    by (auto simp: sign_envelope_def ok_iff)
  from c(1) have "cs_payload c = payload" "\<exists>msg. cs_signature c = e_ed_sign env (sg_key signer) msg"
    by (auto simp: CoseSign1_sign_def ok_iff)
  moreover from this(2) assms(2) have "length (cs_signature c) = 64" by (auto simp: broker_key_for_def)
  with c(2) have "CoseSign1_decode b = Inr c" using cose.dec_of_enc [of c b] by simp
  moreover have "CoseSign1_verify ed_verify c key
      \<lparr>vp_content_type = content_type, vp_domain = d, vp_required_role = RoleBroker, vp_now_utc = now\<rparr> = Inr ()"
    by (rule sign_verify [OF c(1)]) (use assms(2) in \<open>simp_all add: broker_key_for_def\<close>)
  ultimately show ?thesis by blast
qed

text \<open>What the receipt of a terminal request says.\<close>

definition receipt_says :: "env \<Rightarrow> database \<Rightarrow> public_id \<Rightarrow> request_state \<Rightarrow> i64 \<Rightarrow> receipt_msg \<Rightarrow> bool" where
  "receipt_says env db rid st now m \<longleftrightarrow>
     PublicId_bytes env rid = Inr (rc_request_id m) \<and> rc_terminal_state m = receipt_state_code st
   \<and> rc_completed_utc m = now \<and> sint (rc_created_utc m) \<le> sint now
   \<and> (\<exists>r. find_request db (public_id_str rid) = Some r
        \<and> rc_request_digest m = (case rr_request_digest r of Some d \<Rightarrow> d | None \<Rightarrow> rr_input_digest r)
        \<and> rc_plan_digest m = (case rr_plan_digest r of Some d \<Rightarrow> d | None \<Rightarrow> zero_digest)
        \<and> rc_created_utc m = rr_created_utc r)"

lemma receipt_of_says:
  assumes "receipt_of env db r cid rid t now ev = Inr m" and "find_request db (public_id_str rid) = Some r"
    and "Receipt_canonical_bytes m = Inr payload"
  shows "Receipt_decode payload = Inr (Receipt_norm m) \<and> receipt_says env db rid t now (Receipt_norm m)"
proof -
  have dec: "Receipt_decode payload = Inr (Receipt_norm m)"
    using assms(3) by (rule receipt_msg.dec_of_enc)
  have "Receipt_valid m"
    using assms(3) receipt_msg.from_to_cbor by (auto simp: Receipt_canonical_bytes_def ok_iff receipt_msg.validate_iff)
  with assms(1,2) dec show ?thesis
    by (auto simp: receipt_of_def ok_iff receipt_says_def Receipt_norm_def Receipt_valid_def split: option.splits)
qed

lemma create_receipt_signed:
  assumes "create_receipt env rnd rid t signer now ev db = Inr (b, db')"
    and "broker_key_for env signer ed_verify key at"
  shows "\<exists>c m. CoseSign1_decode b = Inr c
     \<and> CoseSign1_verify ed_verify c key \<lparr>vp_content_type = 3, vp_domain = DomainReceipt, vp_required_role = RoleBroker, vp_now_utc = at\<rparr> = Inr ()
     \<and> Receipt_decode (cs_payload c) = Inr m \<and> receipt_says env db rid t now m"
proof -
  from assms(1) obtain cid r m payload where
    r: "find_request db (public_id_str rid) = Some r" "receipt_of env db r cid rid t now ev = Inr m"
      "Receipt_canonical_bytes m = Inr payload" "sign_envelope env signer payload 3 DomainReceipt = Inr b"
    by (auto simp: create_receipt_def ok_iff if_ok)
  from receipt_of_says [OF r(2,1,3)] sign_envelope_verifies [OF r(4) assms(2)] show ?thesis by blast
qed

lemma receipt_says_cong:
  assumes "receipt_says env db rid t now m" and "find_request db (public_id_str rid) = Some r"
    and "find_request db' (public_id_str rid) = Some r'"
    and "rr_request_digest r' = rr_request_digest r" "rr_input_digest r' = rr_input_digest r"
      "rr_plan_digest r' = rr_plan_digest r" "rr_created_utc r' = rr_created_utc r"
  shows "receipt_says env db' rid t now m"
  using assms by (auto simp: receipt_says_def split: option.splits)

lemma find_filter: "find P xs = (case filter P xs of [] \<Rightarrow> None | x # _ \<Rightarrow> Some x)"
  by (induction xs) auto

text \<open>After a receipt was created for a terminal request, \<^verbatim>\<open>receipt\<close> returns it.\<close>

lemma create_receipt_returned:
  assumes c: "create_receipt env rnd rid t signer now ev db = Inr (b, db')" and "db_inv sha {} db'"
    and "find_request db' (public_id_str rid) = Some r" and "rr_state r = as_db t" and "is_terminal t" and "bs_db s = db'"
  shows "receipt rid s = Inr (Some b)"
proof -
  let ?i = "public_id_str rid"
  from create_receipt_ok [OF c] obtain x where x: "x \<in> set (receipt_rows db' ?i)" "cr_cose_bytes x = b"
    by (fastforce simp: receipt_rows_def)
  from db_inv_at [OF assms(2,3)] have "\<exists>y. receipt_rows db' ?i = [y]"
    using x(1) assms(4,5) state_of_as_db [OF assms(4)] by (auto simp: request_inv_def receipts_inv_def)
  with x obtain "receipt_rows db' ?i = [x]" by auto
  then show ?thesis using x(2) assms(6) by (simp add: receipt_def receipt_rows_def find_filter)
qed

lemma transition_terminal_receipt:
  assumes "transition_terminal env rnd rid expected next signer now s = Inr (b, s')" and inv: "store_inv env s"
    and "broker_key_for env signer ed_verify key at"
  shows "receipt rid s' = Inr (Some b) \<and> (\<exists>c m. CoseSign1_decode b = Inr c
     \<and> CoseSign1_verify ed_verify c key \<lparr>vp_content_type = 3, vp_domain = DomainReceipt, vp_required_role = RoleBroker, vp_now_utc = at\<rparr> = Inr ()
     \<and> Receipt_decode (cs_payload c) = Inr m \<and> receipt_says env (bs_db s) rid next now m)"
proof -
  let ?i = "public_id_str rid"
  note inv = inv [unfolded store_inv_def]
  from assms(1) obtain db1 db2 where guard: "is_terminal next" "permits expected next" and
    t: "append_transition env rid (Some expected) next (transition_reason next) (bs_db s) = Inr db1" and
    c: "create_receipt env rnd rid next signer now [] db1 = Inr (b, db2)" and s': "s' = s\<lparr>bs_db := db2\<rparr>"
    by (auto simp: transition_terminal_def transition_terminal_with_evidence_def ok_iff split: if_splits)
  have edge: "store_edge expected next" using guard by (simp add: store_edge_def)
  from permitted_transition [OF t inv refl edge] obtain r e where
    r: "find_request (bs_db s) ?i = Some r" and db1: "db1 = transitioned ?i next e (bs_db s)"
    by blast
  have r1: "find_request db1 ?i = Some (r\<lparr>rr_state := as_db next\<rparr>)"
    unfolding db1 transitioned_find using r by simp
  from close_request [OF t c inv edge guard(1)] obtain r2 where
    "db_inv (e_sha env) {} db2" "find_request db2 ?i = Some r2" "rr_state r2 = as_db next" by (auto simp: advanced_def moved_def)
  from create_receipt_returned [OF c this guard(1)] have "receipt rid s' = Inr (Some b)" by (simp add: s')
  with create_receipt_signed [OF c assms(3)] receipt_says_cong [OF _ r1 r] show ?thesis
    by fastforce
qed

section \<open>From preparation to decision\<close>

lemma canon_plan [simp]: "canon (FrozenPlan_to_cbor p) = FrozenPlan_to_cbor p"
  using canon_ukeys [of "[(1, Text (package_name_str (fp_package_name p))), (2, Bytes (fp_manifest_digest p)),
      (3, Unsigned (ucast (fp_action_count p)))]"]
  by (simp add: FrozenPlan_to_cbor_def plan_view_def del: canon.simps(2))

text \<open>The request that \<^verbatim>\<open>prepare_for_decision\<close> signs carries the trusted planner's digest and the
  broker's own context.\<close>

definition request_says :: "env \<Rightarrow> broker_store \<Rightarrow> public_id \<Rightarrow> frozen_plan \<Rightarrow> pending_request_context \<Rightarrow> request \<Rightarrow> bool" where
  "request_says env s rid plan ctx q \<longleftrightarrow>
     PublicId_bytes env rid = Inr (rq_request_id q) \<and> rq_device_id q = bs_device_id_bytes s
   \<and> oi_package_name (rq_operation_input q) = package_name_str (fp_package_name plan)
   \<and> rq_plan_digest q = fp_plan_digest plan \<and> rq_frozen_plan q = FrozenPlan_to_cbor plan
   \<and> rq_nonce q = px_nonce ctx \<and> rq_expires_utc q = px_expires_utc ctx \<and> rq_deadline_mono_ns q = px_deadline_mono_ns ctx
   \<and> rq_policy_digest q = px_policy_digest ctx
   \<and> (\<exists>r. find_request (bs_db s) (public_id_str rid) = Some r \<and> rr_generation r = rq_generation q
        \<and> rr_requester_uid r = rq_requester_uid q)"

text \<open>What \<^verbatim>\<open>prepare_for_decision\<close> writes into the row.\<close>

definition freeze_row :: "frozen_plan \<Rightarrow> pending_request_context \<Rightarrow> digest \<Rightarrow> bytes \<Rightarrow> bytes \<Rightarrow> request_row \<Rightarrow> request_row" where
  "freeze_row plan ctx digest cose plan_bytes r = r\<lparr>
     rr_plan_digest := Some (fp_plan_digest plan), rr_request_digest := Some digest,
     rr_request_cose := Some cose, rr_request_nonce := Some (px_nonce ctx),
     rr_request_boot_id := Some (px_boot_id ctx), rr_request_policy_id := Some (px_policy_id ctx),
     rr_request_policy_digest := Some (px_policy_digest ctx), rr_request_frozen_plan := Some plan_bytes,
     rr_request_expires_utc := Some (px_expires_utc ctx), rr_deadline_mono_ns := Some (px_deadline_mono_ns ctx),
     rr_created_utc := px_created_utc ctx, rr_updated_utc := px_created_utc ctx\<rparr>"

lemma prepare_for_decision_writes:
  assumes "prepare_for_decision env rid plan ctx signer s = Inr (b, s')" and inv: "db_inv (e_sha env) {} (bs_db s)"
    and i: "i = public_id_str rid"
  obtains r q digest payload plan_bytes db1 e identity where
    "find_request (bs_db s) i = Some r" "rr_package_name r = package_name_str (fp_package_name plan)"
    "pending_request env s rid r plan ctx = Inr q" "Request_digest (e_sha env) q = Inr digest"
    "Request_canonical_bytes q = Inr payload" "sign_envelope env signer payload 1 DomainRequest = Inr b"
    "encode (rq_frozen_plan q) = Inr plan_bytes"
    "db1 = transitioned i Pending e (bs_db s)" "db_inv (e_sha env) {i} db1"
    "requests_ok (update_request i (freeze_row plan ctx digest b plan_bytes) db1)"
    "s' = s\<lparr>bs_db := db1\<lparr>db_requests := update_request i (freeze_row plan ctx digest b plan_bytes) db1\<rparr>\<rparr>"
    "db_identity (bs_db s) = Some identity" "bi_key_kid identity = sg_kid signer" "bi_public_key identity = sg_public_key signer"
proof -
  from assms(1) obtain r q digest payload plan_bytes db1 identity where
    r: "find_request (bs_db s) i = Some r" "rr_package_name r = package_name_str (fp_package_name plan)" and
    q: "pending_request env s rid r plan ctx = Inr q" "Request_digest (e_sha env) q = Inr digest"
      "Request_canonical_bytes q = Inr payload" "sign_envelope env signer payload 1 DomainRequest = Inr b"
      "encode (rq_frozen_plan q) = Inr plan_bytes" and
    t: "append_transition env rid (Some Planning) Pending ReasonPlannerPending (bs_db s) = Inr db1" and
    w: "requests_ok (update_request i (freeze_row plan ctx digest b plan_bytes) db1)"
      "s' = s\<lparr>bs_db := db1\<lparr>db_requests := update_request i (freeze_row plan ctx digest b plan_bytes) db1\<rparr>\<rparr>" and
    id: "db_identity (bs_db s) = Some identity" "bi_key_kid identity = sg_kid signer" "bi_public_key identity = sg_public_key signer"
    by (fastforce simp: prepare_for_decision_def rbind_ok write_requests_ok i64_from_u64_ok ensure_identity_ok map_err_ok Let_def i
        freeze_row_def [abs_def] split: option.split_asm if_split_asm)
  have "store_edge Planning Pending" by (simp add: store_edge_def)
  from permitted_transition [OF t inv i this] obtain e where "db1 = transitioned i Pending e (bs_db s)" "db_inv (e_sha env) {i} db1" by blast
  from that [OF r q this w id] show thesis .
qed

lemma prepare_for_decision_ok:
  assumes "prepare_for_decision env rid plan ctx signer s = Inr (b, s')" and inv: "db_inv (e_sha env) {} (bs_db s)"
  shows "\<exists>q digest payload r r'. Request_digest (e_sha env) q = Inr digest \<and> Request_canonical_bytes q = Inr payload
     \<and> sign_envelope env signer payload 1 DomainRequest = Inr b \<and> request_says env s rid plan ctx q
     \<and> find_request (bs_db s) (public_id_str rid) = Some r \<and> request_checks r'
     \<and> find_request (bs_db s') (public_id_str rid) = Some r' \<and> rr_generation r' = rr_generation r
     \<and> rr_state r' = as_db Pending \<and> rr_request_digest r' = Some digest \<and> rr_request_nonce r' = Some (px_nonce ctx)
     \<and> rr_request_expires_utc r' = Some (px_expires_utc ctx) \<and> rr_deadline_mono_ns r' = Some (px_deadline_mono_ns ctx)
     \<and> db_identity (bs_db s') = db_identity (bs_db s) \<and> bs_device_id_bytes s' = bs_device_id_bytes s
     \<and> (\<exists>i. db_identity (bs_db s) = Some i \<and> 0 \<le> sint (bi_broker_epoch i))"
proof -
  let ?i = "public_id_str rid"
  obtain r q digest payload plan_bytes db1 e identity where
    r: "find_request (bs_db s) ?i = Some r" "rr_package_name r = package_name_str (fp_package_name plan)" and
    q: "pending_request env s rid r plan ctx = Inr q" "Request_digest (e_sha env) q = Inr digest"
      "Request_canonical_bytes q = Inr payload" "sign_envelope env signer payload 1 DomainRequest = Inr b" and
    db1: "db1 = transitioned ?i Pending e (bs_db s)" and
    ok: "requests_ok (update_request ?i (freeze_row plan ctx digest b plan_bytes) db1)" and
    s': "s' = s\<lparr>bs_db := db1\<lparr>db_requests := update_request ?i (freeze_row plan ctx digest b plan_bytes) db1\<rparr>\<rparr>"
    by (rule prepare_for_decision_writes [OF assms refl])
  let ?f = "freeze_row plan ctx digest b plan_bytes" and ?r = "freeze_row plan ctx digest b plan_bytes (r\<lparr>rr_state := as_db Pending\<rparr>)"
  have "find_request db1 ?i = Some (r\<lparr>rr_state := as_db Pending\<rparr>)"
    unfolding db1 transitioned_find using r by simp
  moreover have "rr_request_id (?f x) = rr_request_id x" for x by (simp add: freeze_row_def)
  ultimately have r': "find_request (bs_db s') ?i = Some ?r"
    using find_update_request [where f = ?f and db = db1 and db' = db1 and i = ?i and j = ?i] by (simp add: s')
  have checks: "request_checks ?r"
    using ok find_request_SomeD [OF r'] requests_ok_checks by (auto simp: s')
  have says: "request_says env s rid plan ctx q" "\<exists>i. db_identity (bs_db s) = Some i \<and> 0 \<le> sint (bi_broker_epoch i)"
    using q(1) r by (auto simp: pending_request_def ok_iff request_says_def OperationInput_package_install_def split: if_splits)
  show ?thesis
    by (rule exI [of _ q], rule exI [of _ digest], rule exI [of _ payload], rule exI [of _ r], rule exI [of _ ?r])
       (intro conjI; (rule q r(1) r' checks says)?; simp add: freeze_row_def s' db1)
qed

lemma prepare_then_decide:
  assumes prep: "prepare_for_decision env rid plan ctx signer s = Inr (b, s')" and inv: "store_inv env s"
    and key: "broker_key_for env signer ed_verify key at"
  shows "\<exists>c q. CoseSign1_decode b = Inr c
     \<and> CoseSign1_verify ed_verify c key \<lparr>vp_content_type = 1, vp_domain = DomainRequest, vp_required_role = RoleBroker, vp_now_utc = at\<rparr> = Inr ()
     \<and> Request_decode (cs_payload c) = Inr q \<and> request_says env s rid plan ctx q
     \<and> (\<exists>a. approval_context env rid d rp s' = Inr a \<and> Request_digest (e_sha env) q = Inr (ac_request_digest a)
          \<and> ac_request_id a = rq_request_id q \<and> ac_generation a = rq_generation q \<and> ac_nonce a = rq_nonce q
          \<and> ac_expires_utc a = rq_expires_utc q \<and> ac_device_id a = rq_device_id q
          \<and> ac_decision a = d \<and> ac_rp_id a = rp_rp_id rp \<and> ac_origin a = rp_origin rp)"
proof -
  from prepare_for_decision_ok [OF prep inv [unfolded store_inv_def]] obtain q digest payload r r' i where
    q: "Request_digest (e_sha env) q = Inr digest" "Request_canonical_bytes q = Inr payload"
      "sign_envelope env signer payload 1 DomainRequest = Inr b" "request_says env s rid plan ctx q" and
    r: "find_request (bs_db s) (public_id_str rid) = Some r" "rr_generation r' = rr_generation r" and
    r': "request_checks r'" "find_request (bs_db s') (public_id_str rid) = Some r'" "rr_state r' = as_db Pending"
      "rr_request_digest r' = Some digest" "rr_request_nonce r' = Some (px_nonce ctx)"
      "rr_request_expires_utc r' = Some (px_expires_utc ctx)" and
    id: "db_identity (bs_db s') = Some i" "0 \<le> sint (bi_broker_epoch i)" "bs_device_id_bytes s' = bs_device_id_bytes s"
    by auto
  have "Request_norm q = q" using q(4) by (simp add: Request_norm_def request_says_def)
  with q(2) have "Request_decode payload = Inr q" using request.dec_of_enc [of q payload] by simp
  moreover have "\<exists>a. approval_context env rid d rp s' = Inr a \<and> digest = ac_request_digest a
          \<and> ac_request_id a = rq_request_id q \<and> ac_generation a = rq_generation q \<and> ac_nonce a = rq_nonce q
          \<and> ac_expires_utc a = rq_expires_utc q \<and> ac_device_id a = rq_device_id q
          \<and> ac_decision a = d \<and> ac_rp_id a = rp_rp_id rp \<and> ac_origin a = rp_origin rp"
    using r' id q(4) r
    by (auto simp: approval_context_def from_as_db [of Pending, simplified] u64_from_i64_def fixed_array_def request_checks_def opt_length_def request_says_def)
  ultimately show ?thesis
    using sign_envelope_verifies [OF q(3) key] q(1,4) by fastforce
qed

section \<open>Decisions are single use\<close>

lemma advanced_state:
  assumes "advanced i t db db'"
  shows "\<exists>r'. find_request db' i = Some r' \<and> rr_state r' = as_db t"
  using assms by (auto simp: advanced_def moved_def)

lemma approval_context_closed:
  assumes "find_request (bs_db s) (public_id_str rid) = Some r" and "rr_state r = as_db t" and "t \<noteq> Pending"
  shows "approval_context env rid d rp s \<noteq> Inr a"
  using approval_context_ok [of env rid d rp s a] assms by (auto simp del: as_db.simps)

lemma decision_again:
  assumes "advanced (public_id_str rid) t db (bs_db s)" and "t \<noteq> Pending"
  shows "apply_webauthn_submission env verifier rnd rid submission rp signer now_mono now s \<noteq> Inr x"
  using advanced_state [OF assms(1)] approval_context_closed [OF _ _ assms(2)]
  by (auto simp: apply_webauthn_submission_def ok_iff)

section \<open>The store and the in-memory record\<close>

text \<open>\<open>represents\<close>: the record \<open>r\<close> is the in-memory form of the stored request \<open>i\<close>.\<close>

definition represents :: "broker_store \<Rightarrow> public_id \<Rightarrow> lifecycle_record \<Rightarrow> bool" where
  "represents s rid r \<longleftrightarrow> lr_request_id r = rid \<and> events rid s = Inr (lr_events r)
     \<and> request_view (public_id_str rid) s = lr_state r"

lemma append_event_next:
  assumes "history_inv sha i st (lr_events r)" and "lr_request_id r = PublicId i"
  shows "lr_events (append_event sha t c r) = lr_events r @ [next_event sha i (lr_events r) t c]"
proof -
  have "length (lr_events r) \<le> 6" "lr_events r \<noteq> []" using assms(1) history_short [OF assms(1)] by (simp_all add: history_inv_def)
  moreover from this(1) have "saturating_add (of_nat (length (lr_events r))) (1 :: u64) = of_nat (Suc (length (lr_events r)))"
    by (simp add: saturating_add_def unat_of_nat)
  ultimately show ?thesis
    using assms(2) by (simp add: append_event_def Let_def next_event_def event_of_def last_digest_def del: of_nat_Suc)
qed

lemma transition_refines:
  assumes "append_transition env rid (Some expected) t c (bs_db s) = Inr db'" and inv: "store_inv env s"
    and edge: "store_edge expected t" and rep: "represents s rid r"
  shows "represents (s\<lparr>bs_db := db'\<rparr>) rid (winner (e_sha env) t c r)"
proof -
  let ?i = "public_id_str rid"
  have rid: "rid = PublicId ?i" by simp
  from permitted_transition [OF assms(1) inv [unfolded store_inv_def] refl edge] obtain es where
    es: "event_rows (bs_db s) ?i = map (row_of_event ?i) es" "history_inv (e_sha env) ?i expected es" and
    db': "db' = transitioned ?i t (next_event (e_sha env) ?i es t c) (bs_db s)" and
    adv: "advanced ?i t (bs_db s) db'" "db_inv (e_sha env) {?i} db'" by blast
  have "lr_events r = es" using events_inv [OF es refl] rep by (simp add: represents_def)
  then have ev: "lr_events (winner (e_sha env) t c r) = es @ [next_event (e_sha env) ?i es t c]"
    using append_event_next [of "e_sha env" ?i expected r t c] es(2) rep rid by (simp add: events_winner represents_def)
  from advanced_state [OF adv(1)] obtain r' where r': "find_request db' ?i = Some r'" "rr_state r' = as_db t" by blast
  from db_inv_at [OF adv(2) r'(1)] obtain es' where
    es': "event_rows db' ?i = map (row_of_event ?i) es'" "history_inv (e_sha env) ?i t es'"
    using state_of_as_db [OF r'(2)] by (auto simp: request_inv_def)
  have "event_rows db' ?i = map (row_of_event ?i) (es @ [next_event (e_sha env) ?i es t c])"
    unfolding db' transitioned_views es by simp
  moreover have "row_of_event ?i a = row_of_event ?i b \<Longrightarrow> a = b" for a b
    by (cases a; cases b) (simp add: row_of_event_def)
  ultimately have "es' = es @ [next_event (e_sha env) ?i es t c]"
    using es'(1) by (metis (no_types, lifting) injI map_injective)
  with events_inv [of "s\<lparr>bs_db := db'\<rparr>", OF _ es'(2) refl] es'(1) ev rep r' state_of_as_db [OF r'(2)] show ?thesis
    by (simp add: represents_def request_view_def)
qed

section \<open>Names the schema refuses\<close>

lemma prepare_digit_name:
  assumes "find_request (bs_db s) (public_id_str rid) = Some r" and "rr_package_name r = b # bs" and "is_ascii_digit b"
  shows "prepare_for_decision env rid plan ctx signer s \<noteq> Inr x"
proof -
  have "\<not> is_ascii_lowercase b"
    using assms(3) by (auto simp: is_ascii_digit_def is_ascii_lowercase_def word_le_nat_alt)
  then show ?thesis
    using assms(1,2)
    by (auto simp: prepare_for_decision_def ok_iff if_ok Let_def pending_request_def OperationInput_package_install_def
        valid_package_name_def split: option.splits if_splits)
qed

lemma deadline_known:
  assumes "apply_webauthn_submission env verifier rnd rid submission rp signer now_mono_ns now_utc s = Inr out"
    and "sint now_utc < sint (ac_expires_utc (ds_approval_context submission))"
    and "find_request (bs_db s) (public_id_str rid) = Some r"
  shows "\<exists>d. rr_deadline_mono_ns r = Some d"
  using assms by (auto simp: apply_webauthn_submission_def deadline_elapsed_def ok_iff split: if_split_asm)

text \<open>The credentials handed to the verifier are rows of the current generation.\<close>

lemma pinned_row:
  assumes "pinned_credentials generation s = Inr pins" and "pinned \<in> set pins"
  shows "\<exists>c\<in>set (db_credentials (bs_db s)). cd_credential_id c = pc_credential_id pinned \<and> cd_generation c = generation
     \<and> (cd_quarantined c \<noteq> 0 \<longleftrightarrow> pc_quarantined pinned)"
proof -
  from assms(1) have "map pinned_credential_of (filter (\<lambda>c. cd_generation c = generation) (db_credentials (bs_db s))) = map Inr pins"
    by (auto simp: pinned_credentials_def ok_iff)
  from arg_cong [OF this, of set] assms(2) have
    "Inr pinned \<in> pinned_credential_of ` set (filter (\<lambda>c. cd_generation c = generation) (db_credentials (bs_db s)))" by simp
  then obtain c where "c \<in> set (db_credentials (bs_db s))" "cd_generation c = generation" "pinned_credential_of c = Inr pinned"
    by auto
  then show ?thesis by (auto simp: pinned_credential_of_def ok_iff)
qed


lemma submit_busy:
  assumes inv: "store_inv env s" and allow: "policy (sp_requester_uid request) (sp_package_name request) = Allow"
    and r: "r \<in> set (db_requests (bs_db s))" "rr_device_id r = bs_device_id s" "is_active (state_of r)"
    and fresh: "(uid_i64 (sp_requester_uid request), operation_key_str (sp_operation_key request))
      \<notin> (\<lambda>r. (rr_requester_uid r, rr_operation_key r)) ` set (db_requests (bs_db s))"
  shows "submit env policy request s = Inl (Busy (rr_request_id r))"
proof -
  let ?active = "filter (\<lambda>r. active_text (rr_state r)) (db_requests (bs_db s))"
  have ok: "requests_ok (db_requests (bs_db s))" using inv by (simp add: store_inv_def db_inv_ok)
  have "active_text (rr_state r)"
    using request_checks_state [OF requests_ok_checks [OF ok r(1)]] r(3) by (metis active_text_as_db)
  with r(1) have "find (\<lambda>x. rr_device_id x = rr_device_id r) ?active = Some r"
    using ok by (intro find_unique) (simp_all add: requests_ok_def)
  then have "find (\<lambda>x. rr_device_id x = bs_device_id s \<and> active_text (rr_state x)) (db_requests (bs_db s)) = Some r"
    by (simp add: r(2) find_filter conj_commute)
  moreover have "lookup_idempotency (bs_db s) (sp_requester_uid request) (sp_operation_key request) = Inr None"
  proof -
    have "find (\<lambda>r. rr_requester_uid r = uid_i64 (sp_requester_uid request)
        \<and> rr_operation_key r = operation_key_str (sp_operation_key request)) (db_requests (bs_db s)) = None"
      using fresh by (force simp: find_None_iff)
    then show ?thesis by (simp add: lookup_idempotency_def)
  qed
  ultimately show ?thesis using allow by (simp add: submit_def Let_def)
qed

end
