(* ===== verification/Store_Properties.thy ===== *)
theory Store_Properties
  imports Store_Contracts
begin

text \<open>
  The properties of the durable store. The first part is an example database, from its creation over
  a submitted and a pending request to a decision, on which the properties are instantiated: hash and
  signature are constant there, and base64 maps everything to one identifier.
\<close>

section \<open>An example store\<close>

definition demo_env :: env where
  [run]: "demo_env = \<lparr>e_sha = (\<lambda>_. replicate 32 0), e_b64_encode = (\<lambda>_. replicate 22 65),
     e_b64_decode = (\<lambda>_. Some (replicate 16 0)), e_ed_sign = (\<lambda>_ _. replicate 64 0), e_ed_public = (\<lambda>_. replicate 32 0)\<rparr>"

definition demo_signer :: broker_signing_key where
  [run]: "demo_signer = BrokerSigningKey_from_seed demo_env []"

definition demo_id :: public_id where
  [run]: "demo_id = PublicId (replicate 22 65)"

definition demo_request :: submit_package_install where
  [run]: "demo_request = \<lparr>sp_request_id = demo_id, sp_requester_uid = RequesterUid 1000,
     sp_operation_key = OperationKey (replicate 16 66), sp_package_name = PackageName (str ''curl''), sp_generation = 0\<rparr>"

definition demo_plan :: frozen_plan where
  [run]: "demo_plan = \<lparr>fp_package_name = PackageName (str ''curl''), fp_manifest_digest = replicate 32 1,
     fp_plan_digest = replicate 32 2, fp_action_count = 1\<rparr>"

definition demo_context :: pending_request_context where
  [run]: "demo_context = \<lparr>px_created_utc = 10, px_expires_utc = 20, px_boot_id = replicate 16 3,
     px_deadline_mono_ns = 500, px_nonce = replicate 32 4, px_policy_id = replicate 16 5, px_policy_digest = replicate 32 6\<rparr>"

definition demo_fresh :: broker_store where
  [run]: "demo_fresh = \<lparr>bs_db = empty_database, bs_device_id = replicate 22 65, bs_device_id_bytes = replicate 16 0\<rparr>"

definition demo_pinned :: broker_store where
  [run]: "demo_pinned = fold (run_store demo_env)
     [InitializeIdentity (Some (replicate 16 1)) demo_signer,
      ReplaceCredentials 0 [\<lparr>cp_credential_id = [6], cp_public_key_cose = [7], cp_cose_algorithm = - 7\<rparr>]] demo_fresh"

definition demo_planning :: broker_store where
  [run]: "demo_planning = run_store demo_env (Submit (\<lambda>_ _. Allow) demo_request) demo_pinned"

definition demo_row :: request_row where
  [run]: "demo_row = new_request_row (\<lambda>_. replicate 32 0) (replicate 22 65) demo_request 0"

lemma demo_planning_eq: "demo_planning = \<lparr>bs_db = \<lparr>db_requests = [demo_row],
     db_events = [\<lparr>er_request_id = replicate 22 65, er_sequence = 1, er_state = str ''planning'', er_reason = 1,
       er_previous_event_digest = None, er_event_digest = replicate 32 0\<rparr>],
     db_receipts = [], db_credentials = [\<lparr>cd_credential_id = [6], cd_generation = 0, cd_cose_algorithm = - 7,
       cd_public_key_cose = [7], cd_sign_count = 0, cd_quarantined = 0\<rparr>], db_boot_epoch = 0, db_credential_generation = 0,
     db_identity = Some \<lparr>bi_key_kid = replicate 16 0, bi_public_key = replicate 32 0, bi_broker_epoch = 0,
       bi_device_id = Some (replicate 16 1)\<rparr>\<rparr>,
     bs_device_id = replicate 22 65, bs_device_id_bytes = replicate 16 1\<rparr>"
  by (simp add: run cong: rbind_weak_cong)

definition demo_req :: request where
  [run]: "demo_req = \<lparr>rq_request_id = replicate 16 0, rq_device_id = replicate 16 1, rq_broker_epoch = 0,
     rq_generation = 0, rq_created_utc = 10, rq_expires_utc = 20, rq_boot_id = replicate 16 3, rq_deadline_mono_ns = 500,
     rq_nonce = replicate 32 4, rq_requester_uid = 1000, rq_operation = PackageInstall,
     rq_operation_input = \<lparr>oi_package_name = str ''curl''\<rparr>, rq_policy_id = replicate 16 5, rq_policy_digest = replicate 32 6,
     rq_plan_digest = replicate 32 2, rq_frozen_plan = FrozenPlan_to_cbor demo_plan, rq_agent_note = None\<rparr>"

lemma demo_req_pending: "pending_request demo_env demo_planning demo_id demo_row demo_plan demo_context = Inr demo_req"
  unfolding demo_planning_eq by (simp add: run cong: rbind_weak_cong)

definition demo_payload :: bytes where
  "demo_payload = (case Request_canonical_bytes demo_req of Inr b \<Rightarrow> b | Inl _ \<Rightarrow> [])"

lemma demo_payload_ok: "Request_canonical_bytes demo_req = Inr demo_payload"
proof -
  have "\<exists>b. Request_canonical_bytes demo_req = Inr b"
    by (simp add: run cong: rbind_weak_cong)
  then show ?thesis by (auto simp: demo_payload_def)
qed

lemma demo_digest_ok: "Request_digest (\<lambda>_. replicate 32 0) demo_req = Inr (replicate 32 0)"
proof -
  from demo_payload_ok have "Request_validate demo_req = Inr ()" "encode (Request_to_cbor demo_req) = Inr demo_payload"
    by (auto simp: Request_canonical_bytes_def rbind_ok map_err_ok)
  then show ?thesis by (simp add: Request_digest_def digest_cbor_def)
qed

definition demo_cose :: bytes where
  "demo_cose = (case sign_envelope demo_env demo_signer demo_payload 1 DomainRequest of Inr b \<Rightarrow> b | Inl _ \<Rightarrow> [])"

lemma demo_cose_ok: "sign_envelope demo_env demo_signer demo_payload 1 DomainRequest = Inr demo_cose"
proof -
  have "\<exists>b. sign_envelope demo_env demo_signer demo_payload 1 DomainRequest = Inr b"
    by (simp add: demo_payload_def run cong: rbind_weak_cong)
  then show ?thesis by (auto simp: demo_cose_def)
qed

definition demo_frozen :: bytes where
  "demo_frozen = (case encode (FrozenPlan_to_cbor demo_plan) of Inr b \<Rightarrow> b | Inl _ \<Rightarrow> [])"

lemma demo_frozen_ok: "encode (rq_frozen_plan demo_req) = Inr demo_frozen"
proof -
  have "\<exists>b. encode (FrozenPlan_to_cbor demo_plan) = Inr b"
    by (simp add: run cong: rbind_weak_cong)
  then show ?thesis by (auto simp: demo_frozen_def demo_req_def)
qed

definition demo_pending_row :: request_row where
  [run]: "demo_pending_row = demo_row\<lparr>rr_state := str ''pending'', rr_plan_digest := Some (replicate 32 2),
     rr_request_digest := Some (replicate 32 0), rr_request_cose := Some demo_cose, rr_request_nonce := Some (replicate 32 4),
     rr_request_boot_id := Some (replicate 16 3), rr_request_policy_id := Some (replicate 16 5),
     rr_request_policy_digest := Some (replicate 32 6), rr_request_frozen_plan := Some demo_frozen,
     rr_request_expires_utc := Some 20, rr_deadline_mono_ns := Some 500, rr_created_utc := 10, rr_updated_utc := 10\<rparr>"

definition demo_pending :: broker_store where
  [run]: "demo_pending = demo_planning\<lparr>bs_db := (bs_db demo_planning)\<lparr>db_requests := [demo_pending_row],
     db_events := db_events (bs_db demo_planning) @
      [\<lparr>er_request_id = replicate 22 65, er_sequence = 2, er_state = str ''pending'', er_reason = 2,
       er_previous_event_digest = Some (replicate 32 0), er_event_digest = replicate 32 0\<rparr>]\<rparr>\<rparr>"

lemma demo_prepared: "prepare_for_decision demo_env demo_id demo_plan demo_context demo_signer demo_planning = Inr (demo_cose, demo_pending)"
proof -
  have id: "ensure_identity (bs_db demo_planning) demo_signer = Inr ()"
    unfolding demo_planning_eq by (simp add: run cong: rbind_weak_cong)
  have find: "find_request (bs_db demo_planning) (public_id_str demo_id) = Some demo_row"
    unfolding demo_planning_eq by (simp add: run)
  have row: "rr_state demo_row = str ''planning''" "rr_package_name demo_row = package_name_str (fp_package_name demo_plan)"
    by (simp_all add: run)
  have sha: "e_sha demo_env = (\<lambda>_. replicate 32 0)" by (simp add: run)
  have t: "append_transition demo_env demo_id (Some Planning) Pending ReasonPlannerPending (bs_db demo_planning)
      = Inr ((bs_db demo_pending)\<lparr>db_requests := [demo_row\<lparr>rr_state := str ''pending''\<rparr>]\<rparr>)"
    unfolding demo_pending_def demo_planning_eq by (simp add: run cong: rbind_weak_cong)
  have u: "\<not> sint (px_expires_utc demo_context) < sint (px_created_utc demo_context)"
    "i64_from_u64 NumericOutOfRange (px_deadline_mono_ns demo_context) = Inr 500" by (simp_all add: run)
  show ?thesis
    unfolding prepare_for_decision_def Let_def id find t
    by (simp only: u row if_False rbind_simps option.case simp_thms demo_req_pending sha demo_digest_ok demo_payload_ok
      demo_cose_ok demo_frozen_ok t map_err_simps)
       (simp add: demo_pending_def demo_planning_eq write_requests_def update_request_def requests_ok_def request_checks_def
       demo_pending_row_def demo_context_def demo_plan_def demo_id_def demo_row_def new_request_row_def demo_request_def
       opt_length_def active_text_def str_def uid_i64_def input_digest_def)
qed

definition demo_party :: relying_party where
  [run]: "demo_party = \<lparr>rp_rp_id = str ''a'', rp_origin = str ''b''\<rparr>"

definition demo_approval :: "decision \<Rightarrow> approval_context" where
  [run]: "demo_approval d = \<lparr>ac_request_id = replicate 16 0, ac_device_id = replicate 16 1, ac_broker_epoch = 0,
     ac_request_digest = replicate 32 0, ac_generation = 0, ac_nonce = replicate 32 4, ac_rp_id = str ''a'', ac_origin = str ''b'',
     ac_decision = d, ac_expires_utc = 20\<rparr>"

definition demo_submission :: "decision \<Rightarrow> decision_submission" where
  [run]: "demo_submission d = \<lparr>ds_approval_context = demo_approval d, ds_credential_id = [6], ds_authenticator_data = [7],
     ds_client_data_json = [8], ds_signature = [9], ds_user_handle = None\<rparr>"

definition demo_verifier :: webauthn_verifier where
  [run]: "demo_verifier = (\<lambda>s p. Some \<lparr>la_credential_id = [6], la_client_data_type = str ''webauthn.get'',
         la_challenge = replicate 32 0, la_origin = str ''b'', la_rp_id_hash = replicate 32 0, la_user_present = True,
         la_user_verified = True, la_cose_algorithm = - 7, la_sign_count = 2\<rparr>)"

lemma demo_approved:
  "\<exists>s'. apply_webauthn_submission demo_env demo_verifier None demo_id (demo_submission Approve) demo_party demo_signer 499 19 demo_pending
     = Inr (\<lparr>do_state = Approved, do_receipt_cose = None\<rparr>, s')"
  unfolding demo_pending_def demo_planning_eq by (simp add: run cong: rbind_weak_cong)

lemma demo_terminal:
  "\<exists>x. transition_terminal demo_env (Some (replicate 16 1)) demo_id Pending Cancelled demo_signer 20 demo_pending = Inr x"
  unfolding demo_pending_def demo_planning_eq by (simp add: run list_all_iff cong: rbind_weak_cong)

section \<open>Properties\<close>

lemma demo_fresh_open: "in_memory demo_env = Inr demo_fresh"
  by (simp add: run)

lemma demo_inv: "store_inv demo_env demo_fresh" "store_inv demo_env demo_planning" "store_inv demo_env demo_pending"
proof -
  show fresh: "store_inv demo_env demo_fresh"
    using store_inv_open [of demo_env] demo_fresh_open by simp
  then show planning: "store_inv demo_env demo_planning"
    unfolding demo_planning_def demo_pinned_def by (intro store_inv_step store_machine.good_run)
  show "store_inv demo_env demo_pending"
    using store_inv_step [OF planning, of "PrepareForDecision demo_id demo_plan demo_context demo_signer"] demo_prepared
    by (simp add: committed_def)
qed

lemma demo_find: "find_request (bs_db demo_pending) (public_id_str demo_id) = Some demo_pending_row"
  unfolding demo_pending_def demo_planning_eq by (simp add: run)

text \<open>C3: after opening an empty database and whatever sequence of operations, successful or failed, the
  store is consistent: identifiers and idempotency keys are unique, a device has at most one active
  request, the event rows of every request are a correct hash chain numbered from 1 that starts in
  \<open>Planning\<close>, follows the edges of the store and ends in the state of the request row, and a request
  has exactly one receipt, for its state and mirrored in its row, if it is terminal, and none otherwise.\<close>

theorem store_always_consistent:
  "\<exists>s. in_memory env = Inr s \<and>
     (let db = bs_db (fold (run_store env) ops s) in
        distinct (map rr_request_id (db_requests db))
      \<and> distinct (map (\<lambda>r. (rr_requester_uid r, rr_operation_key r)) (db_requests db))
      \<and> distinct (map rr_device_id (filter (\<lambda>r. active_text (rr_state r)) (db_requests db)))
      \<and> db_inv (e_sha env) {} db)"
proof -
  from store_inv_open [of env] obtain s where "in_memory env = Inr s" "store_inv env s" by blast
  with store_machine.good_run [of env s ops] show ?thesis
    by (auto simp: store_inv_def db_inv_def requests_ok_def Let_def)
qed

text \<open>C8: a request in a terminal state is never touched again: whatever operations follow, its row, its
  events and its receipt stay exactly as they are.\<close>

theorem stored_terminal_final:
  assumes "store_inv env s" and "find_request (bs_db s) i = Some r" and "is_terminal (state_of r)"
  shows "find_request (bs_db (fold (run_store env) ops s)) i = Some r
     \<and> event_rows (bs_db (fold (run_store env) ops s)) i = event_rows (bs_db s) i
     \<and> receipt_rows (bs_db (fold (run_store env) ops s)) i = receipt_rows (bs_db s) i"
  using terminal_run_same [OF assms, of ops] assms(2) by (simp add: same_at_def)

theorem stored_terminal_final_witness:
  "\<exists>s r. store_inv demo_env s \<and> is_terminal (state_of r)
     \<and> find_request (bs_db (fold (run_store demo_env) [StartBoot [] 7 demo_signer 3, TransitionNonterminal demo_id Pending Approved] s))
         (public_id_str demo_id) = Some r"
proof -
  from demo_terminal obtain x s where
    t: "transition_terminal demo_env (Some (replicate 16 1)) demo_id Pending Cancelled demo_signer 20 demo_pending = Inr (x, s)"
    by (metis surj_pair)
  have inv: "store_inv demo_env s"
    using store_inv_step [OF demo_inv(3), of "TransitionTerminal (Some (replicate 16 1)) demo_id Pending Cancelled demo_signer 20"] t
    by (simp add: committed_def)
  from transition_terminal_sound [OF t demo_inv(3) [unfolded store_inv_def]] obtain r where
    r: "find_request (bs_db s) (public_id_str demo_id) = Some r" "rr_state r = as_db Cancelled"
    using advanced_state by blast
  have "is_terminal (state_of r)" using state_of_as_db [OF r(2)] by simp
  with stored_terminal_final [OF inv r(1) this] inv show ?thesis by blast
qed

text \<open>A stored request never returns to a state it has left, and its state at any later time is
  reachable along the edges of the store.\<close>

theorem stored_state_moves_forward:
  assumes "store_inv env s"
  shows "store_edge\<^sup>*\<^sup>* (request_view i s) (request_view i (fold (run_store env) ops s))
     \<and> (request_view i (fold (run_store env) ops s) \<noteq> request_view i s \<longrightarrow>
          request_view i (fold (run_store env) ops' (fold (run_store env) ops s)) \<noteq> request_view i s)"
  using store_machine.path [OF assms] store_machine.no_return [OF assms] by metis

lemma demo_view: "request_view (public_id_str demo_id) demo_pending = Pending"
  unfolding request_view_def demo_find
  by (simp add: state_of_def demo_pending_row_def from_as_db [of Pending, simplified])

abbreviation demo_decide :: "decision \<Rightarrow> store_op" where
  "demo_decide d \<equiv> ApplySubmission demo_verifier None demo_id (demo_submission d) demo_party demo_signer 499 19"

lemma demo_approved_state:
  "request_view (public_id_str demo_id) (run_store demo_env (demo_decide Approve) demo_pending) = Approved"
proof -
  from demo_approved obtain s' where
    s': "apply_webauthn_submission demo_env demo_verifier None demo_id (demo_submission Approve) demo_party demo_signer 499 19 demo_pending
     = Inr (\<lparr>do_state = Approved, do_receipt_cose = None\<rparr>, s')" by blast
  from apply_webauthn_submission_ok(2) [OF s' demo_inv(3) [unfolded store_inv_def]] obtain r where
    "find_request (bs_db s') (public_id_str demo_id) = Some r" "rr_state r = as_db Approved"
    using advanced_state by fastforce
  with s' show ?thesis using state_of_as_db by (simp add: committed_def request_view_def)
qed

theorem stored_state_moves_forward_witness:
  "request_view (public_id_str demo_id) demo_pending = Pending
   \<and> request_view (public_id_str demo_id) (fold (run_store demo_env) [demo_decide Approve] demo_pending) = Approved
   \<and> request_view (public_id_str demo_id) (fold (run_store demo_env) [TransitionNonterminal demo_id Approved Pending]
        (fold (run_store demo_env) [demo_decide Approve] demo_pending)) \<noteq> Pending"
  using stored_state_moves_forward [OF demo_inv(3), of "public_id_str demo_id" "[demo_decide Approve]"
      "[TransitionNonterminal demo_id Approved Pending]", THEN conjunct2]
    demo_view demo_approved_state by simp

text \<open>A request becomes \<open>Approved\<close> through \<^verbatim>\<open>apply_webauthn_submission\<close> only when it was pending, the
  submission carries the context the broker itself reconstructs from its database for an approval, neither
  its UTC expiry nor its monotonic deadline has passed, the credential generation is the one of the
  request, a credential row of that generation that is not quarantined names the submitted credential,
  and the reviewed verifier accepted an ES256 assertion by it with user presence and verification over
  the challenge of exactly that context.\<close>

theorem stored_approval_is_authorized:
  assumes "apply_webauthn_submission env verifier rnd rid submission rp signer now_mono_ns now_utc s = Inr (out, s')"
    and "store_inv env s" and "do_state out = Approved"
  shows "\<exists>r d c pinned a ctx. find_request (bs_db s) (public_id_str rid) = Some r \<and> rr_state r = as_db Pending
     \<and> approval_context env rid Approve rp s = Inr ctx \<and> ds_approval_context submission = ctx
     \<and> rr_request_digest r = Some (ac_request_digest ctx) \<and> ac_generation ctx = rr_generation r
     \<and> sint now_utc < sint (ac_expires_utc ctx) \<and> rr_deadline_mono_ns r = Some d \<and> now_mono_ns < d
     \<and> db_credential_generation (bs_db s) = rr_generation r
     \<and> c \<in> set (db_credentials (bs_db s)) \<and> cd_credential_id c = ds_credential_id submission
     \<and> cd_generation c = rr_generation r \<and> cd_quarantined c = 0
     \<and> verifier submission pinned = Some a \<and> bound_assertion (e_sha env) ctx submission a"
proof -
  let ?ctx = "ds_approval_context submission"
  note inv = assms(2) [unfolded store_inv_def]
  note ok = apply_webauthn_submission_ok [OF assms(1) inv]
  from approval_context_ok [OF ok(1)] obtain r where
    r: "find_request (bs_db s) (public_id_str rid) = Some r" "rr_state r = as_db Pending"
      "rr_request_digest r = Some (ac_request_digest ?ctx)" "ac_generation ?ctx = rr_generation r" by blast
  from ok(4) [OF r(1)] assms(3) obtain pins v where
    time: "sint now_utc < sint (ac_expires_utc ?ctx)" "\<nexists>d. rr_deadline_mono_ns r = Some d \<and> d \<le> now_mono_ns" and
    gen: "db_credential_generation (bs_db s) = ac_generation ?ctx" and
    v: "pinned_credentials (ac_generation ?ctx) s = Inr pins" "verify_submission (e_sha env) verifier ?ctx pins submission = Inr v"
      "decided v = Approved"
    by (auto simp: decision_rule_def Let_def not_le split: if_splits)
  from deadline_known [OF assms(1) time(1) r(1)] obtain d where d: "rr_deadline_mono_ns r = Some d" by blast
  with time(2) have "now_mono_ns < d" by (auto simp: not_le)
  moreover from verify_submission_ok [OF v(2)] v(3) decided_cases [of v] have "ac_decision ?ctx = Approve" by auto
  moreover from verify_submission_ok [OF v(2)] obtain pinned a where
    p: "pinned \<in> set pins" "pc_credential_id pinned = ds_credential_id submission" "active_for pinned (ac_generation ?ctx)"
      "verifier submission pinned = Some a" "bound_assertion (e_sha env) ?ctx submission a" by blast
  moreover from pinned_row [OF v(1) p(1)] p(2,3) obtain c where
    "c \<in> set (db_credentials (bs_db s))" "cd_credential_id c = ds_credential_id submission"
    "cd_generation c = ac_generation ?ctx" "cd_quarantined c = 0"
    by (auto simp: active_for_def)
  ultimately show ?thesis using ok(1) r time(1) gen d by auto
qed

theorem stored_approval_is_authorized_witness:
  "\<exists>r d c pinned a ctx. find_request (bs_db demo_pending) (public_id_str demo_id) = Some r \<and> rr_state r = as_db Pending
     \<and> approval_context demo_env demo_id Approve demo_party demo_pending = Inr ctx
     \<and> ds_approval_context (demo_submission Approve) = ctx
     \<and> rr_request_digest r = Some (ac_request_digest ctx) \<and> ac_generation ctx = rr_generation r
     \<and> sint (19 :: i64) < sint (ac_expires_utc ctx) \<and> rr_deadline_mono_ns r = Some d \<and> 499 < d
     \<and> db_credential_generation (bs_db demo_pending) = rr_generation r
     \<and> c \<in> set (db_credentials (bs_db demo_pending)) \<and> cd_credential_id c = ds_credential_id (demo_submission Approve)
     \<and> cd_generation c = rr_generation r \<and> cd_quarantined c = 0
     \<and> demo_verifier (demo_submission Approve) pinned = Some a \<and> bound_assertion (e_sha demo_env) ctx (demo_submission Approve) a"
proof -
  from demo_approved obtain s' where
    "apply_webauthn_submission demo_env demo_verifier None demo_id (demo_submission Approve) demo_party demo_signer 499 19 demo_pending
     = Inr (\<lparr>do_state = Approved, do_receipt_cose = None\<rparr>, s')" by blast
  from stored_approval_is_authorized [OF this demo_inv(3)] show ?thesis by simp
qed

text \<open>C13: the outcome of a decision is determined in this order: a request whose UTC expiry or monotonic
  deadline has passed becomes \<open>Expired\<close>; else, if the credential generation was rotated, \<open>Stale\<close>; else
  the verified decision makes it \<open>Approved\<close> or \<open>Denied\<close>. The request moves along exactly that one edge
  from \<open>Pending\<close> with one event, no other request changes, and a receipt is returned in every case but
  approval.\<close>

theorem decision_outcome_rule:
  assumes "apply_webauthn_submission env verifier rnd rid submission rp signer now_mono_ns now_utc s = Inr (out, s')"
    and "store_inv env s"
  shows "\<exists>r. find_request (bs_db s) (public_id_str rid) = Some r \<and> rr_state r = as_db Pending
     \<and> decision_rule env verifier submission now_mono_ns now_utc r s (do_state out)
     \<and> advanced (public_id_str rid) (do_state out) (bs_db s) (bs_db s') \<and> store_inv env s'
     \<and> (do_receipt_cose out = None \<longleftrightarrow> do_state out = Approved)"
  using apply_webauthn_submission_ok [OF assms(1) assms(2) [unfolded store_inv_def]]
    approval_context_ok [OF apply_webauthn_submission_ok(1) [OF assms(1) assms(2) [unfolded store_inv_def]]]
  by (auto simp: store_inv_def)

theorem decision_outcome_rule_witness:
  "\<exists>(s' :: broker_store) r. find_request (bs_db demo_pending) (public_id_str demo_id) = Some r
     \<and> decision_rule demo_env demo_verifier (demo_submission Approve) 499 19 r demo_pending Approved
     \<and> advanced (public_id_str demo_id) Approved (bs_db demo_pending) (bs_db s')"
proof -
  from demo_approved obtain s' where
    s': "apply_webauthn_submission demo_env demo_verifier None demo_id (demo_submission Approve) demo_party demo_signer 499 19 demo_pending
     = Inr (\<lparr>do_state = Approved, do_receipt_cose = None\<rparr>, s')" by blast
  from decision_outcome_rule [OF s' demo_inv(3)] show ?thesis
    unfolding decision_outcome.select_convs by blast
qed

text \<open>A decision is single use. Once a submission was applied to a request, no submission for it, the
  same or another, is ever accepted again, whatever happens in between.\<close>

theorem decision_single_use:
  assumes "apply_webauthn_submission env verifier rnd rid submission rp signer now_mono_ns now_utc s = Inr (out, s')"
    and "store_inv env s"
  shows "apply_webauthn_submission env verifier' rnd' rid submission' rp' signer' now_mono_ns' now_utc'
       (fold (run_store env) ops s') \<noteq> Inr x"
proof -
  note ok = apply_webauthn_submission_ok [OF assms(1) assms(2) [unfolded store_inv_def]]
  then have inv: "store_inv env s'" by (simp add: store_inv_def)
  from ok(2) obtain r r' where "find_request (bs_db s') (public_id_str rid) = Some r'" "rr_state r' = as_db (do_state out)"
    "find_request (bs_db s) (public_id_str rid) = Some r" "store_edge (state_of r) (do_state out)"
    by (auto simp: advanced_def moved_def)
  moreover from this(3) approval_context_ok [OF ok(1)] have "state_of r = Pending" using state_of_as_db by force
  ultimately have "rank Pending < rank (request_view (public_id_str rid) s')"
    using store_edge_rank [of Pending "do_state out"] state_of_as_db [of r' "do_state out"] by (simp add: request_view_def)
  with store_machine.rank_run [OF inv, of "public_id_str rid" ops]
  have "request_view (public_id_str rid) (fold (run_store env) ops s') \<noteq> Pending" by auto
  then show ?thesis
    using approval_context_ok [of env rid "ac_decision (ds_approval_context submission')" rp' "fold (run_store env) ops s'"]
      state_of_as_db
    by (fastforce simp: apply_webauthn_submission_def ok_iff request_view_def)
qed

theorem decision_single_use_witness:
  "\<exists>s'. apply_webauthn_submission demo_env demo_verifier None demo_id (demo_submission Approve) demo_party demo_signer 499 19 demo_pending
       = Inr (\<lparr>do_state = Approved, do_receipt_cose = None\<rparr>, s')
     \<and> apply_webauthn_submission demo_env demo_verifier None demo_id (demo_submission Deny) demo_party demo_signer 499 19
         (fold (run_store demo_env) [] s') \<noteq> Inr (\<lparr>do_state = Denied, do_receipt_cose = Some []\<rparr>, s')"
  using demo_approved decision_single_use [OF _ demo_inv(3)] by blast

text \<open>C10: a terminal transition returns a receipt that anyone holding the broker's public key can check:
  the bytes decode as a COSE envelope that verifies under that key for the receipt domain and content
  type, its payload decodes as a receipt of this request for the terminal state, with the digests and
  the creation time of the row, and the same bytes are what \<^verbatim>\<open>receipt\<close> returns from then on. Of
  Ed25519 it is used that the public key accepts the 64-byte signatures of the private key.\<close>

theorem terminal_receipt_verifies:
  assumes "transition_terminal env rnd rid expected next signer now_utc s = Inr (b, s')" and "store_inv env s"
    and "\<And>msg. ed_verify (vk_public_key key) msg (e_ed_sign env (sg_key signer) msg)"
    and "\<And>msg. length (e_ed_sign env (sg_key signer) msg) = 64"
    and "vk_kid key = sg_kid signer" and "RoleBroker \<in> set (vk_roles key)"
    and "sint (vk_not_before_utc key) \<le> sint at" and "sint at < sint (vk_not_after_utc key)"
  shows "receipt rid s' = Inr (Some b) \<and> (\<exists>c m. CoseSign1_decode b = Inr c
     \<and> CoseSign1_verify ed_verify c key \<lparr>vp_content_type = 3, vp_domain = DomainReceipt, vp_required_role = RoleBroker, vp_now_utc = at\<rparr> = Inr ()
     \<and> Receipt_decode (cs_payload c) = Inr m \<and> receipt_says env (bs_db s) rid next now_utc m)"
  using assms(3-) by (intro transition_terminal_receipt [OF assms(1,2)]) (simp add: broker_key_for_def)

theorem terminal_receipt_verifies_witness:
  "\<exists>b s' c m. transition_terminal demo_env (Some (replicate 16 1)) demo_id Pending Cancelled demo_signer 20 demo_pending = Inr (b, s')
     \<and> receipt demo_id s' = Inr (Some b) \<and> CoseSign1_decode b = Inr c
     \<and> Receipt_decode (cs_payload c) = Inr m \<and> receipt_says demo_env (bs_db demo_pending) demo_id Cancelled 20 m"
proof -
  from demo_terminal obtain b s' where
    t: "transition_terminal demo_env (Some (replicate 16 1)) demo_id Pending Cancelled demo_signer 20 demo_pending = Inr (b, s')"
    by (metis surj_pair)
  have "receipt demo_id s' = Inr (Some b) \<and> (\<exists>c m. CoseSign1_decode b = Inr c
     \<and> CoseSign1_verify (\<lambda>(_ :: unit) _ sig. sig = replicate 64 0) c
         \<lparr>vk_kid = sg_kid demo_signer, vk_public_key = (), vk_not_before_utc = 0, vk_not_after_utc = 100, vk_roles = [RoleBroker]\<rparr>
         \<lparr>vp_content_type = 3, vp_domain = DomainReceipt, vp_required_role = RoleBroker, vp_now_utc = 50\<rparr> = Inr ()
     \<and> Receipt_decode (cs_payload c) = Inr m \<and> receipt_says demo_env (bs_db demo_pending) demo_id Cancelled 20 m)"
    by (rule terminal_receipt_verifies [OF t demo_inv(3)]) (simp_all add: demo_env_def)
  with t show ?thesis by blast
qed

text \<open>C9: what the user is asked to approve is what the broker signed. When \<^verbatim>\<open>prepare_for_decision\<close>
  succeeds, the returned bytes are a verifying envelope whose payload is a v1 request with the digest of
  the trusted plan, the broker's device, nonce, deadline and policy, and the package of the stored
  request; and the approval context of the now pending request, for either decision, names that
  request by its digest and repeats its identifiers, generation, nonce and expiry.\<close>

theorem prepared_request_is_decidable:
  assumes "prepare_for_decision env rid plan ctx signer s = Inr (b, s')" and "store_inv env s"
    and "\<And>msg. ed_verify (vk_public_key key) msg (e_ed_sign env (sg_key signer) msg)"
    and "\<And>msg. length (e_ed_sign env (sg_key signer) msg) = 64"
    and "vk_kid key = sg_kid signer" and "RoleBroker \<in> set (vk_roles key)"
    and "sint (vk_not_before_utc key) \<le> sint at" and "sint at < sint (vk_not_after_utc key)"
  shows "\<exists>c q. CoseSign1_decode b = Inr c
     \<and> CoseSign1_verify ed_verify c key \<lparr>vp_content_type = 1, vp_domain = DomainRequest, vp_required_role = RoleBroker, vp_now_utc = at\<rparr> = Inr ()
     \<and> Request_decode (cs_payload c) = Inr q \<and> request_says env s rid plan ctx q
     \<and> (\<exists>a. approval_context env rid d rp s' = Inr a \<and> Request_digest (e_sha env) q = Inr (ac_request_digest a)
          \<and> ac_request_id a = rq_request_id q \<and> ac_generation a = rq_generation q \<and> ac_nonce a = rq_nonce q
          \<and> ac_expires_utc a = rq_expires_utc q \<and> ac_device_id a = rq_device_id q
          \<and> ac_decision a = d \<and> ac_rp_id a = rp_rp_id rp \<and> ac_origin a = rp_origin rp)"
  using assms(3-) by (intro prepare_then_decide [OF assms(1,2)]) (simp add: broker_key_for_def)

theorem prepared_request_is_decidable_witness:
  "\<exists>c q a. CoseSign1_decode demo_cose = Inr c \<and> Request_decode (cs_payload c) = Inr q
     \<and> request_says demo_env demo_planning demo_id demo_plan demo_context q
     \<and> approval_context demo_env demo_id Deny demo_party demo_pending = Inr a
     \<and> Request_digest (e_sha demo_env) q = Inr (ac_request_digest a)"
proof -
  have "\<exists>c q. CoseSign1_decode demo_cose = Inr c
     \<and> CoseSign1_verify (\<lambda>(_ :: unit) _ sig. sig = replicate 64 0) c
         \<lparr>vk_kid = sg_kid demo_signer, vk_public_key = (), vk_not_before_utc = 0, vk_not_after_utc = 100, vk_roles = [RoleBroker]\<rparr>
         \<lparr>vp_content_type = 1, vp_domain = DomainRequest, vp_required_role = RoleBroker, vp_now_utc = 50\<rparr> = Inr ()
     \<and> Request_decode (cs_payload c) = Inr q \<and> request_says demo_env demo_planning demo_id demo_plan demo_context q
     \<and> (\<exists>a. approval_context demo_env demo_id Deny demo_party demo_pending = Inr a \<and> Request_digest (e_sha demo_env) q = Inr (ac_request_digest a)
          \<and> ac_request_id a = rq_request_id q \<and> ac_generation a = rq_generation q \<and> ac_nonce a = rq_nonce q
          \<and> ac_expires_utc a = rq_expires_utc q \<and> ac_device_id a = rq_device_id q
          \<and> ac_decision a = Deny \<and> ac_rp_id a = rp_rp_id demo_party \<and> ac_origin a = rp_origin demo_party)"
    by (rule prepared_request_is_decidable [OF demo_prepared demo_inv(2)]) (simp_all add: demo_env_def)
  then show ?thesis by blast
qed

text \<open>C12: submission is idempotent, for as long as the policy admits it. After a request was created, and
  whatever happened to the store since, submitting again with the same requester and operation key
  creates nothing. The policy of the moment is asked first: if it denies the package, the answer is
  \<^verbatim>\<open>PolicyDenied\<close>, also for an exact repetition of a request that was admitted. If not, the answer is
  the first request with its current state when the digest of the package is the same, and
  \<^verbatim>\<open>IdempotencyConflict\<close> when it differs.\<close>

theorem submission_idempotent:
  assumes "submit env policy request s = Inr (Created summary, s1)" and "store_inv env s"
    and "PublicId_parse (public_id_str (sp_request_id request)) = Inr (sp_request_id request)"
    and "sp_requester_uid retry = sp_requester_uid request" and "sp_operation_key retry = sp_operation_key request"
  shows "submit env policy' retry (fold (run_store env) ops s1) =
     (if policy' (sp_requester_uid retry) (sp_package_name retry) = PolicyDeny then Inl PolicyDenied
      else if input_digest (e_sha env) (sp_package_name request) = input_digest (e_sha env) (sp_package_name retry)
      then Inr (Existing \<lparr>sm_request_id = sp_request_id request, sm_requester_uid = sp_requester_uid request,
          sm_state = request_view (public_id_str (sp_request_id request)) (fold (run_store env) ops s1),
          sm_generation = sp_generation request\<rparr>, fold (run_store env) ops s1)
      else Inl IdempotencyConflict)"
  using assms by (rule submit_twice)

text \<open>An environment whose digests differ for packages that differ near their end.\<close>

definition tail_env :: env where
  [run]: "tail_env = demo_env\<lparr>e_sha := \<lambda>b. take 32 (rev b @ replicate 32 0)\<rparr>"

theorem submission_idempotent_witness:
  "\<exists>summary s1 s2. submit tail_env (\<lambda>_ _. Allow) demo_request demo_fresh = Inr (Created summary, s1)
     \<and> s2 = run_store tail_env (TransitionNonterminal demo_id Planning Pending) s1
     \<and> submit tail_env (\<lambda>_ _. Allow) (demo_request\<lparr>sp_request_id := PublicId (replicate 22 70)\<rparr>) s2
       = Inr (Existing \<lparr>sm_request_id = demo_id, sm_requester_uid = RequesterUid 1000,
           sm_state = request_view (public_id_str demo_id) s2, sm_generation = 0\<rparr>, s2)
     \<and> submit tail_env (\<lambda>_ _. Allow) (demo_request\<lparr>sp_package_name := PackageName (str ''jq'')\<rparr>) s2 = Inl IdempotencyConflict
     \<and> submit tail_env (\<lambda>_ _. PolicyDeny) demo_request s2 = Inl PolicyDenied"
proof -
  have "\<exists>summary s1. submit tail_env (\<lambda>_ _. Allow) demo_request demo_fresh = Inr (Created summary, s1)"
    by (simp add: run cong: rbind_weak_cong)
  then obtain summary s1 where s: "submit tail_env (\<lambda>_ _. Allow) demo_request demo_fresh = Inr (Created summary, s1)" by blast
  have inv: "store_inv tail_env demo_fresh" by (simp add: store_inv_def demo_fresh_def db_inv_empty)
  have "PublicId_parse (public_id_str (sp_request_id demo_request)) = Inr (sp_request_id demo_request)"
    by (simp add: run list_all_iff)
  note again = submission_idempotent [OF s inv this, where ops = "[TransitionNonterminal demo_id Planning Pending]", simplified fold_simps]
  have req: "sp_request_id demo_request = demo_id" "sp_requester_uid demo_request = RequesterUid 1000" "sp_generation demo_request = 0"
    by (simp_all add: demo_request_def)
  have differ: "input_digest (e_sha tail_env) (sp_package_name demo_request) \<noteq> input_digest (e_sha tail_env) (PackageName (str ''jq''))"
    by (simp add: run)
  show ?thesis
    using s again [of "demo_request\<lparr>sp_request_id := PublicId (replicate 22 70)\<rparr>" "\<lambda>_ _. Allow"]
      again [of "demo_request\<lparr>sp_package_name := PackageName (str ''jq'')\<rparr>" "\<lambda>_ _. Allow"]
      again [of demo_request "\<lambda>_ _. PolicyDeny"] differ
    by (simp add: req)
qed

text \<open>A device runs one request at a time: while one of its requests is planning, pending, approved,
  executing or in recovery, a submission under a fresh operation key is refused with \<^verbatim>\<open>Busy\<close> and names
  that request.\<close>

theorem submission_busy:
  assumes "store_inv env s" and "policy (sp_requester_uid request) (sp_package_name request) = Allow"
    and "r \<in> set (db_requests (bs_db s))" and "rr_device_id r = bs_device_id s" and "is_active (state_of r)"
    and "(uid_i64 (sp_requester_uid request), operation_key_str (sp_operation_key request))
      \<notin> (\<lambda>r. (rr_requester_uid r, rr_operation_key r)) ` set (db_requests (bs_db s))"
  shows "submit env policy request s = Inl (Busy (rr_request_id r))"
  using assms by (rule submit_busy)

theorem submission_busy_witness:
  "submit demo_env (\<lambda>_ _. Allow) (demo_request\<lparr>sp_operation_key := OperationKey (replicate 16 67)\<rparr>) demo_planning
     = Inl (Busy (rr_request_id demo_row))"
proof (rule submission_busy [OF demo_inv(2)])
  show "demo_row \<in> set (db_requests (bs_db demo_planning))" "rr_device_id demo_row = bs_device_id demo_planning"
    unfolding demo_planning_eq by (simp_all add: run)
  show "is_active (state_of demo_row)"
    by (simp add: state_of_def demo_row_def new_request_row_def from_as_db [of Planning, simplified] is_active_def)
  show "(uid_i64 (sp_requester_uid (demo_request\<lparr>sp_operation_key := OperationKey (replicate 16 67)\<rparr>)),
        operation_key_str (sp_operation_key (demo_request\<lparr>sp_operation_key := OperationKey (replicate 16 67)\<rparr>)))
      \<notin> (\<lambda>r. (rr_requester_uid r, rr_operation_key r)) ` set (db_requests (bs_db demo_planning))"
    unfolding demo_planning_eq by (simp add: run)
qed simp

text \<open>\<^verbatim>\<open>transition_nonterminal\<close> writes out its own compare-and-set and event insertion, with a
  saturating sequence number; on a consistent store it does exactly what the shared helper
  \<^verbatim>\<open>append_transition\<close> does, with its checked one, errors included.\<close>

theorem inlined_transition_equivalent:
  assumes "store_inv env s"
  shows "transition_nonterminal env rid expected next s =
     (if is_terminal next \<or> \<not> permits expected next then Inl (InvalidTransition expected next)
      else map_ok (\<lambda>db. (next, s\<lparr>bs_db := db\<rparr>))
        (append_transition env rid (Some expected) next (transition_reason next) (bs_db s)))"
  using assms unfolding store_inv_def by (rule transition_nonterminal_eq)

theorem inlined_transition_equivalent_witness:
  "transition_nonterminal demo_env demo_id Planning Pending demo_planning =
     map_ok (\<lambda>db. (Pending, demo_planning\<lparr>bs_db := db\<rparr>))
        (append_transition demo_env demo_id (Some Planning) Pending ReasonPlannerPending (bs_db demo_planning))"
  using inlined_transition_equivalent [OF demo_inv(2), of demo_id Planning Pending] by simp

text \<open>C15: the durable log refines the in-memory lifecycle record. If a record has the state and the
  events of a stored request, a transition of the store leaves the request with the state and the
  events of the record after \<^verbatim>\<open>winner\<close>: same sequence numbers, links, reasons and digests.\<close>

theorem store_refines_record:
  assumes "append_transition env rid (Some expected) t c (bs_db s) = Inr db'" and "store_inv env s"
    and "permits expected t" and "represents s rid r"
  shows "represents (s\<lparr>bs_db := db'\<rparr>) rid (winner (e_sha env) t c r)"
  using assms by (intro transition_refines) (auto simp: store_edge_def)

theorem store_refines_record_witness:
  "\<exists>db'. append_transition demo_env demo_id (Some Planning) Pending ReasonPlannerPending (bs_db demo_planning) = Inr db'
     \<and> represents (demo_planning\<lparr>bs_db := db'\<rparr>) demo_id (winner (e_sha demo_env) Pending ReasonPlannerPending
         (LifecycleRecord_new (e_sha demo_env) demo_id demo_id (PackageName []) [] 0 5))"
proof -
  have "\<exists>db'. append_transition demo_env demo_id (Some Planning) Pending ReasonPlannerPending (bs_db demo_planning) = Inr db'"
    unfolding demo_planning_eq by (simp add: run cong: rbind_weak_cong)
  moreover have "represents demo_planning demo_id (LifecycleRecord_new (e_sha demo_env) demo_id demo_id (PackageName []) [] 0 5)"
    unfolding demo_planning_eq represents_def request_view_def state_of_def
    by (simp add: run cong: rbind_weak_cong)
  ultimately show ?thesis
    using store_refines_record [OF _ demo_inv(2), of demo_id Planning Pending ReasonPlannerPending] by auto
qed

text \<open>C16: when the machine boots into a new epoch other than 0, every request that was still planning,
  pending or approved becomes \<open>Expired\<close> with one event, and every other request is left as it is. The
  step from \<open>Planning\<close> to \<open>Expired\<close> is one that \<^verbatim>\<open>RequestState::permits\<close> does not allow.\<close>

theorem boot_expires_waiting_requests:
  assumes "start_boot env rnds epoch signer now_utc s = Inr (n, s')" and "store_inv env s"
    and "db_boot_epoch (bs_db s) \<noteq> epoch" and "epoch \<noteq> 0" and "find_request (bs_db s) i = Some r"
  shows "(if state_of r \<in> {Planning, Pending, Approved}
      then \<exists>r' e. find_request (bs_db s') i = Some r' \<and> rr_state r' = as_db Expired
        \<and> event_rows (bs_db s') i = event_rows (bs_db s) i @ [e]
      else find_request (bs_db s') i = Some r \<and> event_rows (bs_db s') i = event_rows (bs_db s) i)
     \<and> store_inv env s' \<and> \<not> permits Planning Expired"
proof -
  note inv = assms(2) [unfolded store_inv_def]
  have "rr_boot_epoch r = 0" using db_inv_at [OF inv assms(5)] by (simp add: request_inv_def)
  with start_boot_ok [OF assms(1) inv assms(3)] assms(4,5) show ?thesis
    by (auto simp: moved_def same_at_def store_inv_def dest!: spec [of _ i])
qed

theorem boot_expires_waiting_requests_witness:
  "\<exists>n s'. start_boot demo_env [Some (replicate 16 1)] 7 demo_signer 20 demo_pending = Inr (n, s')
     \<and> (\<exists>r' e. find_request (bs_db s') (public_id_str demo_id) = Some r' \<and> rr_state r' = as_db Expired
        \<and> event_rows (bs_db s') (public_id_str demo_id) = event_rows (bs_db demo_pending) (public_id_str demo_id) @ [e])"
proof -
  have "\<exists>x. start_boot demo_env [Some (replicate 16 1)] 7 demo_signer 20 demo_pending = Inr x"
    unfolding demo_pending_def demo_planning_eq by (simp add: run list_all_iff cong: rbind_weak_cong)
  then obtain n s' where s': "start_boot demo_env [Some (replicate 16 1)] 7 demo_signer 20 demo_pending = Inr (n, s')"
    by (metis surj_pair)
  have "state_of demo_pending_row = Pending" using demo_view by (simp add: request_view_def demo_find)
  moreover have "db_boot_epoch (bs_db demo_pending) \<noteq> 7" unfolding demo_pending_def demo_planning_eq by simp
  ultimately show ?thesis
    using s' boot_expires_waiting_requests [OF s' demo_inv(3) _ _ demo_find] by auto
qed

text \<open>A boot into epoch 0 expires nothing: no operation writes the epoch of a request row, which is
  0 from its creation on, so all rows pass for rows of the current boot.\<close>

theorem boot_zero_expires_nothing:
  assumes "start_boot env rnds 0 signer now_utc s = Inr (n, s')" and "store_inv env s"
  shows "same_at i (bs_db s) (bs_db s')"
proof (cases "db_boot_epoch (bs_db s) = 0")
  case True
  then show ?thesis using assms(1) by (auto simp: start_boot_def ok_iff)
next
  case False
  note inv = assms(2) [unfolded store_inv_def]
  have "rr_boot_epoch r = 0" if "find_request (bs_db s) i = Some r" for r
    using db_inv_at [OF inv that] by (simp add: request_inv_def)
  with start_boot_ok [OF assms(1) inv False] show ?thesis
    by (auto dest!: spec [of _ i] split: option.splits)
qed

theorem boot_zero_expires_nothing_witness:
  "\<exists>n s'. start_boot demo_env [] 0 demo_signer 20 (demo_pending\<lparr>bs_db := (bs_db demo_pending)\<lparr>db_boot_epoch := 7\<rparr>\<rparr>) = Inr (n, s')
     \<and> same_at (public_id_str demo_id) ((bs_db demo_pending)\<lparr>db_boot_epoch := 7\<rparr>) (bs_db s')"
proof -
  let ?s = "demo_pending\<lparr>bs_db := (bs_db demo_pending)\<lparr>db_boot_epoch := 7\<rparr>\<rparr>"
  have "\<exists>x. start_boot demo_env [] 0 demo_signer 20 ?s = Inr x"
    unfolding demo_pending_def demo_planning_eq by (simp add: run cong: rbind_weak_cong)
  then obtain n s' where s': "start_boot demo_env [] 0 demo_signer 20 ?s = Inr (n, s')" by (metis surj_pair)
  have "store_inv demo_env ?s" using demo_inv(3) by (simp add: store_inv_def)
  from boot_zero_expires_nothing [OF s' this, of "public_id_str demo_id"] s' show ?thesis by auto
qed

text \<open>A package name that starts with a digit passes \<^verbatim>\<open>PackageName::parse\<close> and can be submitted, but
  the request schema refuses it: such a request can never be prepared for a decision, and holds the
  device's one active slot until it is closed otherwise.\<close>

theorem digit_package_never_prepared:
  assumes "PackageName_parse (b # bs) = Inr p" and "is_ascii_digit b"
    and "find_request (bs_db s) (public_id_str rid) = Some r" and "rr_package_name r = package_name_str p"
  shows "prepare_for_decision env rid plan ctx signer s \<noteq> Inr x"
proof -
  from assms(1) have "package_name_str p = b # bs" by (auto simp: PackageName_parse_def split: if_splits)
  with prepare_digit_name [OF assms(3) _ assms(2)] assms(4) show ?thesis by simp
qed

theorem digit_package_never_prepared_witness:
  "\<exists>s r. submit demo_env (\<lambda>_ _. Allow) (demo_request\<lparr>sp_package_name := PackageName (str ''7zip'')\<rparr>) demo_pinned = Inr (r, s)
     \<and> prepare_for_decision demo_env demo_id demo_plan demo_context demo_signer s \<noteq> Inr (demo_cose, s)"
proof -
  let ?q = "demo_request\<lparr>sp_package_name := PackageName (str ''7zip'')\<rparr>"
  have "\<exists>x s. submit demo_env (\<lambda>_ _. Allow) ?q demo_pinned = Inr (Created x, s)"
    by (simp add: run cong: rbind_weak_cong)
  then obtain x s where s: "submit demo_env (\<lambda>_ _. Allow) ?q demo_pinned = Inr (Created x, s)" by blast
  have "store_inv demo_env demo_pinned"
    unfolding demo_pinned_def using demo_inv(1) by (rule store_machine.good_run)
  from submit_cases [OF s this [unfolded store_inv_def]] obtain r where
    r: "find_request (bs_db s) (public_id_str demo_id) = Some r" "rr_package_name r = str ''7zip''"
    by (auto simp: demo_request_def new_request_row_def)
  have "PackageName_parse (55 # str ''zip'') = Inr (PackageName (str ''7zip''))" by (simp add: run)
  from digit_package_never_prepared [OF this _ r(1)] r(2) s show ?thesis by (auto simp: run)
qed

end
