(* ===== verification/Store_Recovery.thy ===== *)
theory Store_Recovery
  imports Store_Properties
begin

text \<open>
  Leaving \<open>RecoveryRequired\<close>: \<^verbatim>\<open>reconcile_recovery\<close> of \<^verbatim>\<open>crates/rp-broker-core/src/lib.rs\<close> and the execution evidence
  that \<^verbatim>\<open>create_receipt\<close> puts into a receipt.
\<close>

section \<open>The evidence of a receipt\<close>

text \<open>The terminal state and, after a reconciliation, the digest of the operator's evidence.\<close>

definition execution_evidence :: "hash \<Rightarrow> request_state \<Rightarrow> bytes option \<Rightarrow> cbor_value" where
  "execution_evidence sha t evidence = CMap ((Unsigned 1, Unsigned (receipt_state_code t))
     # (case evidence of None \<Rightarrow> [] | Some e \<Rightarrow> [(Unsigned 2, Bytes (sha e))]))"

lemma canon_execution_evidence [simp]: "canon (execution_evidence sha t evidence) = execution_evidence sha t evidence"
proof (cases evidence)
  case None
  then show ?thesis
    using canon_ukeys [of "[(1, Unsigned (receipt_state_code t))]"] by (simp add: execution_evidence_def del: canon.simps(2))
next
  case (Some e)
  then show ?thesis
    using canon_ukeys [of "[(1, Unsigned (receipt_state_code t)), (2, Bytes (sha e))]"]
    by (simp add: execution_evidence_def del: canon.simps(2))
qed

lemma create_receipt_evidence:
  assumes "create_receipt env rnd rid t signer now ev db = Inr (b, db')"
    and "broker_key_for env signer ed_verify key at"
  shows "\<exists>c m r. CoseSign1_decode b = Inr c
     \<and> CoseSign1_verify ed_verify c key \<lparr>vp_content_type = 3, vp_domain = DomainReceipt, vp_required_role = RoleBroker, vp_now_utc = at\<rparr> = Inr ()
     \<and> Receipt_decode (cs_payload c) = Inr m \<and> receipt_says env db rid t now m
     \<and> find_request db (public_id_str rid) = Some r
     \<and> rc_execution_evidence m = execution_evidence (e_sha env) t (rr_recovery_evidence r)"
proof -
  from assms(1) obtain cid r m payload where
    r: "find_request db (public_id_str rid) = Some r" "receipt_of env db r cid rid t now ev = Inr m"
      "Receipt_canonical_bytes m = Inr payload" "sign_envelope env signer payload 3 DomainReceipt = Inr b"
    by (auto simp: create_receipt_def ok_iff if_ok)
  have "rc_execution_evidence m = execution_evidence (e_sha env) t (rr_recovery_evidence r)"
    using r(2) by (auto simp: receipt_of_def ok_iff execution_evidence_def)
  then have "rc_execution_evidence (Receipt_norm m) = execution_evidence (e_sha env) t (rr_recovery_evidence r)"
    by (simp add: Receipt_norm_def)
  with receipt_of_says [OF r(2,1,3)] sign_envelope_verifies [OF r(4) assms(2)] r(1) show ?thesis by blast
qed

section \<open>Reconciliation\<close>

lemma reconcile_recovery_writes:
  assumes "reconcile_recovery env rnd rid succeeded evidence signer now s = Inr (b, s')" and inv: "store_inv env s"
    and t: "t = (if succeeded then Succeeded else Failed)"
  obtains r db2 where "find_request (bs_db s) (public_id_str rid) = Some r" "rr_state r = as_db RecoveryRequired"
    "find_request db2 (public_id_str rid) = Some (r\<lparr>rr_state := as_db t, rr_recovery_evidence := Some evidence\<rparr>)"
    "create_receipt env rnd rid t signer now [] db2 = Inr (b, bs_db s')" "evidence \<noteq> []" "length evidence \<le> 65536"
proof -
  let ?i = "public_id_str rid" and ?f = "\<lambda>r :: request_row. r\<lparr>rr_recovery_evidence := Some evidence\<rparr>"
  from assms(1) obtain reason db1 db3 where ev: "evidence \<noteq> []" "length evidence \<le> 65536" and
    tr: "append_transition env rid (Some RecoveryRequired) t reason (bs_db s) = Inr db1" and
    c: "create_receipt env rnd rid t signer now [] (db1\<lparr>db_requests := update_request ?i ?f db1\<rparr>) = Inr (b, db3)"
      "bs_db s' = db3"
    by (auto simp: reconcile_recovery_def Let_def ok_iff t simp del: if_split split del: if_split split: if_split_asm)
  have "store_edge RecoveryRequired t" by (simp add: store_edge_def t)
  from permitted_transition [OF tr inv [unfolded store_inv_def] refl this] obtain r e where
    r: "find_request (bs_db s) ?i = Some r" "state_of r = RecoveryRequired" "db1 = transitioned ?i t e (bs_db s)" by blast
  have "find_request db1 ?i = Some (r\<lparr>rr_state := as_db t\<rparr>)" unfolding r(3) transitioned_find using r(1) by simp
  then have "find_request (db1\<lparr>db_requests := update_request ?i ?f db1\<rparr>) ?i
      = Some (r\<lparr>rr_state := as_db t, rr_recovery_evidence := Some evidence\<rparr>)" by simp
  moreover have "rr_state r = as_db RecoveryRequired"
    using db_inv_state [OF inv [unfolded store_inv_def] r(1)] r(2) by simp
  ultimately show thesis using that r(1) c ev by blast
qed

text \<open>C11: a reconciled recovery is attested. When \<^verbatim>\<open>reconcile_recovery\<close> succeeds, the request was in
  \<open>RecoveryRequired\<close> and is now \<open>Succeeded\<close> or \<open>Failed\<close> as the operator said, the operator's evidence of 1 to 65536
  bytes is in its row, and the returned bytes, which \<^verbatim>\<open>receipt\<close> returns from then on, are an envelope that verifies
  under the broker's key and holds a receipt of this request for that state with the SHA-256 digest of
  exactly this evidence.\<close>

theorem reconciliation_is_attested:
  assumes "reconcile_recovery env rnd rid succeeded evidence signer now_utc s = Inr (b, s')" and "store_inv env s"
    and "\<And>msg. ed_verify (vk_public_key key) msg (e_ed_sign env (sg_key signer) msg)"
    and "\<And>msg. length (e_ed_sign env (sg_key signer) msg) = 64"
    and "vk_kid key = sg_kid signer" and "RoleBroker \<in> set (vk_roles key)"
    and "sint (vk_not_before_utc key) \<le> sint at" and "sint at < sint (vk_not_after_utc key)"
    and t: "t = (if succeeded then Succeeded else Failed)"
  shows "1 \<le> length evidence \<and> length evidence \<le> 65536
     \<and> (\<exists>r r'. find_request (bs_db s) (public_id_str rid) = Some r \<and> rr_state r = as_db RecoveryRequired
          \<and> find_request (bs_db s') (public_id_str rid) = Some r' \<and> rr_state r' = as_db t \<and> rr_recovery_evidence r' = Some evidence)
     \<and> receipt rid s' = Inr (Some b)
     \<and> (\<exists>c m. CoseSign1_decode b = Inr c
          \<and> CoseSign1_verify ed_verify c key \<lparr>vp_content_type = 3, vp_domain = DomainReceipt, vp_required_role = RoleBroker, vp_now_utc = at\<rparr> = Inr ()
          \<and> Receipt_decode (cs_payload c) = Inr m \<and> receipt_says env (bs_db s) rid t now_utc m
          \<and> rc_execution_evidence m = CMap [(Unsigned 1, Unsigned (if succeeded then 7 else 8)), (Unsigned 2, Bytes (e_sha env evidence))])"
proof -
  let ?i = "public_id_str rid"
  obtain r db2 where r: "find_request (bs_db s) ?i = Some r" "rr_state r = as_db RecoveryRequired"
    and r2: "find_request db2 ?i = Some (r\<lparr>rr_state := as_db t, rr_recovery_evidence := Some evidence\<rparr>)"
    and c: "create_receipt env rnd rid t signer now_utc [] db2 = Inr (b, bs_db s')" and ev: "evidence \<noteq> []" "length evidence \<le> 65536"
    by (rule reconcile_recovery_writes [OF assms(1,2) t])
  have r': "find_request (bs_db s') ?i = Some (r\<lparr>rr_state := as_db t, rr_recovery_evidence := Some evidence, rr_receipt_bytes := Some b\<rparr>)"
    using create_receipt_ok [OF c] r2 by auto
  have "db_inv (e_sha env) {} (bs_db s')" using reconcile_recovery_sound [OF assms(1)] assms(2) by (simp add: store_inv_def)
  from create_receipt_returned [OF c this r', of s'] t have "receipt rid s' = Inr (Some b)" by simp
  moreover have "broker_key_for env signer ed_verify key at" using assms(3-8) by (simp add: broker_key_for_def)
  from create_receipt_evidence [OF c this] r2 obtain e m where
    "CoseSign1_decode b = Inr e"
    "CoseSign1_verify ed_verify e key \<lparr>vp_content_type = 3, vp_domain = DomainReceipt, vp_required_role = RoleBroker, vp_now_utc = at\<rparr> = Inr ()"
    "Receipt_decode (cs_payload e) = Inr m" "receipt_says env db2 rid t now_utc m"
    "rc_execution_evidence m = execution_evidence (e_sha env) t (Some evidence)" by auto
  moreover from this(4) receipt_says_cong [OF _ r2 r(1)] have "receipt_says env (bs_db s) rid t now_utc m" by simp
  moreover have "execution_evidence (e_sha env) t (Some evidence)
      = CMap [(Unsigned 1, Unsigned (if succeeded then 7 else 8)), (Unsigned 2, Bytes (e_sha env evidence))]"
    by (simp add: execution_evidence_def t)
  ultimately show ?thesis using r r' ev by (simp add: Suc_le_eq)
qed

section \<open>Example\<close>

definition demo_recovery :: broker_store where
  [run]: "demo_recovery = fold (run_store demo_env) [TransitionNonterminal demo_id Pending Approved,
     TransitionNonterminal demo_id Approved Executing, TransitionNonterminal demo_id Executing RecoveryRequired] demo_pending"

lemma demo_recovery_inv: "store_inv demo_env demo_recovery"
  unfolding demo_recovery_def using store_machine.good_run demo_inv(3) by blast

lemma demo_reconciled:
  "\<exists>x. reconcile_recovery demo_env (Some (replicate 16 1)) demo_id True [1] demo_signer 20 demo_recovery = Inr x"
  unfolding demo_recovery_def demo_pending_def demo_planning_eq by (simp add: run list_all_iff cong: rbind_weak_cong)

theorem reconciliation_is_attested_witness:
  "\<exists>b s' c m. reconcile_recovery demo_env (Some (replicate 16 1)) demo_id True [1] demo_signer 20 demo_recovery = Inr (b, s')
     \<and> receipt demo_id s' = Inr (Some b) \<and> CoseSign1_decode b = Inr c \<and> Receipt_decode (cs_payload c) = Inr m
     \<and> rc_execution_evidence m = CMap [(Unsigned 1, Unsigned 7), (Unsigned 2, Bytes (e_sha demo_env [1]))]"
proof -
  from demo_reconciled obtain b s' where
    t: "reconcile_recovery demo_env (Some (replicate 16 1)) demo_id True [1] demo_signer 20 demo_recovery = Inr (b, s')"
    by (metis surj_pair)
  from reconciliation_is_attested [OF t demo_recovery_inv, of "\<lambda>(_ :: unit) _ sig. sig = replicate 64 0"
     "\<lparr>vk_kid = sg_kid demo_signer, vk_public_key = (), vk_not_before_utc = 0, vk_not_after_utc = 100, vk_roles = [RoleBroker]\<rparr>" 50 Succeeded]
  have "receipt demo_id s' = Inr (Some b) \<and> (\<exists>c m. CoseSign1_decode b = Inr c \<and> Receipt_decode (cs_payload c) = Inr m
     \<and> rc_execution_evidence m = CMap [(Unsigned 1, Unsigned 7), (Unsigned 2, Bytes (e_sha demo_env [1]))])"
    by (auto simp: demo_env_def)
  with t show ?thesis by blast
qed

text \<open>\<^verbatim>\<open>reconcile_recovery\<close> is not the only way out of \<open>RecoveryRequired\<close>: \<^verbatim>\<open>transition_terminal\<close> ends such a
  request without any evidence of an operator.\<close>

theorem recovery_left_without_evidence:
  "\<exists>b s' r. transition_terminal demo_env (Some (replicate 16 1)) demo_id RecoveryRequired Succeeded demo_signer 20 demo_recovery = Inr (b, s')
     \<and> find_request (bs_db s') (public_id_str demo_id) = Some r \<and> rr_state r = as_db Succeeded \<and> rr_recovery_evidence r = None"
  unfolding demo_recovery_def demo_pending_def demo_planning_eq by (simp add: run list_all_iff cong: rbind_weak_cong)

end
