(* ===== verification/Store_Frames.thy ===== *)
theory Store_Frames
  imports Store_Properties
begin

text \<open>
  What the operations of the store leave alone: the broker identity of
  \<^verbatim>\<open>crates/rp-broker-core/src/lib.rs\<close>, once pinned, stays, and credentials and their generation change
  only in \<^verbatim>\<open>replace_credentials\<close> and, for signature counters, in a committed decision.
\<close>

section \<open>Authority tables\<close>

definition same_authority :: "database \<Rightarrow> database \<Rightarrow> bool" where
  "same_authority db db' \<longleftrightarrow> db_identity db' = db_identity db \<and> db_credentials db' = db_credentials db
     \<and> db_credential_generation db' = db_credential_generation db"

lemma same_authority_refl [simp]: "same_authority db db"
  by (simp add: same_authority_def)

lemma same_authority_trans [trans]: "same_authority a b \<Longrightarrow> same_authority b c \<Longrightarrow> same_authority a c"
  by (simp add: same_authority_def)

lemma same_authority_epoch [simp]: "same_authority db (db'\<lparr>db_boot_epoch := n\<rparr>) = same_authority db db'"
  by (simp add: same_authority_def)

lemma write_requests_authority: "write_requests rs db = Inr db' \<Longrightarrow> same_authority db db'"
  by (auto simp: ok_iff same_authority_def)

lemma insert_event_authority: "insert_event e db = Inr db' \<Longrightarrow> same_authority db db'"
  by (auto simp: insert_event_def same_authority_def split: if_splits)

lemma append_store_event_authority:
  "append_store_event env f rid t c db = Inr db' \<Longrightarrow> same_authority db db'"
  by (auto simp: append_store_event_def rbind_ok dest: insert_event_authority)

lemma append_transition_authority:
  "append_transition env rid expected t c db = Inr db' \<Longrightarrow> same_authority db db'"
  by (auto simp: append_transition_def rbind_ok split: option.splits if_splits
      dest!: write_requests_authority append_store_event_authority intro: same_authority_trans)

lemma create_receipt_authority:
  "create_receipt env rnd rid t signer now ev db = Inr (b, db') \<Longrightarrow> same_authority db db'"
  by (auto simp: create_receipt_def ok_iff if_ok same_authority_def)

lemma expire_all_authority:
  "expire_all env signer now ids rnds n db = Inr (m, db') \<Longrightarrow> same_authority db db'"
  by (induction ids arbitrary: rnds n db)
    (fastforce simp: rbind_ok dest: append_transition_authority create_receipt_authority intro: same_authority_trans)+

lemmas authority_kept = write_requests_authority insert_event_authority append_store_event_authority
  append_transition_authority create_receipt_authority expire_all_authority

lemma transition_terminal_authority:
  "transition_terminal env rnd rid expected t signer now s = Inr (b, s') \<Longrightarrow> same_authority (bs_db s) (bs_db s')"
  by (auto simp: transition_terminal_def transition_terminal_with_evidence_def rbind_ok case_prod_ok split: if_splits
      dest!: append_transition_authority create_receipt_authority intro: same_authority_trans)

lemma submit_authority:
  assumes "submit env policy request s = Inr (out, s')"
  shows "same_authority (bs_db s) (bs_db s')"
  using assms
  by (cases out) (auto simp: submit_def ok_iff Let_def insert_event_def same_authority_def
      split: option.splits if_splits prod.splits)

text \<open>The sign counts apart, the credentials a database holds.\<close>

definition credential_facts :: "database \<Rightarrow> (bytes \<times> i64 \<times> i64 \<times> bytes \<times> i64) list" where
  "credential_facts db = map (\<lambda>c. (cd_credential_id c, cd_generation c, cd_cose_algorithm c, cd_public_key_cose c,
     cd_quarantined c)) (db_credentials db)"

lemma credential_facts_raise [simp]:
  "credential_facts (raise_sign_count n i db) = credential_facts db"
  "db_identity (raise_sign_count n i db) = db_identity db"
  "db_credential_generation (raise_sign_count n i db) = db_credential_generation db"
  by (simp_all add: credential_facts_def raise_sign_count_def)

definition same_credentials :: "database \<Rightarrow> database \<Rightarrow> bool" where
  "same_credentials db db' \<longleftrightarrow> db_identity db' = db_identity db \<and> credential_facts db' = credential_facts db
     \<and> db_credential_generation db' = db_credential_generation db"

lemma same_authority_credentials: "same_authority db db' \<Longrightarrow> same_credentials db db'"
  by (simp add: same_authority_def same_credentials_def credential_facts_def)

lemma same_credentials_refl [simp]: "same_credentials db db"
  by (simp add: same_credentials_def)

lemma same_credentials_trans [trans]: "same_credentials a b \<Longrightarrow> same_credentials b c \<Longrightarrow> same_credentials a c"
  by (simp add: same_credentials_def)

lemma raise_sign_count_credentials [simp]: "same_credentials db (raise_sign_count n i db') = same_credentials db db'"
  by (simp add: same_credentials_def)

lemma commit_decision_credentials:
  "commit_decision env rnd rid submission ctx v signer now s = Inr (out, s') \<Longrightarrow> same_credentials (bs_db s) (bs_db s')"
  by (auto simp: commit_decision_def Let_def rbind_ok case_prod_ok split: if_split_asm
      dest!: append_transition_authority [THEN same_authority_credentials] create_receipt_authority [THEN same_authority_credentials])
    (simp_all add: same_credentials_def)

section \<open>Operations\<close>

text \<open>Every operation but the two that are meant to write the identity or the credentials.\<close>

lemma run_store_credentials:
  assumes "\<And>rnd signer. op \<noteq> InitializeIdentity rnd signer" and "\<And>g cs. op \<noteq> ReplaceCredentials g cs"
  shows "same_credentials (bs_db s) (bs_db (run_store env op s))"
proof -
  have c: "same_credentials (bs_db s) (bs_db (committed s res))"
    if "\<And>x s'. res = Inr (x, s') \<Longrightarrow> same_credentials (bs_db s) (bs_db s')" for res :: "'x store_result"
    using that by (auto simp: committed_def split: sum.split)
  have a: "same_credentials (bs_db s) (bs_db (committed s res))"
    if "\<And>x s'. res = Inr (x, s') \<Longrightarrow> same_authority (bs_db s) (bs_db s')" for res :: "'y store_result"
    using that by (blast intro: c same_authority_credentials)
  note tt = transition_terminal_authority [THEN same_authority_credentials]
  show ?thesis
  proof (cases op)
    case (StartBoot rnds epoch signer now)
    then show ?thesis
      by (auto intro!: a simp: start_boot_def Let_def rbind_ok case_prod_ok split: if_splits
          dest!: expire_all_authority)
  next
    case (Submit policy request)
    then show ?thesis by (auto intro!: a dest: submit_authority)
  next
    case (TransitionNonterminal rid expected t)
    then show ?thesis
      by (auto intro!: a simp: transition_nonterminal_def Let_def rbind_ok split: if_splits option.splits
          dest!: write_requests_authority append_store_event_authority) (simp_all add: same_authority_def)
  next
    case (PrepareForDecision rid plan ctx signer)
    then show ?thesis
      by (auto intro!: a simp: prepare_for_decision_def Let_def rbind_ok split: if_splits option.splits
          dest!: write_requests_authority append_transition_authority) (simp_all add: same_authority_def)
  next
    case (ApplySubmission verifier rnd rid submission rp signer now_mono now)
    then show ?thesis
      by (auto intro!: c simp: apply_webauthn_submission_def rbind_ok case_prod_ok split: if_split_asm
          dest: commit_decision_credentials tt)
  next
    case (TransitionTerminal rnd rid expected t signer now)
    then show ?thesis by (auto intro!: a dest: transition_terminal_authority)
  next
    case (ReconcileRecovery rnd rid succeeded evidence signer now)
    then show ?thesis
      by (auto intro!: a simp: reconcile_recovery_def Let_def rbind_ok case_prod_ok split: if_split_asm
          dest!: write_requests_authority append_transition_authority create_receipt_authority) (simp_all add: same_authority_def)
  qed (use assms in auto)
qed

text \<open>The identity once pinned: its key and epoch never change, nor does the device once it has one.\<close>

definition same_identity :: "identity_row option \<Rightarrow> identity_row option \<Rightarrow> bool" where
  "same_identity x y \<longleftrightarrow> (\<forall>i. x = Some i \<longrightarrow> (\<exists>j. y = Some j \<and> bi_key_kid j = bi_key_kid i
     \<and> bi_public_key j = bi_public_key i \<and> bi_broker_epoch j = bi_broker_epoch i
     \<and> (bi_device_id i \<noteq> None \<longrightarrow> bi_device_id j = bi_device_id i)))"

lemma same_identity_refl [simp]: "same_identity x x"
  by (simp add: same_identity_def)

lemma same_identity_trans [trans]: "same_identity x y \<Longrightarrow> same_identity y z \<Longrightarrow> same_identity x z"
  by (fastforce simp: same_identity_def)

lemma replace_credentials_identity:
  "replace_credentials g cs s = Inr (u, s') \<Longrightarrow> db_identity (bs_db s') = db_identity (bs_db s)"
  by (auto simp: replace_credentials_def ok_iff split: if_splits dest!: insert_credentials_frame)

lemma initialize_identity_same:
  "initialize_identity env rnd signer s = Inr (u, s') \<Longrightarrow> same_identity (db_identity (bs_db s)) (db_identity (bs_db s'))
     \<and> db_credentials (bs_db s') = db_credentials (bs_db s)
     \<and> db_credential_generation (bs_db s') = db_credential_generation (bs_db s)"
  by (auto simp: initialize_identity_def ok_iff Let_def same_identity_def split: option.splits if_splits)

lemma run_store_identity: "same_identity (db_identity (bs_db s)) (db_identity (bs_db (run_store env op s)))"
proof -
  consider rnd signer where "op = InitializeIdentity rnd signer" | g cs where "op = ReplaceCredentials g cs"
    | "\<And>rnd signer. op \<noteq> InitializeIdentity rnd signer" "\<And>g cs. op \<noteq> ReplaceCredentials g cs"
    by blast
  then show ?thesis
  proof cases
    case 1
    then show ?thesis by (auto simp: committed_def split: sum.split dest: initialize_identity_same)
  next
    case 2
    then show ?thesis by (auto simp: committed_def split: sum.split dest: replace_credentials_identity)
  next
    case 3
    then show ?thesis using run_store_credentials [OF 3, of s env] by (simp add: same_credentials_def)
  qed
qed

lemma run_identity: "same_identity (db_identity (bs_db s)) (db_identity (bs_db (fold (run_store env) ops s)))"
  by (induction ops arbitrary: s) (auto intro: same_identity_trans run_store_identity)

end
