(* ===== verification/Store_Concurrency.thy ===== *)
theory Store_Concurrency
  imports Store_Frames
begin

text \<open>
  Several handles on one database. Every operation of \<^verbatim>\<open>BrokerStore\<close> but one is a single transaction;
  \<^verbatim>\<open>apply_webauthn_submission\<close> reads the request, the identity, the deadline, the credential generation
  and the credentials in statements of their own, verifies the assertion, and only then opens the
  transaction that decides. Between any two of these another process may change the database. This
  theory models a call of \<^verbatim>\<open>apply_webauthn_submission\<close> as a machine whose steps are these statements,
  and the interleavings of any number of calls with each other and with all other operations as a
  step relation.
\<close>

section \<open>A decision in progress\<close>

datatype decision_stage =
    Started
  | RowRead request_row
  | ContextRead
  | Expiring
  | TimeChecked
  | GoingStale
  | GenerationChecked
  | CredentialsRead "pinned_credential list"

text \<open>The arguments of the call, the fields of its handle and how far it has come.\<close>

record decision_call =
  dc_verifier :: webauthn_verifier
  dc_rnd :: "bytes option"
  dc_request_id :: public_id
  dc_submission :: decision_submission
  dc_relying_party :: relying_party
  dc_signer :: broker_signing_key
  dc_now_mono_ns :: u64
  dc_now_utc :: i64
  dc_device_id :: bytes
  dc_device_id_bytes :: bytes
  dc_stage :: decision_stage

definition call_store :: "decision_call \<Rightarrow> database \<Rightarrow> broker_store" where
  [run]: "call_store c db = \<lparr>bs_db = db, bs_device_id = dc_device_id c, bs_device_id_bytes = dc_device_id_bytes c\<rparr>"

abbreviation call_context :: "decision_call \<Rightarrow> approval_context" where
  "call_context c \<equiv> ds_approval_context (dc_submission c)"

text \<open>The first query of \<^verbatim>\<open>approval_context\<close> with its check, and what follows it.\<close>

definition read_pending :: "public_id \<Rightarrow> database \<Rightarrow> broker_error + request_row" where
  [run]: "read_pending request_id db =
     rbind (ok_or Sqlite (find_request db (public_id_str request_id))) (\<lambda>r.
     rbind (ok_or Sqlite (rr_request_digest r)) (\<lambda>_.
     rbind (ok_or Sqlite (rr_request_nonce r)) (\<lambda>_.
     rbind (from_db (rr_state r)) (\<lambda>state.
       if state \<noteq> Pending then Inl (LifecycleRaceLost state) else Inr r))))"

definition finish_context :: "env \<Rightarrow> decision_call \<Rightarrow> request_row \<Rightarrow> database \<Rightarrow> broker_error + approval_context" where
  [run]: "finish_context env c r db =
     rbind (ok_or Sqlite (db_identity db)) (\<lambda>identity.
     rbind (PublicId_bytes env (dc_request_id c)) (\<lambda>request_id_bytes.
     rbind (u64_from_i64 NumericOutOfRange (bi_broker_epoch identity)) (\<lambda>broker_epoch.
     rbind (rbind (ok_or Sqlite (rr_request_digest r)) (fixed_array CorruptState 32)) (\<lambda>request_digest.
     rbind (u64_from_i64 NumericOutOfRange (rr_generation r)) (\<lambda>generation.
     rbind (rbind (ok_or Sqlite (rr_request_nonce r)) (fixed_array CorruptState 32)) (\<lambda>nonce.
     rbind (ok_or CorruptState (rr_request_expires_utc r)) (\<lambda>expires_utc.
       Inr \<lparr>ac_request_id = request_id_bytes, ac_device_id = dc_device_id_bytes c, ac_broker_epoch = broker_epoch,
            ac_request_digest = request_digest, ac_generation = generation, ac_nonce = nonce,
            ac_rp_id = rp_rp_id (dc_relying_party c), ac_origin = rp_origin (dc_relying_party c),
            ac_decision = ac_decision (call_context c), ac_expires_utc = expires_utc\<rparr>)))))))"

text \<open>One statement or one transaction of a call: it goes on, or it returns, with the database it committed.\<close>

datatype call_progress = Continue decision_stage | Return "broker_error + decision_outcome \<times> database"

definition continue :: "broker_error + decision_stage \<Rightarrow> call_progress" where
  [run]: "continue res = (case res of Inl e \<Rightarrow> Return (Inl e) | Inr st \<Rightarrow> Continue st)"

definition close_call :: "request_state \<Rightarrow> bytes store_result \<Rightarrow> call_progress" where
  [run]: "close_call state res = Return (map_ok (\<lambda>(receipt, s). (\<lparr>do_state = state, do_receipt_cose = Some receipt\<rparr>, bs_db s)) res)"

definition call_step :: "env \<Rightarrow> decision_call \<Rightarrow> database \<Rightarrow> call_progress" where
  [run]: "call_step env c db =
     (let s = call_store c db; rid = dc_request_id c; ctx = call_context c in
      case dc_stage c of
        Started \<Rightarrow> continue (map_ok RowRead (read_pending rid db))
      | RowRead r \<Rightarrow> continue (rbind (finish_context env c r db) (\<lambda>context.
          if context \<noteq> ctx then Inl (WebAuthnFailed ContextMismatch) else Inr ContextRead))
      | ContextRead \<Rightarrow> continue (map_ok (\<lambda>expired. if expired then Expiring else TimeChecked)
          (if sint (ac_expires_utc ctx) \<le> sint (dc_now_utc c) then Inr True
           else deadline_elapsed rid (dc_now_mono_ns c) s))
      | Expiring \<Rightarrow> close_call Expired (transition_terminal env (dc_rnd c) rid Pending Expired (dc_signer c) (dc_now_utc c) s)
      | TimeChecked \<Rightarrow> continue (map_ok (\<lambda>active_generation.
          if active_generation \<noteq> ac_generation ctx then GoingStale else GenerationChecked) (credential_generation s))
      | GoingStale \<Rightarrow> close_call Stale (transition_terminal env (dc_rnd c) rid Pending Stale (dc_signer c) (dc_now_utc c) s)
      | GenerationChecked \<Rightarrow> continue (map_ok CredentialsRead (pinned_credentials (ac_generation ctx) s))
      | CredentialsRead credentials \<Rightarrow> Return
          (rbind (map_err WebAuthnFailed (verify_submission (e_sha env) (dc_verifier c) ctx credentials (dc_submission c))) (\<lambda>verified.
           map_ok (\<lambda>(out, s). (out, bs_db s))
             (commit_decision env (dc_rnd c) rid (dc_submission c) ctx verified (dc_signer c) (dc_now_utc c) s))))"

text \<open>A call whose step number \<open>k\<close> finds the database \<open>dbs k\<close>, for at most \<open>n\<close> steps.\<close>

fun run_call :: "nat \<Rightarrow> env \<Rightarrow> decision_call \<Rightarrow> (nat \<Rightarrow> database) \<Rightarrow> (broker_error + decision_outcome \<times> database) option" where
  "run_call 0 env c dbs = None"
| "run_call (Suc n) env c dbs =
     (case call_step env c (dbs 0) of
        Return res \<Rightarrow> Some res
      | Continue st \<Rightarrow> run_call n env (c\<lparr>dc_stage := st\<rparr>) (\<lambda>k. dbs (Suc k)))"

section \<open>Interleavings\<close>

record world =
  w_db :: database
  w_calls :: "nat \<Rightarrow> decision_call option"

text \<open>With \<open>rotating\<close>, replacing the credentials raises their generation, except for the first enrolment.\<close>

definition disciplined :: "bool \<Rightarrow> database \<Rightarrow> store_op \<Rightarrow> bool" where
  "disciplined rotating db op \<longleftrightarrow> (rotating \<longrightarrow> (case op of
     ReplaceCredentials g cs \<Rightarrow> sint (db_credential_generation db) < sint g
       \<or> g = db_credential_generation db \<and> db_credentials db = []
   | _ \<Rightarrow> True))"

inductive broker_step :: "env \<Rightarrow> bool \<Rightarrow> world \<Rightarrow> world \<Rightarrow> bool" for env rotating where
  operate: "bs_db s = w_db w \<Longrightarrow> disciplined rotating (w_db w) op \<Longrightarrow>
     broker_step env rotating w (w\<lparr>w_db := bs_db (run_store env op s)\<rparr>)"
| enter: "w_calls w n = None \<Longrightarrow> dc_stage c = Started \<Longrightarrow>
     broker_step env rotating w (w\<lparr>w_calls := (w_calls w)(n \<mapsto> c)\<rparr>)"
| advance: "w_calls w n = Some c \<Longrightarrow> call_step env c (w_db w) = Continue st \<Longrightarrow>
     broker_step env rotating w (w\<lparr>w_calls := (w_calls w)(n \<mapsto> c\<lparr>dc_stage := st\<rparr>)\<rparr>)"
| fail: "w_calls w n = Some c \<Longrightarrow> call_step env c (w_db w) = Return (Inl e) \<Longrightarrow>
     broker_step env rotating w (w\<lparr>w_calls := (w_calls w)(n := None)\<rparr>)"
| finish: "w_calls w n = Some c \<Longrightarrow> call_step env c (w_db w) = Return (Inr (out, db')) \<Longrightarrow>
     broker_step env rotating w (w\<lparr>w_db := db', w_calls := (w_calls w)(n := None)\<rparr>)"

inductive_cases broker_stepE: "broker_step env rotating w w'"

text \<open>A broker that just opened an empty database.\<close>

definition start_world :: world where
  "start_world = \<lparr>w_db = empty_database, w_calls = (\<lambda>_. None)\<rparr>"

abbreviation runs :: "env \<Rightarrow> bool \<Rightarrow> world \<Rightarrow> world \<Rightarrow> bool" where
  "runs env rotating \<equiv> (broker_step env rotating)\<^sup>*\<^sup>*"

abbreviation reachable :: "env \<Rightarrow> bool \<Rightarrow> world \<Rightarrow> bool" where
  "reachable env rotating \<equiv> runs env rotating start_world"

section \<open>A call alone\<close>

lemma approval_context_split:
  "approval_context env (dc_request_id c) (ac_decision (call_context c)) (dc_relying_party c) (call_store c db)
     = rbind (read_pending (dc_request_id c) db) (\<lambda>r. finish_context env c r db)"
  by (cases "find_request db (public_id_str (dc_request_id c))")
     (auto simp: approval_context_def read_pending_def finish_context_def call_store_def ok_or_def rbind_def
        split: option.splits sum.splits)

lemma run_call_continue:
  "call_step env c (dbs 0) = continue res \<Longrightarrow> run_call (Suc n) env c dbs =
     (case res of Inl e \<Rightarrow> Some (Inl e) | Inr st \<Rightarrow> run_call n env (c\<lparr>dc_stage := st\<rparr>) (\<lambda>k. dbs (Suc k)))"
  by (cases res) (simp_all add: continue_def)

lemma call_store_stage [simp]: "call_store (c\<lparr>dc_stage := st\<rparr>) db = call_store c db"
  by (simp add: call_store_def)

lemma finish_context_stage [simp]: "finish_context env (c\<lparr>dc_stage := st\<rparr>) r db = finish_context env c r db"
  by (simp add: finish_context_def)

text \<open>Run without interruption, the machine computes \<open>apply_webauthn_submission\<close>.\<close>

definition apply_call :: "env \<Rightarrow> decision_call \<Rightarrow> database \<Rightarrow> broker_error + decision_outcome \<times> database" where
  "apply_call env c db = map_ok (\<lambda>(out, s). (out, bs_db s))
     (apply_webauthn_submission env (dc_verifier c) (dc_rnd c) (dc_request_id c) (dc_submission c) (dc_relying_party c)
        (dc_signer c) (dc_now_mono_ns c) (dc_now_utc c) (call_store c db))"

lemma run_call_alone:
  assumes "dc_stage c = Started"
  shows "run_call 6 env c (\<lambda>_. db) = Some (apply_call env c db)"
proof -
  have 6: "(6 :: nat) = Suc (Suc (Suc (Suc (Suc (Suc 0)))))" by simp
  show ?thesis
    unfolding 6 apply_call_def apply_webauthn_submission_def approval_context_split
    using assms
    by (simp add: call_step_def Let_def continue_def close_call_def map_ok_def map_err_def rbind_def
        split: sum.split prod.split)
qed

text \<open>So every decision of the source is a run of the machine.\<close>

lemma operate_runs:
  assumes "runs env rotating w0 w" and "bs_db s = w_db w" and "disciplined rotating (w_db w) op"
  shows "runs env rotating w0 (w\<lparr>w_db := bs_db (run_store env op s)\<rparr>)"
  using assms(1) broker_step.operate [OF assms(2,3)] by (rule rtranclp.rtrancl_into_rtrancl)

lemma run_call_runs:
  assumes "run_call k env c (\<lambda>_. w_db w) = Some res" and "runs env rotating w0 w" and "w_calls w n = Some c"
  shows "\<exists>st. runs env rotating w0 (w\<lparr>w_calls := (w_calls w)(n \<mapsto> c\<lparr>dc_stage := st\<rparr>)\<rparr>)
     \<and> call_step env (c\<lparr>dc_stage := st\<rparr>) (w_db w) = Return res"
  using assms
proof (induction k arbitrary: c w)
  case (Suc k)
  show ?case
  proof (cases "call_step env c (w_db w)")
    case (Continue st)
    let ?w = "w\<lparr>w_calls := (w_calls w)(n \<mapsto> c\<lparr>dc_stage := st\<rparr>)\<rparr>"
    have w: "?w\<lparr>w_calls := (w_calls ?w)(n \<mapsto> c\<lparr>dc_stage := st\<rparr>\<lparr>dc_stage := x\<rparr>)\<rparr>
        = w\<lparr>w_calls := (w_calls w)(n \<mapsto> c\<lparr>dc_stage := x\<rparr>)\<rparr>" for x
      by (cases w) (simp add: fun_eq_iff)
    have "runs env rotating w0 ?w"
      using Suc.prems(2) broker_step.advance [OF Suc.prems(3) Continue] by (rule rtranclp.rtrancl_into_rtrancl)
    moreover have "run_call k env (c\<lparr>dc_stage := st\<rparr>) (\<lambda>_. w_db ?w) = Some res" using Suc.prems(1) Continue by simp
    moreover have "w_calls ?w n = Some (c\<lparr>dc_stage := st\<rparr>)" by simp
    ultimately obtain x where
      "runs env rotating w0 (w\<lparr>w_calls := (w_calls w)(n \<mapsto> c\<lparr>dc_stage := x\<rparr>)\<rparr>)"
      "call_step env (c\<lparr>dc_stage := st\<rparr>\<lparr>dc_stage := x\<rparr>) (w_db ?w) = Return res"
      using Suc.IH [of "c\<lparr>dc_stage := st\<rparr>" ?w, unfolded w] by blast
    moreover from this(2) have "call_step env (c\<lparr>dc_stage := x\<rparr>) (w_db w) = Return res" by simp
    ultimately show ?thesis by blast
  next
    case (Return r)
    have "(w_calls w)(n \<mapsto> c) = w_calls w" using Suc.prems(3) by (simp add: fun_upd_idem)
    with Return Suc.prems show ?thesis by (intro exI [of _ "dc_stage c"]) simp
  qed
qed simp

text \<open>Every step of a call that goes on brings it closer to its end.\<close>

fun stage_rank :: "decision_stage \<Rightarrow> nat" where
  "stage_rank Started = 0"
| "stage_rank (RowRead _) = 1"
| "stage_rank ContextRead = 2"
| "stage_rank TimeChecked = 3"
| "stage_rank GenerationChecked = 4"
| "stage_rank Expiring = 5"
| "stage_rank GoingStale = 5"
| "stage_rank (CredentialsRead _) = 5"

lemma call_step_progress: "call_step env c db = Continue st \<Longrightarrow> stage_rank (dc_stage c) < stage_rank st"
  by (auto simp: call_step_def Let_def continue_def close_call_def map_ok_def rbind_ok
      split: decision_stage.splits sum.splits if_splits)

lemma stage_rank_le: "stage_rank st \<le> 5"
  by (cases st) simp_all

lemma run_call_returns: "5 - stage_rank (dc_stage c) < n \<Longrightarrow> \<exists>res. run_call n env c dbs = Some res"
proof (induction n arbitrary: c dbs)
  case (Suc n)
  show ?case
  proof (cases "call_step env c (dbs 0)")
    case (Continue st)
    then have "5 - stage_rank (dc_stage (c\<lparr>dc_stage := st\<rparr>)) < n"
      using Suc.prems call_step_progress [OF Continue] stage_rank_le [of st] by simp
    from Suc.IH [OF this] Continue show ?thesis by simp
  qed simp
qed simp

section \<open>What an interleaved step may change\<close>

text \<open>Requests move along the edges of the store, the identity stays; with \<open>rotating\<close>, the generation does not
  fall, and while it stays no credential is removed.\<close>

definition evolves :: "hash \<Rightarrow> bool \<Rightarrow> database \<Rightarrow> database \<Rightarrow> bool" where
  "evolves sha rotating db db' \<longleftrightarrow> sound_step sha db db' \<and> same_identity (db_identity db) (db_identity db')
     \<and> (rotating \<longrightarrow> sint (db_credential_generation db) < sint (db_credential_generation db')
          \<or> db_credential_generation db' = db_credential_generation db \<and> set (credential_facts db) \<subseteq> set (credential_facts db'))"

lemma evolves_refl: "db_inv sha {} db \<Longrightarrow> evolves sha rotating db db"
  by (simp add: evolves_def)

lemma evolves_credentials:
  "sound_step sha db db' \<Longrightarrow> same_credentials db db' \<Longrightarrow> evolves sha rotating db db'"
  by (simp add: evolves_def same_credentials_def)

lemma run_store_evolves:
  assumes "store_inv env s" and "disciplined rotating (bs_db s) op"
  shows "evolves (e_sha env) rotating (bs_db s) (bs_db (run_store env op s))"
proof -
  note sound = run_store_sound [OF assms(1), of op]
  consider rnd signer where "op = InitializeIdentity rnd signer" | g cs where "op = ReplaceCredentials g cs"
    | "\<And>rnd signer. op \<noteq> InitializeIdentity rnd signer" "\<And>g cs. op \<noteq> ReplaceCredentials g cs"
    by blast
  then show ?thesis
  proof cases
    case 1
    with sound run_store_identity [of s env op] show ?thesis
      by (auto simp: evolves_def committed_def credential_facts_def split: sum.splits dest!: initialize_identity_same)
  next
    case 2
    have "db_credential_generation (bs_db s') = g" if "replace_credentials g cs s = Inr (u, s')" for u s'
      using that by (auto simp: replace_credentials_def ok_iff split: if_splits)
    with 2 sound run_store_identity [of s env op] assms(2) show ?thesis
      by (auto simp: evolves_def committed_def disciplined_def credential_facts_def split: sum.splits)
  next
    case 3
    with sound show ?thesis by (intro evolves_credentials run_store_credentials)
  qed
qed

lemma call_step_evolves:
  assumes "call_step env c db = Return (Inr (out, db'))" and inv: "db_inv (e_sha env) {} db"
  shows "evolves (e_sha env) rotating db db' \<and> advanced (public_id_str (dc_request_id c)) (do_state out) db db'
     \<and> (\<exists>r. find_request db (public_id_str (dc_request_id c)) = Some r \<and> rr_state r = as_db Pending)"
proof -
  have db: "bs_db (call_store c db) = db" by (simp add: call_store_def)
  have closed: "evolves (e_sha env) rotating db (bs_db s') \<and> advanced (public_id_str (dc_request_id c)) t db (bs_db s')
      \<and> (\<exists>r. find_request db (public_id_str (dc_request_id c)) = Some r \<and> rr_state r = as_db Pending)"
    if t: "transition_terminal env (dc_rnd c) (dc_request_id c) Pending t signer now (call_store c db) = Inr (b, s')" for t b s' signer now
  proof -
    from transition_terminal_sound [OF t] inv have "advanced (public_id_str (dc_request_id c)) t db (bs_db s')"
      "db_inv (e_sha env) {} (bs_db s')" by (simp_all add: db)
    moreover from transition_terminal_authority [OF t] have "same_credentials db (bs_db s')"
      by (simp add: db same_authority_credentials)
    moreover from t have "\<exists>r. find_request db (public_id_str (dc_request_id c)) = Some r \<and> rr_state r = as_db Pending"
      by (auto simp: transition_terminal_def transition_terminal_with_evidence_def append_transition_def rbind_ok db
          split: if_split_asm option.split_asm)
    ultimately show ?thesis using evolves_credentials sound_step_advanced by blast
  qed
  have decided: "evolves (e_sha env) rotating db (bs_db s') \<and> advanced (public_id_str (dc_request_id c)) (do_state out) db (bs_db s')
      \<and> (\<exists>r. find_request db (public_id_str (dc_request_id c)) = Some r \<and> rr_state r = as_db Pending)"
    if t: "commit_decision env (dc_rnd c) (dc_request_id c) sub ctx v signer now (call_store c db) = Inr (out, s')" for sub ctx v signer now s'
  proof -
    have "advanced (public_id_str (dc_request_id c)) (do_state out) db (bs_db s')" "db_inv (e_sha env) {} (bs_db s')"
      using commit_decision_ok [OF t] inv unfolding db by blast+
    moreover from commit_decision_credentials [OF t] have "same_credentials db (bs_db s')" by (simp add: db)
    moreover from t have "\<exists>r. find_request db (public_id_str (dc_request_id c)) = Some r \<and> rr_state r = as_db Pending"
      by (auto simp: commit_decision_def rbind_ok ok_or_ok as_from_db db Let_def split: if_split_asm)
    ultimately show ?thesis using evolves_credentials sound_step_advanced by blast
  qed
  from assms(1) closed decided show ?thesis
    by (auto simp: call_step_def Let_def continue_def close_call_def map_ok_ok rbind_ok map_err_ok
        split: decision_stage.split_asm sum.split_asm)
qed

section \<open>What a call knows\<close>

text \<open>The request was pending once; if it still is, its row satisfies \<open>P\<close>. No step can make this false, since
  a request that leaves \<open>Pending\<close> does not come back and one that stays is not written.\<close>

definition watched :: "database \<Rightarrow> decision_call \<Rightarrow> (request_row \<Rightarrow> bool) \<Rightarrow> bool" where
  "watched db c P \<longleftrightarrow> (\<exists>r. find_request db (public_id_str (dc_request_id c)) = Some r
     \<and> rank Pending \<le> rank (state_of r) \<and> (state_of r = Pending \<longrightarrow> P r))"

lemma watched_mono: "watched db c P \<Longrightarrow> (\<And>r. P r \<Longrightarrow> Q r) \<Longrightarrow> watched db c Q"
  by (auto simp: watched_def)

lemma watched_stage [simp]: "watched db (c\<lparr>dc_stage := st\<rparr>) P = watched db c P"
  by (simp add: watched_def)

lemma watched_evolves:
  assumes "watched db c P" and "sound_step sha db db'"
  shows "watched db' c P"
proof -
  let ?i = "public_id_str (dc_request_id c)"
  from assms(1) obtain r where r: "find_request db ?i = Some r" "rank Pending \<le> rank (state_of r)"
    "state_of r = Pending \<longrightarrow> P r" by (auto simp: watched_def)
  from assms(2) have "step_at ?i db db'" by (simp add: sound_step_def)
  with r consider "find_request db' ?i = Some r"
    | t r' where "find_request db' ?i = Some r'" "store_edge (state_of r) t" "rr_state r' = as_db t"
    by (auto simp: step_at_def same_at_def moved_def created_def)
  then show ?thesis
  proof cases
    case 1
    with r show ?thesis by (auto simp: watched_def)
  next
    case 2
    then have "rank Pending < rank (state_of r')"
      using store_edge_rank [OF 2(2)] state_of_as_db [OF 2(3)] r(2) by simp
    then show ?thesis using 2(1) by (auto simp: watched_def)
  qed
qed

lemma finish_context_evolves:
  assumes "finish_context env c r db = Inr ctx" and "same_identity (db_identity db) (db_identity db')"
  shows "finish_context env c r db' = Inr ctx"
  using assms by (auto simp: finish_context_def rbind_ok ok_or_ok same_identity_def)

definition in_context :: "env \<Rightarrow> decision_call \<Rightarrow> database \<Rightarrow> request_row \<Rightarrow> bool" where
  "in_context env c db r \<longleftrightarrow> finish_context env c r db = Inr (call_context c)"

definition in_time :: "decision_call \<Rightarrow> request_row \<Rightarrow> bool" where
  "in_time c r \<longleftrightarrow> sint (dc_now_utc c) < sint (ac_expires_utc (call_context c))
     \<and> (\<exists>d. rr_deadline_mono_ns r = Some d \<and> dc_now_mono_ns c < d)"

definition elapsed_for :: "decision_call \<Rightarrow> request_row \<Rightarrow> bool" where
  "elapsed_for c r \<longleftrightarrow> sint (ac_expires_utc (call_context c)) \<le> sint (dc_now_utc c)
     \<or> (\<exists>d. rr_deadline_mono_ns r = Some d \<and> d \<le> dc_now_mono_ns c)"

lemma in_time_not_elapsed: "in_time c r \<Longrightarrow> \<not> elapsed_for c r"
  by (auto simp: in_time_def elapsed_for_def)

lemma time_stage [simp]:
  "in_time (c\<lparr>dc_stage := st\<rparr>) = in_time c" "elapsed_for (c\<lparr>dc_stage := st\<rparr>) = elapsed_for c"
  by (simp_all add: in_time_def elapsed_for_def fun_eq_iff)

definition pins_current :: "u64 \<Rightarrow> pinned_credential list \<Rightarrow> database \<Rightarrow> bool" where
  "pins_current g pins db \<longleftrightarrow> (\<forall>p\<in>set pins. \<exists>alg key q.
     (pc_credential_id p, g, alg, key, q) \<in> set (credential_facts db) \<and> (q \<noteq> 0 \<longleftrightarrow> pc_quarantined p))"

definition generation_passed :: "bool \<Rightarrow> decision_call \<Rightarrow> database \<Rightarrow> bool" where
  "generation_passed rotating c db \<longleftrightarrow>
     (rotating \<longrightarrow> sint (ac_generation (call_context c)) \<le> sint (db_credential_generation db))"

definition credentials_known :: "bool \<Rightarrow> decision_call \<Rightarrow> pinned_credential list \<Rightarrow> database \<Rightarrow> bool" where
  "credentials_known rotating c pins db \<longleftrightarrow> generation_passed rotating c db
     \<and> (rotating \<longrightarrow> db_credential_generation db = ac_generation (call_context c) \<longrightarrow>
          pins_current (ac_generation (call_context c)) pins db)"

text \<open>What stays true of a call after each of its stages, whatever the others do.\<close>

fun stage_inv :: "env \<Rightarrow> bool \<Rightarrow> database \<Rightarrow> decision_call \<Rightarrow> decision_stage \<Rightarrow> bool" where
  "stage_inv env rotating db c (RowRead r) \<longleftrightarrow> watched db c (\<lambda>x. x = r)"
| "stage_inv env rotating db c ContextRead \<longleftrightarrow> watched db c (in_context env c db)"
| "stage_inv env rotating db c Expiring \<longleftrightarrow> watched db c (\<lambda>r. in_context env c db r \<and> elapsed_for c r)"
| "stage_inv env rotating db c GoingStale \<longleftrightarrow> watched db c (\<lambda>r. in_context env c db r \<and> in_time c r)"
| "stage_inv env rotating db c TimeChecked \<longleftrightarrow> watched db c (\<lambda>r. in_context env c db r \<and> in_time c r)"
| "stage_inv env rotating db c GenerationChecked \<longleftrightarrow> watched db c (\<lambda>r. in_context env c db r \<and> in_time c r)
     \<and> generation_passed rotating c db"
| "stage_inv env rotating db c (CredentialsRead pins) \<longleftrightarrow> watched db c (\<lambda>r. in_context env c db r \<and> in_time c r)
     \<and> credentials_known rotating c pins db"
| "stage_inv env rotating db c _ \<longleftrightarrow> True"

lemma generation_passed_evolves:
  "generation_passed rotating c db \<Longrightarrow> evolves sha rotating db db' \<Longrightarrow> generation_passed rotating c db'"
  by (auto simp: generation_passed_def evolves_def)

lemma credentials_known_evolves:
  assumes known: "credentials_known rotating c pins db" and ev: "evolves sha rotating db db'"
  shows "credentials_known rotating c pins db'"
proof -
  let ?g = "ac_generation (call_context c)"
  have "pins_current ?g pins db'" if rot: rotating and same: "db_credential_generation db' = ?g"
  proof -
    from known rot have "sint ?g \<le> sint (db_credential_generation db)" by (simp add: credentials_known_def generation_passed_def)
    moreover from ev rot have "sint (db_credential_generation db) < sint (db_credential_generation db')
        \<or> db_credential_generation db' = db_credential_generation db \<and> set (credential_facts db) \<subseteq> set (credential_facts db')"
      unfolding evolves_def by blast
    ultimately have "db_credential_generation db = ?g" "set (credential_facts db) \<subseteq> set (credential_facts db')"
      unfolding same by auto
    with known rot show ?thesis by (fastforce simp: credentials_known_def pins_current_def)
  qed
  with generation_passed_evolves [OF _ ev] known show ?thesis by (simp add: credentials_known_def)
qed

lemma watched_context_evolves:
  assumes "watched db c (\<lambda>r. in_context env c db r \<and> P r)" and ev: "evolves sha rotating db db'"
  shows "watched db' c (\<lambda>r. in_context env c db' r \<and> P r)"
proof -
  from ev have sound: "sound_step sha db db'" and id: "same_identity (db_identity db) (db_identity db')"
    unfolding evolves_def by blast+
  show ?thesis
  proof (rule watched_mono [OF watched_evolves [OF assms(1) sound]])
    show "in_context env c db' r \<and> P r" if "in_context env c db r \<and> P r" for r
      using that finish_context_evolves [OF _ id] by (simp add: in_context_def)
  qed
qed

lemma stage_inv_evolves:
  assumes "stage_inv env rotating db c st" and ev: "evolves sha rotating db db'"
  shows "stage_inv env rotating db' c st"
proof (cases st)
  case (RowRead r)
  moreover have "sound_step sha db db'" using ev by (simp add: evolves_def)
  ultimately show ?thesis using assms(1) watched_evolves [of db c "\<lambda>x. x = r" sha db'] by simp
next
  case ContextRead
  with assms(1) watched_context_evolves [OF _ ev, of c env "\<lambda>_. True"] show ?thesis by simp
next
  case Expiring
  with assms(1) watched_context_evolves [OF _ ev, of c env "elapsed_for c"] show ?thesis by simp
qed (use assms(1) watched_context_evolves [OF _ ev, of c env "in_time c"] generation_passed_evolves [OF _ ev]
  credentials_known_evolves [OF _ ev] in simp_all)

lemma pinned_current:
  assumes "pinned_credentials g s = Inr pins"
  shows "pins_current g pins (bs_db s)"
  unfolding pins_current_def
proof
  fix p assume "p \<in> set pins"
  from pinned_row [OF assms this] obtain c where
    c: "c \<in> set (db_credentials (bs_db s))" "cd_credential_id c = pc_credential_id p" "cd_generation c = g"
      "cd_quarantined c \<noteq> 0 \<longleftrightarrow> pc_quarantined p" by blast
  then have "(pc_credential_id p, g, cd_cose_algorithm c, cd_public_key_cose c, cd_quarantined c) \<in> set (credential_facts (bs_db s))"
    unfolding credential_facts_def set_map by (intro image_eqI [of _ _ c]) simp_all
  with c(4) show "\<exists>alg key q. (pc_credential_id p, g, alg, key, q) \<in> set (credential_facts (bs_db s)) \<and> (q \<noteq> 0 \<longleftrightarrow> pc_quarantined p)"
    by blast
qed

lemma read_pending_ok:
  "read_pending rid db = Inr r \<Longrightarrow> find_request db (public_id_str rid) = Some r \<and> rr_state r = as_db Pending"
  by (auto simp: read_pending_def rbind_ok ok_or_ok as_from_db split: if_split_asm)

lemma stage_inv_advance:
  assumes step: "call_step env c db = Continue st" and inv: "stage_inv env rotating db c (dc_stage c)"
  shows "stage_inv env rotating db c st"
proof (cases "dc_stage c")
  case Started
  with step obtain r where "read_pending (dc_request_id c) db = Inr r" "st = RowRead r"
    by (auto simp: call_step_def continue_def map_ok_ok Let_def split: sum.split_asm)
  with read_pending_ok [of "dc_request_id c" db r] state_of_as_db [of r Pending] show ?thesis by (simp add: watched_def)
next
  case (RowRead r)
  with step have "finish_context env c r db = Inr (call_context c)" "st = ContextRead"
    by (auto simp: call_step_def continue_def rbind_ok Let_def split: sum.split_asm if_split_asm)
  with RowRead inv show ?thesis by (auto simp: in_context_def elim: watched_mono)
next
  case ContextRead
  show ?thesis
  proof (cases "st = TimeChecked")
    case True
    with step ContextRead have now: "sint (dc_now_utc c) < sint (ac_expires_utc (call_context c))"
      "deadline_elapsed (dc_request_id c) (dc_now_mono_ns c) (call_store c db) = Inr False"
      by (auto simp: call_step_def continue_def map_ok_ok Let_def not_le split: sum.split_asm if_split_asm)
    then have "in_time c r" if "find_request db (public_id_str (dc_request_id c)) = Some r" for r
      using that by (auto simp: deadline_elapsed_def call_store_def ok_iff not_le in_time_def)
    with inv ContextRead True show ?thesis by (auto simp: watched_def)
  next
    case False
    with step ContextRead have st: "st = Expiring" and "sint (ac_expires_utc (call_context c)) \<le> sint (dc_now_utc c)
        \<or> deadline_elapsed (dc_request_id c) (dc_now_mono_ns c) (call_store c db) = Inr True"
      by (auto simp: call_step_def continue_def map_ok_ok Let_def split: sum.split_asm if_split_asm)
    then have "elapsed_for c r" if "find_request db (public_id_str (dc_request_id c)) = Some r" for r
      using that by (auto simp: deadline_elapsed_def call_store_def ok_iff elapsed_for_def)
    with inv ContextRead st show ?thesis by (auto simp: watched_def)
  qed
next
  case TimeChecked
  with step have "st = GoingStale \<or> st = GenerationChecked \<and> db_credential_generation db = ac_generation (call_context c)"
    by (auto simp: call_step_def continue_def map_ok_ok credential_generation_def call_store_def u64_from_i64_ok Let_def
        split: sum.split_asm if_split_asm)
  with inv TimeChecked show ?thesis by (auto simp: generation_passed_def)
next
  case GenerationChecked
  with step obtain pins where "st = CredentialsRead pins" "pinned_credentials (ac_generation (call_context c)) (call_store c db) = Inr pins"
    by (auto simp: call_step_def continue_def map_ok_ok Let_def split: sum.split_asm)
  with pinned_current [of _ "call_store c db"] inv GenerationChecked show ?thesis
    by (simp add: credentials_known_def call_store_def)
qed (use step in \<open>simp_all add: call_step_def close_call_def Let_def\<close>)

definition world_inv :: "env \<Rightarrow> bool \<Rightarrow> world \<Rightarrow> bool" where
  "world_inv env rotating w \<longleftrightarrow> db_inv (e_sha env) {} (w_db w)
     \<and> (\<forall>n c. w_calls w n = Some c \<longrightarrow> stage_inv env rotating (w_db w) c (dc_stage c))"

lemma broker_step_evolves:
  assumes "broker_step env rotating w w'" and "world_inv env rotating w"
  shows "evolves (e_sha env) rotating (w_db w) (w_db w')"
  using assms
proof (induction rule: broker_step.induct)
  case (operate s w op)
  then show ?case using run_store_evolves [of env s rotating op] by (simp add: world_inv_def store_inv_def)
next
  case (finish w n c out db')
  then show ?case using call_step_evolves [of env c "w_db w" out db' rotating] by (simp add: world_inv_def)
qed (auto simp: world_inv_def evolves_refl)

lemma in_context_stage [simp]: "in_context env (c\<lparr>dc_stage := st\<rparr>) db = in_context env c db"
  by (simp add: in_context_def fun_eq_iff)

lemma stage_inv_stage [simp]: "stage_inv env rotating db (c\<lparr>dc_stage := st\<rparr>) st' = stage_inv env rotating db c st'"
  by (cases st') (simp_all add: generation_passed_def credentials_known_def)

lemma world_inv_step:
  assumes step: "broker_step env rotating w w'" and inv: "world_inv env rotating w"
  shows "world_inv env rotating w'"
proof -
  note ev = broker_step_evolves [OF assms]
  have calls: "stage_inv env rotating (w_db w') c (dc_stage c)" if "w_calls w n = Some c" for n c
    using inv that stage_inv_evolves [OF _ ev] by (simp add: world_inv_def)
  have "db_inv (e_sha env) {} (w_db w')" using ev by (simp add: evolves_def sound_step_def)
  moreover have "stage_inv env rotating (w_db w') c (dc_stage c)" if "w_calls w' n = Some c" for n c
    using step that calls
  proof cases
    case (advance m d st)
    have "stage_inv env rotating (w_db w) d (dc_stage d)" using inv advance(2) by (simp add: world_inv_def)
    with stage_inv_advance [OF advance(3)] calls that advance(1) show ?thesis by (auto split: if_split_asm)
  qed (auto split: if_split_asm)
  ultimately show ?thesis by (simp add: world_inv_def)
qed

lemma world_inv_reachable: "reachable env rotating w \<Longrightarrow> world_inv env rotating w"
proof (induction rule: rtranclp_induct)
  case base
  show ?case by (simp add: start_world_def world_inv_def db_inv_empty)
next
  case (step w w')
  then show ?case using world_inv_step by blast
qed

text \<open>The rank of a request never falls along an interleaving.\<close>

definition rank_in :: "bytes \<Rightarrow> world \<Rightarrow> nat" where
  "rank_in i w = (case find_request (w_db w) i of None \<Rightarrow> 0 | Some r \<Rightarrow> rank (state_of r))"

lemma rank_in_step:
  assumes "broker_step env rotating w w'" and "world_inv env rotating w"
  shows "rank_in i w \<le> rank_in i w'"
proof -
  from broker_step_evolves [OF assms] have "step_at i (w_db w) (w_db w')" by (simp add: evolves_def sound_step_def)
  then show ?thesis
    using store_edge_rank state_of_as_db by (fastforce simp: step_at_def same_at_def moved_def created_def rank_in_def)
qed

lemma rank_in_run:
  "(broker_step env rotating)\<^sup>*\<^sup>* w w' \<Longrightarrow> world_inv env rotating w \<Longrightarrow> rank_in i w \<le> rank_in i w' \<and> world_inv env rotating w'"
proof (induction rule: rtranclp_induct)
  case (step w1 w2)
  then show ?case using rank_in_step [of env rotating w1 w2 i] world_inv_step by force
qed simp

text \<open>A call that goes stale compared the generations at an earlier moment of the run, and they differed.\<close>

lemma going_stale_from:
  assumes "call_step env c db = Continue GoingStale"
  shows "dc_stage c = TimeChecked \<and> db_credential_generation db \<noteq> ac_generation (call_context c)"
  using assms by (auto simp: call_step_def Let_def continue_def close_call_def map_ok_ok rbind_ok credential_generation_def
      call_store_def u64_from_i64_ok split: decision_stage.split_asm sum.split_asm if_split_asm)

definition compared_stale :: "env \<Rightarrow> bool \<Rightarrow> world \<Rightarrow> nat \<Rightarrow> decision_call \<Rightarrow> bool" where
  "compared_stale env rotating w n c \<longleftrightarrow> (\<exists>w0 st. reachable env rotating w0 \<and> runs env rotating w0 w
     \<and> w_calls w0 n = Some (c\<lparr>dc_stage := st\<rparr>)
     \<and> db_credential_generation (w_db w0) \<noteq> ac_generation (call_context c))"

lemma compared_stale_step:
  "compared_stale env rotating w n c \<Longrightarrow> broker_step env rotating w w' \<Longrightarrow> compared_stale env rotating w' n c"
  unfolding compared_stale_def by (blast intro: rtranclp.rtrancl_into_rtrancl)

lemma compared_stale_now:
  assumes "reachable env rotating w" and "w_calls w n = Some c" and "db_credential_generation (w_db w) \<noteq> ac_generation (call_context c)"
  shows "compared_stale env rotating w n c"
  unfolding compared_stale_def using assms by (intro exI [of _ w] exI [of _ "dc_stage c"]) simp

lemma going_stale_compared:
  assumes "reachable env rotating w" and "w_calls w n = Some c" and "dc_stage c = GoingStale"
  shows "compared_stale env rotating w n c"
  using assms
proof (induction arbitrary: c rule: rtranclp_induct)
  case base
  then show ?case by (simp add: start_world_def)
next
  case (step w w')
  note keep = compared_stale_step [OF step.IH step.hyps(2)]
  from step.hyps(2) show ?case
  proof cases
    case (advance m d st)
    show ?thesis
    proof (cases "m = n")
      case True
      with advance(1) step.prems have c: "c = d\<lparr>dc_stage := st\<rparr>" "st = GoingStale" by auto
      with going_stale_from [of env d "w_db w"] advance(3)
      have "dc_stage d = TimeChecked" "db_credential_generation (w_db w) \<noteq> ac_generation (call_context c)" by auto
      moreover have "w_calls w n = Some (c\<lparr>dc_stage := dc_stage d\<rparr>)" using True advance(2) c by simp
      ultimately show ?thesis
        using step.hyps unfolding compared_stale_def by (blast intro: r_into_rtranclp)
    qed (use keep step.prems advance(1) in simp)
  qed (use keep step.prems in \<open>auto split: if_split_asm\<close>)
qed

text \<open>The receipt that a call returns is the one the store then holds.\<close>

lemma call_step_created:
  assumes "call_step env c db = Return (Inr (out, db'))" and "do_receipt_cose out = Some b"
  shows "\<exists>ev db1. create_receipt env (dc_rnd c) (dc_request_id c) (do_state out) (dc_signer c) (dc_now_utc c) ev db1 = Inr (b, db')"
proof -
  have closed: "\<exists>ev db1. create_receipt env (dc_rnd c) (dc_request_id c) t (dc_signer c) (dc_now_utc c) ev db1 = Inr (x, bs_db s')"
    if "transition_terminal env (dc_rnd c) (dc_request_id c) Pending t (dc_signer c) (dc_now_utc c) s = Inr (x, s')" for t s x s'
    using that by (auto simp: transition_terminal_def transition_terminal_with_evidence_def rbind_ok split: if_split_asm) blast+
  have "\<exists>ev db1. create_receipt env (dc_rnd c) (dc_request_id c) (do_state out) (dc_signer c) (dc_now_utc c) ev db1 = Inr (b, bs_db s')"
    if "commit_decision env (dc_rnd c) (dc_request_id c) sub ctx v (dc_signer c) (dc_now_utc c) s = Inr (out, s')" for sub ctx v s s'
    using that assms(2) by (auto simp: commit_decision_def rbind_ok Let_def split: if_split_asm) blast+
  with closed assms show ?thesis
    by (auto simp: call_step_def Let_def continue_def close_call_def map_ok_ok rbind_ok map_err_ok
        split: decision_stage.split_asm sum.split_asm)
qed

lemma call_step_receipt:
  assumes step: "call_step env c db = Return (Inr (out, db'))" and inv: "db_inv (e_sha env) {} db"
    and none: "do_receipt_cose out = None \<longleftrightarrow> do_state out = Approved"
    and four: "do_state out \<in> {Expired, Stale, Approved, Denied}"
  shows "receipt (dc_request_id c) (call_store c db') = Inr (do_receipt_cose out)"
proof -
  let ?i = "public_id_str (dc_request_id c)"
  have db': "bs_db (call_store c db') = db'" by (simp add: call_store_def)
  from call_step_evolves [OF step inv, of False] obtain r' where
    r': "find_request db' ?i = Some r'" "rr_state r' = as_db (do_state out)" and inv': "db_inv (e_sha env) {} db'"
    by (auto simp: advanced_def moved_def evolves_def sound_step_def)
  show ?thesis
  proof (cases "do_receipt_cose out")
    case None
    with none r' db_inv_at [OF inv' r'(1)] state_of_as_db [OF r'(2)] have "receipt_rows db' ?i = []"
      by (simp add: request_inv_def receipts_inv_def)
    with None show ?thesis by (simp add: receipt_def receipt_rows_def find_filter db')
  next
    case (Some b)
    with none four have "is_terminal (do_state out)" by auto
    with call_step_created [OF step Some] create_receipt_returned inv' r' db' Some show ?thesis by metis
  qed
qed

text \<open>The three statements at which a call may succeed, and what it knows at each.\<close>

lemma returned_call:
  assumes "reachable env rotating w" and "w_calls w n = Some c"
    and step: "call_step env c (w_db w) = Return (Inr (out, db'))"
  obtains (expired) r where "find_request (w_db w) (public_id_str (dc_request_id c)) = Some r" "rr_state r = as_db Pending"
      "in_context env c (w_db w) r" "elapsed_for c r" "do_state out = Expired" "do_receipt_cose out \<noteq> None"
  | (stale) r where "find_request (w_db w) (public_id_str (dc_request_id c)) = Some r" "rr_state r = as_db Pending"
      "in_context env c (w_db w) r" "in_time c r" "do_state out = Stale" "do_receipt_cose out \<noteq> None" "dc_stage c = GoingStale"
  | (committed) r pins v where "find_request (w_db w) (public_id_str (dc_request_id c)) = Some r" "rr_state r = as_db Pending"
      "in_context env c (w_db w) r" "in_time c r" "credentials_known rotating c pins (w_db w)"
      "verify_submission (e_sha env) (dc_verifier c) (call_context c) pins (dc_submission c) = Inr v"
      "do_state out = (if db_credential_generation (w_db w) \<noteq> ac_generation (call_context c) then Stale else decided v)"
      "do_receipt_cose out = None \<longleftrightarrow> do_state out = Approved"
proof -
  let ?db = "w_db w"
  have inv: "world_inv env rotating w" using assms(1) by (rule world_inv_reachable)
  then have dbi: "db_inv (e_sha env) {} ?db" "db_inv (e_sha env) {} (bs_db (call_store c ?db))"
    by (simp_all add: world_inv_def call_store_def)
  from call_step_evolves [OF step dbi(1), of rotating] obtain r where
    r: "find_request ?db (public_id_str (dc_request_id c)) = Some r" "rr_state r = as_db Pending" by blast
  have known: "stage_inv env rotating ?db c (dc_stage c)" using inv assms(2) unfolding world_inv_def by blast
  have watched: "P r" if "watched ?db c P" for P
    using that r state_of_as_db [OF r(2)] by (auto simp: watched_def)
  from step consider "dc_stage c = Expiring" "do_state out = Expired" "do_receipt_cose out \<noteq> None"
    | "dc_stage c = GoingStale" "do_state out = Stale" "do_receipt_cose out \<noteq> None"
    | pins v s' where "dc_stage c = CredentialsRead pins"
        "verify_submission (e_sha env) (dc_verifier c) (call_context c) pins (dc_submission c) = Inr v"
        "commit_decision env (dc_rnd c) (dc_request_id c) (dc_submission c) (call_context c) v (dc_signer c) (dc_now_utc c) (call_store c ?db)
          = Inr (out, s')"
    by (auto simp: call_step_def Let_def continue_def close_call_def map_ok_ok rbind_ok map_err_ok
        split: decision_stage.split_asm sum.split_asm)
  then show thesis
  proof cases
    case 1
    with known watched have "in_context env c ?db r \<and> elapsed_for c r" by fastforce
    with 1 expired [OF r] show thesis by blast
  next
    case 2
    with known watched have "in_context env c ?db r \<and> in_time c r" by fastforce
    with 2 stale [OF r] show thesis by blast
  next
    case (3 pins v s')
    with known watched have "in_context env c ?db r \<and> in_time c r" "credentials_known rotating c pins ?db" by fastforce+
    with 3(2) commit_decision_ok [OF 3(3) dbi(2)] committed [OF r] show thesis by (auto simp: call_store_def)
  qed
qed

lemma in_context_approval:
  assumes "find_request db (public_id_str (dc_request_id c)) = Some r" and "rr_state r = as_db Pending" and "in_context env c db r"
  shows "approval_context env (dc_request_id c) (ac_decision (call_context c)) (dc_relying_party c) (call_store c db) = Inr (call_context c)"
    and "ac_generation (call_context c) = rr_generation r"
proof -
  from assms have "read_pending (dc_request_id c) db = Inr r"
    by (auto simp: in_context_def finish_context_def read_pending_def rbind_ok ok_or_ok from_as_db [of Pending, simplified] ok_iff)
  with assms(3) show "approval_context env (dc_request_id c) (ac_decision (call_context c)) (dc_relying_party c) (call_store c db)
      = Inr (call_context c)"
    by (simp add: approval_context_split in_context_def)
  from assms(3) show "ac_generation (call_context c) = rr_generation r"
    by (cases "call_context c") (auto simp: in_context_def finish_context_def ok_iff)
qed

text \<open>When a call commits an approval, all it has read before still holds.\<close>

lemma approved_call:
  assumes "reachable env rotating w" and "w_calls w n = Some c"
    and "call_step env c (w_db w) = Return (Inr (out, db'))" and "do_state out = Approved"
  obtains pins r v where "find_request (w_db w) (public_id_str (dc_request_id c)) = Some r" "rr_state r = as_db Pending"
    and "in_context env c (w_db w) r" and "in_time c r" "credentials_known rotating c pins (w_db w)"
    and "verify_submission (e_sha env) (dc_verifier c) (call_context c) pins (dc_submission c) = Inr v"
    and "db_credential_generation (w_db w) = ac_generation (call_context c)" and "ac_decision (call_context c) = Approve"
  using assms(1-3)
proof (cases rule: returned_call)
  case (committed r pins v)
  with assms(4) have "decided v = Approved" "db_credential_generation (w_db w) = ac_generation (call_context c)"
    by (simp_all split: if_split_asm)
  with committed that verify_submission_ok [OF committed(6)] decided_cases [of v] show thesis by auto
qed (use assms(4) in simp_all)

section \<open>Examples\<close>

definition demo_call :: "decision \<Rightarrow> decision_call" where
  [run]: "demo_call d = \<lparr>dc_verifier = demo_verifier, dc_rnd = None, dc_request_id = demo_id, dc_submission = demo_submission d,
     dc_relying_party = demo_party, dc_signer = demo_signer, dc_now_mono_ns = 499, dc_now_utc = 19,
     dc_device_id = replicate 22 65, dc_device_id_bytes = replicate 16 1, dc_stage = Started\<rparr>"

abbreviation demo_world :: "(nat \<Rightarrow> decision_call option) \<Rightarrow> world" where
  "demo_world calls \<equiv> \<lparr>w_db = bs_db demo_pending, w_calls = calls\<rparr>"

lemma demo_operate:
  assumes "disciplined rotating (bs_db s) op"
  shows "broker_step demo_env rotating \<lparr>w_db = bs_db s, w_calls = calls\<rparr>
     \<lparr>w_db = bs_db (run_store demo_env op s), w_calls = calls\<rparr>"
  using broker_step.operate [of s "\<lparr>w_db = bs_db s, w_calls = calls\<rparr>" rotating op demo_env] assms by simp

lemma demo_pinned_reachable: "reachable demo_env rotating \<lparr>w_db = bs_db demo_pinned, w_calls = (\<lambda>_. None)\<rparr>"
proof -
  let ?pins = "[\<lparr>cp_credential_id = [6], cp_public_key_cose = [7], cp_cose_algorithm = - 7\<rparr>]"
  let ?s1 = "run_store demo_env (InitializeIdentity (Some (replicate 16 1)) demo_signer) demo_fresh"
  let ?w = "\<lambda>s. \<lparr>w_db = bs_db s, w_calls = (\<lambda>_. None)\<rparr>"
  have "?w demo_fresh = start_world" by (simp add: start_world_def demo_fresh_def)
  moreover have "broker_step demo_env rotating (?w demo_fresh) (?w ?s1)" by (rule demo_operate) (simp add: disciplined_def)
  ultimately have 1: "reachable demo_env rotating (?w ?s1)" by auto
  have s1: "db_credentials (bs_db ?s1) = []" "db_credential_generation (bs_db ?s1) = 0" by (simp_all add: run)
  have "reachable demo_env rotating (?w (run_store demo_env (ReplaceCredentials 0 ?pins) ?s1))"
    by (rule rtranclp.rtrancl_into_rtrancl [OF 1 demo_operate]) (simp only: disciplined_def store_op.case s1, simp)
  then show ?thesis by (simp add: demo_pinned_def)
qed

lemma demo_submitted:
  "broker_step demo_env rotating \<lparr>w_db = bs_db demo_pinned, w_calls = calls\<rparr> \<lparr>w_db = bs_db demo_planning, w_calls = calls\<rparr>"
  unfolding demo_planning_def by (rule demo_operate) (simp add: disciplined_def)

lemma demo_frozen_step: "broker_step demo_env rotating \<lparr>w_db = bs_db demo_planning, w_calls = calls\<rparr> (demo_world calls)"
  using demo_operate [of rotating demo_planning "PrepareForDecision demo_id demo_plan demo_context demo_signer" calls] demo_prepared
  by (simp add: disciplined_def committed_def)

lemma demo_pending_reachable: "reachable demo_env rotating (demo_world (\<lambda>_. None))"
  using rtranclp.rtrancl_into_rtrancl [OF rtranclp.rtrancl_into_rtrancl [OF demo_pinned_reachable demo_submitted] demo_frozen_step] .

lemma demo_call_store: "call_store (demo_call d) (bs_db demo_pending) = demo_pending"
  unfolding demo_pending_def demo_planning_eq by (simp add: call_store_def demo_call_def)

lemma demo_call_entered:
  "runs demo_env rotating (demo_world (\<lambda>_. None)) (demo_world (\<lambda>n. if n < 2 then Some (demo_call Approve) else None))"
proof -
  have "runs demo_env rotating (demo_world (\<lambda>_. None)) (demo_world ((\<lambda>_. None)(0 \<mapsto> demo_call Approve)))"
    using broker_step.enter [of "demo_world (\<lambda>_. None)" 0 "demo_call Approve" demo_env rotating]
    by (intro r_into_rtranclp) (simp add: demo_call_def)
  from rtranclp.rtrancl_into_rtrancl [OF this broker_step.enter [of _ 1 "demo_call Approve"]]
  have "runs demo_env rotating (demo_world (\<lambda>_. None)) (demo_world ((\<lambda>_. None)(0 \<mapsto> demo_call Approve, 1 \<mapsto> demo_call Approve)))"
    by (simp add: demo_call_def)
  moreover have "((\<lambda>_. None)(0 \<mapsto> demo_call Approve, 1 \<mapsto> demo_call Approve))
      = (\<lambda>n :: nat. if n < 2 then Some (demo_call Approve) else None)" by (auto simp: fun_eq_iff)
  ultimately show ?thesis by simp
qed

text \<open>A call that has come as far as the credentials.\<close>

abbreviation demo_read :: decision_call where
  "demo_read \<equiv> demo_call Approve\<lparr>dc_stage := CredentialsRead [\<lparr>pc_credential_id = [6], pc_generation = 0, pc_quarantined = False,
     pc_cose_algorithm = - 7, pc_previous_sign_count = 0\<rparr>]\<rparr>"

lemma demo_read_runs:
  assumes "calls n = Some (demo_call Approve)"
  shows "runs demo_env rotating (demo_world calls) (demo_world (calls(n \<mapsto> demo_read)))"
proof -
  let ?c = "\<lambda>st. demo_call Approve\<lparr>dc_stage := st\<rparr>"
  let ?w = "\<lambda>st. demo_world (calls(n \<mapsto> ?c st))"
  have go: "runs demo_env rotating (demo_world calls) (?w st')" if "runs demo_env rotating (demo_world calls) (?w st)"
    and "call_step demo_env (?c st) (bs_db demo_pending) = Continue st'" for st st'
    using rtranclp.rtrancl_into_rtrancl [OF that(1) broker_step.advance [of _ n "?c st" _ st']] that(2) by simp
  have "?w Started = demo_world calls" using assms by (auto simp: fun_eq_iff demo_call_def)
  then have "runs demo_env rotating (demo_world calls) (?w Started)" by simp
  then have "runs demo_env rotating (demo_world calls) (?w (RowRead demo_pending_row))"
    by (rule go) (unfold demo_pending_def demo_planning_eq, simp add: run cong: rbind_weak_cong)
  then have "runs demo_env rotating (demo_world calls) (?w ContextRead)"
    by (rule go) (unfold demo_pending_def demo_planning_eq, simp add: run cong: rbind_weak_cong)
  then have "runs demo_env rotating (demo_world calls) (?w TimeChecked)"
    by (rule go) (unfold demo_pending_def demo_planning_eq, simp add: run cong: rbind_weak_cong)
  then have "runs demo_env rotating (demo_world calls) (?w GenerationChecked)"
    by (rule go) (unfold demo_pending_def demo_planning_eq, simp add: run cong: rbind_weak_cong)
  then show ?thesis
    by (rule go) (unfold demo_pending_def demo_planning_eq, simp add: run cong: rbind_weak_cong)
qed

text \<open>Both calls have read the credentials; the first one then commits.\<close>

abbreviation demo_racing :: world where
  "demo_racing \<equiv> demo_world ((\<lambda>n. if n < 2 then Some (demo_call Approve) else None)(0 \<mapsto> demo_read, 1 \<mapsto> demo_read))"

lemma demo_racing_reachable: "reachable demo_env rotating demo_racing"
  by (rule rtranclp_trans [OF rtranclp_trans [OF rtranclp_trans [OF demo_pending_reachable demo_call_entered]
      demo_read_runs [of _ 0]] demo_read_runs [of _ 1]]) simp_all

lemma demo_racing_commit:
  "\<exists>db'. call_step demo_env demo_read (bs_db demo_pending) = Return (Inr (\<lparr>do_state = Approved, do_receipt_cose = None\<rparr>, db'))"
  unfolding demo_pending_def demo_planning_eq by (simp add: run cong: rbind_weak_cong)

section \<open>Properties\<close>

text \<open>C4: an approval is authorized at the moment it is committed, however the calls interleave. When any
  call of \<^verbatim>\<open>apply_webauthn_submission\<close>, in any reachable state of a database that any number of handles work
  on, commits an approval, then at that moment the request is pending, the context the broker would
  reconstruct for it now is the one that was submitted, the call's clock readings are before its expiry
  and deadline, the credential generation is that of the request, and the verifier accepted an
  assertion bound to that context by a credential that was read as active. If every replacement of the
  credentials after the first enrolment raises their generation, that credential is also still in the table and not quarantined.\<close>

theorem interleaved_approval_is_authorized:
  assumes "reachable env rotating w" and "w_calls w n = Some c"
    and "call_step env c (w_db w) = Return (Inr (out, db'))" and "do_state out = Approved"
  shows "\<exists>r d pinned a. find_request (w_db w) (public_id_str (dc_request_id c)) = Some r \<and> rr_state r = as_db Pending
     \<and> approval_context env (dc_request_id c) Approve (dc_relying_party c) (call_store c (w_db w)) = Inr (call_context c)
     \<and> sint (dc_now_utc c) < sint (ac_expires_utc (call_context c)) \<and> rr_deadline_mono_ns r = Some d \<and> dc_now_mono_ns c < d
     \<and> db_credential_generation (w_db w) = rr_generation r
     \<and> pc_credential_id pinned = ds_credential_id (dc_submission c) \<and> active_for pinned (rr_generation r)
     \<and> dc_verifier c (dc_submission c) pinned = Some a \<and> bound_assertion (e_sha env) (call_context c) (dc_submission c) a
     \<and> (rotating \<longrightarrow> (\<exists>k\<in>set (db_credentials (w_db w)). cd_credential_id k = ds_credential_id (dc_submission c)
          \<and> cd_generation k = rr_generation r \<and> cd_quarantined k = 0))"
proof -
  let ?ctx = "call_context c" and ?db = "w_db w"
  obtain pins r v where
    r: "find_request ?db (public_id_str (dc_request_id c)) = Some r" "rr_state r = as_db Pending" "in_context env c ?db r"
    and known: "in_time c r" "credentials_known rotating c pins ?db"
    and v: "verify_submission (e_sha env) (dc_verifier c) ?ctx pins (dc_submission c) = Inr v"
    and gen: "db_credential_generation ?db = ac_generation ?ctx" and approve: "ac_decision ?ctx = Approve"
    using assms by (rule approved_call)
  note ctx = in_context_approval [OF r]
  from verify_submission_ok [OF v] obtain pinned a where
    p: "pinned \<in> set pins" "pc_credential_id pinned = ds_credential_id (dc_submission c)" "active_for pinned (ac_generation ?ctx)"
      "dc_verifier c (dc_submission c) pinned = Some a" "bound_assertion (e_sha env) ?ctx (dc_submission c) a" by blast
  have "\<exists>k\<in>set (db_credentials ?db). cd_credential_id k = ds_credential_id (dc_submission c)
          \<and> cd_generation k = rr_generation r \<and> cd_quarantined k = 0" if rotating
  proof -
    from known(2) that gen have "pins_current (ac_generation ?ctx) pins ?db" by (simp add: credentials_known_def)
    with p(1-3) ctx(2) show ?thesis by (fastforce simp: pins_current_def credential_facts_def active_for_def)
  qed
  with r ctx approve known(1) gen p show ?thesis by (auto simp: in_time_def)
qed

lemma demo_commit_runs:
  "\<exists>st out db'. runs demo_env rotating (demo_world (\<lambda>_. None)) (demo_world ((\<lambda>n. if n < 2 then Some (demo_call Approve) else None)
       (0 \<mapsto> demo_call Approve\<lparr>dc_stage := st\<rparr>)))
     \<and> call_step demo_env (demo_call Approve\<lparr>dc_stage := st\<rparr>) (bs_db demo_pending) = Return (Inr (out, db')) \<and> do_state out = Approved"
proof -
  from demo_approved obtain s' where
    "apply_webauthn_submission demo_env demo_verifier None demo_id (demo_submission Approve) demo_party demo_signer 499 19 demo_pending
     = Inr (\<lparr>do_state = Approved, do_receipt_cose = None\<rparr>, s')" by blast
  then have "apply_call demo_env (demo_call Approve) (bs_db demo_pending) = Inr (\<lparr>do_state = Approved, do_receipt_cose = None\<rparr>, bs_db s')"
    unfolding apply_call_def demo_call_store by (simp add: demo_call_def)
  moreover have "dc_stage (demo_call Approve) = Started" by (simp add: demo_call_def)
  ultimately have "run_call 6 demo_env (demo_call Approve) (\<lambda>_. bs_db demo_pending)
      = Some (Inr (\<lparr>do_state = Approved, do_receipt_cose = None\<rparr>, bs_db s'))"
    using run_call_alone [of "demo_call Approve" demo_env "bs_db demo_pending"] by simp
  from run_call_runs [of 6 demo_env "demo_call Approve" "demo_world _" _ rotating _ 0, simplified, OF this demo_call_entered]
  show ?thesis by fastforce
qed

lemma demo_commit:
  "\<exists>st out db'. reachable demo_env rotating (demo_world ((\<lambda>n. if n < 2 then Some (demo_call Approve) else None)
       (0 \<mapsto> demo_call Approve\<lparr>dc_stage := st\<rparr>)))
     \<and> call_step demo_env (demo_call Approve\<lparr>dc_stage := st\<rparr>) (bs_db demo_pending) = Return (Inr (out, db')) \<and> do_state out = Approved"
  using demo_commit_runs [of rotating] rtranclp_trans [OF demo_pending_reachable] by blast

theorem interleaved_approval_is_authorized_witness:
  "\<exists>c r k. find_request (bs_db demo_pending) (public_id_str (dc_request_id c)) = Some r \<and> rr_state r = as_db Pending
     \<and> approval_context demo_env (dc_request_id c) Approve (dc_relying_party c) (call_store c (bs_db demo_pending)) = Inr (call_context c)
     \<and> k \<in> set (db_credentials (bs_db demo_pending)) \<and> cd_credential_id k = ds_credential_id (dc_submission c)"
proof -
  from demo_commit [of True] obtain st out db' where
    "reachable demo_env True (demo_world ((\<lambda>n. if n < 2 then Some (demo_call Approve) else None)
       (0 \<mapsto> demo_call Approve\<lparr>dc_stage := st\<rparr>)))"
    "call_step demo_env (demo_call Approve\<lparr>dc_stage := st\<rparr>) (bs_db demo_pending) = Return (Inr (out, db'))" "do_state out = Approved"
    by blast
  from interleaved_approval_is_authorized [OF this(1), of 0 "demo_call Approve\<lparr>dc_stage := st\<rparr>" out db'] this(2,3)
  show ?thesis by fastforce
qed

text \<open>C6: among concurrent calls one decision wins. Once any call has decided a request (approved, denied,
  expired or made stale), no other call for that request ever succeeds, also not one that had already
  read the pending request and verified its assertion before.\<close>

theorem one_decision_wins:
  assumes "reachable env rotating w" and "w_calls w n = Some c" and "call_step env c (w_db w) = Return (Inr (out, db'))"
    and "(broker_step env rotating)\<^sup>*\<^sup>* (w\<lparr>w_db := db', w_calls := (w_calls w)(n := None)\<rparr>) w'"
    and "w_calls w' m = Some c'" and "dc_request_id c' = dc_request_id c"
  shows "call_step env c' (w_db w') \<noteq> Return (Inr x)"
proof
  let ?i = "public_id_str (dc_request_id c)" and ?w = "w\<lparr>w_db := db', w_calls := (w_calls w)(n := None)\<rparr>"
  assume again: "call_step env c' (w_db w') = Return (Inr x)"
  have inv: "world_inv env rotating w" using assms(1) by (rule world_inv_reachable)
  then have "db_inv (e_sha env) {} (w_db w)" by (simp add: world_inv_def)
  from call_step_evolves [OF assms(3) this] obtain r where
    r: "find_request (w_db w) ?i = Some r" "rr_state r = as_db Pending" and adv: "advanced ?i (do_state out) (w_db w) db'" by blast
  from adv r(1) obtain r' where r': "find_request db' ?i = Some r'" "rr_state r' = as_db (do_state out)"
    "store_edge (state_of r) (do_state out)" by (auto simp: advanced_def moved_def)
  then have "rank Pending < rank_in ?i ?w"
    using store_edge_rank [OF r'(3)] state_of_as_db [OF r(2)] state_of_as_db [OF r'(2)] by (simp add: rank_in_def)
  moreover have "world_inv env rotating ?w"
    using inv broker_step.finish [OF assms(2,3)] world_inv_step by blast
  ultimately have later: "rank Pending < rank_in ?i w'" "world_inv env rotating w'"
    using rank_in_run [OF assms(4), of ?i] by auto
  then have "db_inv (e_sha env) {} (w_db w')" by (simp add: world_inv_def)
  with call_step_evolves [of env c' "w_db w'" "fst x" "snd x"] again assms(6) obtain s where
    "find_request (w_db w') ?i = Some s" "rr_state s = as_db Pending" by auto
  with later(1) state_of_as_db [of s Pending] show False by (simp add: rank_in_def)
qed

theorem one_decision_wins_witness:
  "\<exists>out db'. call_step demo_env demo_read (bs_db demo_pending) = Return (Inr (out, db')) \<and> do_state out = Approved
     \<and> (\<forall>x. call_step demo_env demo_read db' \<noteq> Return (Inr x))"
proof -
  from demo_racing_commit obtain db' where
    step: "call_step demo_env demo_read (bs_db demo_pending) = Return (Inr (\<lparr>do_state = Approved, do_receipt_cose = None\<rparr>, db'))" by blast
  have "call_step demo_env demo_read (w_db (demo_racing\<lparr>w_db := db', w_calls := (w_calls demo_racing)(0 := None)\<rparr>)) \<noteq> Return (Inr x)" for x
    by (rule one_decision_wins [OF demo_racing_reachable, of 0 demo_read _ db' False _ 1]) (use step in simp_all)
  with step show ?thesis by fastforce
qed

text \<open>C7: which outcome a decision call has, however the calls interleave. When a call succeeds, in any reachable
  state, the request is pending at that moment and the context the broker would reconstruct for it is the
  submitted one. If the call's UTC or monotonic clock reading has reached the expiry or the deadline of the
  request, the outcome is \<open>Expired\<close>. If not, it is \<open>Stale\<close> only when the credential generation differed from that
  of the request at some moment of this very call, and it always is when they differ at the commit; else it
  is the decision in the submitted context, and the verifier accepted an assertion bound to it. The request
  moves along that one edge from \<open>Pending\<close> with one event, no other request changes, and the receipt that is
  returned, in every case but approval, is the one the store then holds.\<close>

theorem interleaved_outcome_rule:
  assumes "reachable env rotating w" and "w_calls w n = Some c" and "call_step env c (w_db w) = Return (Inr (out, db'))"
  shows "\<exists>r. find_request (w_db w) (public_id_str (dc_request_id c)) = Some r \<and> rr_state r = as_db Pending
     \<and> approval_context env (dc_request_id c) (ac_decision (call_context c)) (dc_relying_party c) (call_store c (w_db w)) = Inr (call_context c)
     \<and> (if sint (ac_expires_utc (call_context c)) \<le> sint (dc_now_utc c)
            \<or> (\<exists>d. rr_deadline_mono_ns r = Some d \<and> d \<le> dc_now_mono_ns c)
        then do_state out = Expired
        else if do_state out = Stale
        then \<exists>w0 st. reachable env rotating w0 \<and> runs env rotating w0 w \<and> w_calls w0 n = Some (c\<lparr>dc_stage := st\<rparr>)
          \<and> db_credential_generation (w_db w0) \<noteq> rr_generation r
        else do_state out = (case ac_decision (call_context c) of Approve \<Rightarrow> Approved | Deny \<Rightarrow> Denied)
          \<and> db_credential_generation (w_db w) = rr_generation r
          \<and> (\<exists>pinned a. pc_credential_id pinned = ds_credential_id (dc_submission c) \<and> active_for pinned (rr_generation r)
               \<and> dc_verifier c (dc_submission c) pinned = Some a \<and> bound_assertion (e_sha env) (call_context c) (dc_submission c) a))
     \<and> advanced (public_id_str (dc_request_id c)) (do_state out) (w_db w) db'
     \<and> (do_receipt_cose out = None \<longleftrightarrow> do_state out = Approved)
     \<and> receipt (dc_request_id c) (call_store c db') = Inr (do_receipt_cose out)"
proof -
  let ?i = "public_id_str (dc_request_id c)" and ?ctx = "call_context c"
  have inv: "db_inv (e_sha env) {} (w_db w)" using world_inv_reachable [OF assms(1)] by (simp add: world_inv_def)
  note adv = call_step_evolves [OF assms(3) inv, of rotating] and seal = call_step_receipt [OF assms(3) inv]
  note elapsed = elapsed_for_def [of c, symmetric]
  from assms show ?thesis
  proof (cases rule: returned_call)
    case (expired r)
    with in_context_approval [OF expired(1-3)] adv seal show ?thesis by (auto simp: elapsed)
  next
    case (stale r)
    have "compared_stale env rotating w n c" using assms(1,2) stale(7) by (rule going_stale_compared)
    with stale in_context_approval [OF stale(1-3)] adv seal in_time_not_elapsed [OF stale(4)] show ?thesis
      by (auto simp: elapsed compared_stale_def)
  next
    case (committed r pins v)
    note ctx = in_context_approval [OF committed(1-3)] and late = in_time_not_elapsed [OF committed(4)]
    show ?thesis
    proof (cases "db_credential_generation (w_db w) = rr_generation r")
      case False
      with ctx(2) have "compared_stale env rotating w n c" by (intro compared_stale_now [OF assms(1,2)]) simp
      moreover from False committed ctx have "do_state out = Stale" by simp
      ultimately show ?thesis using committed ctx adv seal late by (auto simp: elapsed compared_stale_def)
    next
      case True
      from verify_submission_ok [OF committed(6)] ctx(2) have
        bound: "\<exists>pinned a. pc_credential_id pinned = ds_credential_id (dc_submission c) \<and> active_for pinned (rr_generation r)
               \<and> dc_verifier c (dc_submission c) pinned = Some a \<and> bound_assertion (e_sha env) ?ctx (dc_submission c) a"
        and dec: "va_decision v = ac_decision ?ctx" by auto
      with True committed(7) ctx(2) have
        state: "do_state out = (case ac_decision ?ctx of Approve \<Rightarrow> Approved | Deny \<Rightarrow> Denied)" by (simp add: decided_def)
      then have "do_state out \<noteq> Stale" "do_state out \<in> {Expired, Stale, Approved, Denied}" by (simp_all split: decision.split)
      with committed(1,2,8) True ctx(1) adv seal late bound state show ?thesis
        by (intro exI [of _ r]) (simp add: elapsed)
    qed
  qed
qed

theorem interleaved_outcome_rule_witness:
  "\<exists>out db'. call_step demo_env demo_read (bs_db demo_pending) = Return (Inr (out, db')) \<and> do_state out = Approved
     \<and> advanced (public_id_str demo_id) Approved (bs_db demo_pending) db'
     \<and> receipt demo_id (call_store demo_read db') = Inr None"
proof -
  from demo_racing_commit obtain db' where
    step: "call_step demo_env demo_read (bs_db demo_pending) = Return (Inr (\<lparr>do_state = Approved, do_receipt_cose = None\<rparr>, db'))" by blast
  have "dc_request_id demo_read = demo_id" by (simp add: demo_call_def)
  with step interleaved_outcome_rule [OF demo_racing_reachable, of 0 demo_read "\<lparr>do_state = Approved, do_receipt_cose = None\<rparr>" db' False]
  show ?thesis by auto
qed

text \<open>C40: replacing the credentials without raising the generation lets a removed credential approve.
  \<^verbatim>\<open>replace_credentials\<close> accepts the current generation again, and the final transaction compares only the
  generation. If the credentials are replaced that way between the read of the credentials and the
  final transaction, the approval is committed although the database no longer holds the credential
  that signed it.\<close>

theorem same_generation_replacement_race:
  "\<exists>w c out db'. reachable demo_env False w \<and> w_calls w 0 = Some c
     \<and> call_step demo_env c (w_db w) = Return (Inr (out, db')) \<and> do_state out = Approved
     \<and> ds_credential_id (dc_submission c) \<notin> set (map cd_credential_id (db_credentials (w_db w)))"
proof -
  let ?op = "ReplaceCredentials 0 [\<lparr>cp_credential_id = [5], cp_public_key_cose = [7], cp_cose_algorithm = - 7\<rparr>]"
  let ?db = "bs_db (run_store demo_env ?op demo_pending)"
  have "reachable demo_env False (demo_racing\<lparr>w_db := ?db\<rparr>)"
    by (rule operate_runs [OF demo_racing_reachable]) (simp_all add: disciplined_def)
  moreover have "\<exists>db'. call_step demo_env demo_read ?db = Return (Inr (\<lparr>do_state = Approved, do_receipt_cose = None\<rparr>, db'))"
    unfolding demo_pending_def demo_planning_eq by (simp add: run cong: rbind_weak_cong)
  moreover have "ds_credential_id (dc_submission demo_read) \<notin> set (map cd_credential_id (db_credentials ?db))"
    unfolding demo_pending_def demo_planning_eq by (simp add: run cong: rbind_weak_cong)
  ultimately show ?thesis
    by (intro exI [of _ "demo_racing\<lparr>w_db := ?db\<rparr>"] exI [of _ demo_read]
        exI [of _ "\<lparr>do_state = Approved, do_receipt_cose = None\<rparr>"]) auto
qed

end
