(* ===== verification/Store_Frozen.thy ===== *)
theory Store_Frozen
  imports Store_Concurrency
begin

text \<open>
  What a decision is about. \<^verbatim>\<open>prepare_for_decision\<close> freezes a request: it signs it and stores its digest, its
  nonce, its expiry and its plan in the row. This theory shows that no other operation of
  \<^verbatim>\<open>crates/rp-broker-core/src/lib.rs\<close> writes these columns or those of the submission, so that in every
  interleaving a stored digest is that of a signed request that agrees with its row, and an approval of the
  digest is an approval of what was submitted.
\<close>

section \<open>Frozen columns\<close>

text \<open>The columns that say what is decided on: those of the submission and those that
  \<^verbatim>\<open>prepare_for_decision\<close> fills in.\<close>

definition same_frozen :: "request_row \<Rightarrow> request_row \<Rightarrow> bool" where
  "same_frozen r r' \<longleftrightarrow> same_intake r r' \<and> rr_request_digest r' = rr_request_digest r
     \<and> rr_request_cose r' = rr_request_cose r \<and> rr_plan_digest r' = rr_plan_digest r
     \<and> rr_request_nonce r' = rr_request_nonce r \<and> rr_request_expires_utc r' = rr_request_expires_utc r
     \<and> rr_request_frozen_plan r' = rr_request_frozen_plan r"

lemma same_frozen_refl [simp]: "same_frozen r r"
  by (simp add: same_frozen_def)

lemma same_frozen_trans: "same_frozen a b \<Longrightarrow> same_frozen b c \<Longrightarrow> same_frozen a c"
  by (simp add: same_frozen_def same_intake_def)

lemma same_frozen_update [simp]:
  "same_frozen r (r\<lparr>rr_state := t\<rparr>)" "same_frozen r (r\<lparr>rr_receipt_bytes := b\<rparr>)"
  "same_frozen r (r\<lparr>rr_recovery_evidence := e\<rparr>)"
  by (simp_all add: same_frozen_def same_intake_def)

text \<open>Every row of the second table is one of the first with its frozen columns, or is not prepared yet.\<close>

definition keeps :: "database \<Rightarrow> database \<Rightarrow> bool" where
  "keeps db db' \<longleftrightarrow> (\<forall>r'\<in>set (db_requests db'). rr_request_digest r' = None
     \<or> (\<exists>r\<in>set (db_requests db). same_frozen r r'))"

lemma keeps_requests: "db_requests db' = db_requests db \<Longrightarrow> keeps db db'"
  unfolding keeps_def using same_frozen_refl by metis

lemma keeps_snoc: "db_requests db' = db_requests db @ [r] \<Longrightarrow> rr_request_digest r = None \<Longrightarrow> keeps db db'"
  unfolding keeps_def using same_frozen_refl by (metis Un_iff empty_iff insert_iff list.set(1,2) set_append)

lemma keeps_refl [simp]: "keeps db db"
  by (simp add: keeps_requests)

lemma keeps_trans [trans]: "keeps a b \<Longrightarrow> keeps b c \<Longrightarrow> keeps a c"
proof -
  assume *: "keeps a b" "keeps b c"
  have "rr_request_digest r'' = None \<or> (\<exists>r\<in>set (db_requests a). same_frozen r r'')" if "r'' \<in> set (db_requests c)" for r''
  proof (cases "rr_request_digest r''")
    case (Some d)
    with * that obtain r' where r': "r' \<in> set (db_requests b)" "same_frozen r' r''" by (auto simp: keeps_def)
    with Some * obtain r where "r \<in> set (db_requests a)" "same_frozen r r'" by (force simp: keeps_def same_frozen_def)
    with r' show ?thesis using same_frozen_trans by blast
  qed simp
  then show ?thesis by (simp add: keeps_def)
qed

lemma keeps_tables [simp]:
  "keeps db (db'\<lparr>db_boot_epoch := n\<rparr>) = keeps db db'" "keeps db (raise_sign_count k c db') = keeps db db'"
  by (simp_all add: keeps_def raise_sign_count_def)

lemma write_requests_keeps:
  assumes "write_requests (update_request i f db) db0 = Inr db'" and "\<And>r. same_frozen r (f r)"
  shows "keeps db db'"
  using assms same_frozen_refl by (fastforce simp: ok_iff keeps_def update_request_def)

lemma append_store_event_requests:
  "append_store_event env f rid t c db = Inr db' \<Longrightarrow> db_requests db' = db_requests db"
  by (auto simp: append_store_event_def rbind_ok insert_event_def split: if_splits)

lemma transitioned_keeps: "keeps db (transitioned i t e db)"
  unfolding keeps_def using same_frozen_refl same_frozen_update(1)
  by (fastforce simp: update_request_def)

lemma append_transition_keeps:
  "append_transition env rid expected t c db = Inr db' \<Longrightarrow> keeps db db'"
  by (auto simp: append_transition_def rbind_ok split: option.splits if_splits
      dest!: append_store_event_requests [THEN keeps_requests] elim!: keeps_trans [rotated] intro: write_requests_keeps)

lemma transition_nonterminal_keeps:
  "transition_nonterminal env rid expected t s = Inr (x, s') \<Longrightarrow> keeps (bs_db s) (bs_db s')"
  by (auto simp: transition_nonterminal_def Let_def rbind_ok split: option.splits if_splits
      dest!: append_store_event_requests [THEN keeps_requests] elim!: keeps_trans [rotated])
    (erule write_requests_keeps, simp)

lemma create_receipt_keeps:
  assumes "create_receipt env rnd rid t signer now ev db = Inr (b, db')"
  shows "keeps db db'"
proof -
  from assms obtain c db1 f where "insert_receipt c db = Inr db1" "f = (\<lambda>r. r\<lparr>rr_receipt_bytes := Some b\<rparr>)"
    "write_requests (update_request (public_id_str rid) f db1) db1 = Inr db'"
    by (auto simp: create_receipt_def rbind_ok map_ok_ok split: if_split_asm)
  moreover from this(1) have "keeps db db1" by (auto simp: ok_iff intro: keeps_requests)
  ultimately show ?thesis using write_requests_keeps keeps_trans by fastforce
qed

lemma expire_all_keeps:
  "expire_all env signer now ids rnds n db = Inr (m, db') \<Longrightarrow> keeps db db'"
  by (induction ids arbitrary: rnds n db)
    (fastforce simp: rbind_ok dest: append_transition_keeps create_receipt_keeps intro: keeps_trans)+

lemma transition_terminal_keeps:
  "transition_terminal env rnd rid expected t signer now s = Inr (b, s') \<Longrightarrow> keeps (bs_db s) (bs_db s')"
  by (auto simp: transition_terminal_def transition_terminal_with_evidence_def rbind_ok case_prod_ok split: if_splits
      dest!: append_transition_keeps create_receipt_keeps intro: keeps_trans)

lemma commit_decision_keeps:
  "commit_decision env rnd rid submission ctx v signer now s = Inr (out, s') \<Longrightarrow> keeps (bs_db s) (bs_db s')"
  by (auto simp: commit_decision_def Let_def rbind_ok case_prod_ok split: if_split_asm
      dest!: append_transition_keeps create_receipt_keeps)
    (meson keeps_tables(2) keeps_trans)+

lemma reconcile_recovery_keeps:
  assumes "reconcile_recovery env rnd rid succeeded evidence signer now s = Inr (b, s')"
  shows "keeps (bs_db s) (bs_db s')"
proof -
  from assms obtain t reason db1 db2 f db3 where "append_transition env rid (Some RecoveryRequired) t reason (bs_db s) = Inr db1"
    "f = (\<lambda>r. r\<lparr>rr_recovery_evidence := Some evidence\<rparr>)"
    "write_requests (update_request (public_id_str rid) f db1) db1 = Inr db2"
    "create_receipt env rnd rid t signer now [] db2 = Inr (b, db3)" "s' = s\<lparr>bs_db := db3\<rparr>"
    by (fastforce simp: reconcile_recovery_def Let_def rbind_ok case_prod_ok split: if_split_asm)
  moreover from this have "keeps db1 db2" using write_requests_keeps by fastforce
  moreover have "bs_db (s\<lparr>bs_db := db3\<rparr>) = db3" by simp
  ultimately show ?thesis using append_transition_keeps create_receipt_keeps keeps_trans by metis
qed

text \<open>Every operation but the one that freezes a request.\<close>

lemma run_store_keeps:
  assumes "\<And>rid plan ctx signer. op \<noteq> PrepareForDecision rid plan ctx signer" and inv: "store_inv env s"
  shows "keeps (bs_db s) (bs_db (run_store env op s))"
proof -
  have c: "keeps (bs_db s) (bs_db (committed s res))"
    if "\<And>x s'. res = Inr (x, s') \<Longrightarrow> keeps (bs_db s) (bs_db s')" for res :: "'x store_result"
    using that by (auto simp: committed_def split: sum.split)
  show ?thesis
  proof (cases op)
    case (StartBoot rnds epoch signer now)
    then show ?thesis
      by (auto intro!: c simp: start_boot_def Let_def rbind_ok case_prod_ok split: if_splits dest!: expire_all_keeps)
  next
    case (InitializeIdentity rnd signer)
    then show ?thesis
      by (auto intro!: c simp: keeps_requests initialize_identity_def ok_iff Let_def split: option.splits if_splits)
  next
    case (Submit policy request)
    have "keeps (bs_db s) (bs_db s')" if "submit env policy request s = Inr (out, s')" for out s'
      using submit_cases [OF that inv [unfolded store_inv_def]] by (auto intro: keeps_snoc simp: new_request_row_def)
    with Submit show ?thesis by (auto intro!: c)
  next
    case (TransitionNonterminal rid expected t)
    then show ?thesis
      by (auto intro!: c dest: transition_nonterminal_keeps)
  next
    case (ReplaceCredentials g cs)
    then show ?thesis
      by (auto intro!: c simp: keeps_requests replace_credentials_def ok_iff split: if_splits dest!: insert_credentials_frame)
  next
    case (ApplySubmission verifier rnd rid submission rp signer now_mono now)
    then show ?thesis
      by (auto intro!: c simp: apply_webauthn_submission_def rbind_ok case_prod_ok split: if_split_asm
          dest: commit_decision_keeps transition_terminal_keeps)
  next
    case (TransitionTerminal rnd rid expected t signer now)
    then show ?thesis by (auto intro!: c dest: transition_terminal_keeps)
  next
    case (ReconcileRecovery rnd rid succeeded evidence signer now)
    then show ?thesis by (auto intro!: c dest: reconcile_recovery_keeps)
  qed (use assms in auto)
qed

lemma call_step_keeps:
  assumes "call_step env c db = Return (Inr (out, db'))"
  shows "keeps db db'"
proof -
  have db: "bs_db (call_store c db) = db" by (simp add: call_store_def)
  note ks = transition_terminal_keeps [where s = "call_store c db", unfolded db]
    commit_decision_keeps [where s = "call_store c db", unfolded db]
  from assms ks show ?thesis
    by (fastforce simp: call_step_def Let_def continue_def close_call_def map_ok_ok rbind_ok map_err_ok
        split: decision_stage.split_asm sum.split_asm)
qed

section \<open>The request behind a digest\<close>

text \<open>The request \<open>q\<close> that the broker signed for the row, under the key its identity is pinned to, and the plan
  it carries.\<close>

definition frozen_as :: "env \<Rightarrow> identity_row option \<Rightarrow> request_row \<Rightarrow> request \<Rightarrow> frozen_plan \<Rightarrow> bool" where
  "frozen_as env identity r q plan \<longleftrightarrow>
     map_ok Some (Request_digest (e_sha env) q) = Inr (rr_request_digest r)
   \<and> PublicId_bytes env (PublicId (rr_request_id r)) = Inr (rq_request_id q)
   \<and> oi_package_name (rq_operation_input q) = rr_package_name r
   \<and> rq_requester_uid q = rr_requester_uid r \<and> rq_generation q = rr_generation r
   \<and> rr_request_nonce r = Some (rq_nonce q) \<and> rr_request_expires_utc r = Some (rq_expires_utc q)
   \<and> rr_plan_digest r = Some (rq_plan_digest q)
   \<and> package_name_str (fp_package_name plan) = rr_package_name r
   \<and> rq_plan_digest q = fp_plan_digest plan \<and> rq_frozen_plan q = FrozenPlan_to_cbor plan
   \<and> map_ok Some (encode (FrozenPlan_to_cbor plan)) = Inr (rr_request_frozen_plan r)
   \<and> (\<exists>signer payload cose i. Request_canonical_bytes q = Inr payload
        \<and> sign_envelope env signer payload 1 DomainRequest = Inr cose \<and> rr_request_cose r = Some cose
        \<and> identity = Some i \<and> bi_key_kid i = sg_kid signer \<and> bi_public_key i = sg_public_key signer)"

definition frozen_rows :: "env \<Rightarrow> database \<Rightarrow> bool" where
  "frozen_rows env db \<longleftrightarrow> (\<forall>r\<in>set (db_requests db). rr_request_digest r \<noteq> None \<longrightarrow>
     (\<exists>q plan. frozen_as env (db_identity db) r q plan))"

lemma frozen_as_same:
  assumes "frozen_as env x r q plan" and "same_frozen r r'" and "same_identity x y"
  shows "frozen_as env y r' q plan"
  using assms by (fastforce simp: frozen_as_def same_frozen_def same_intake_def same_identity_def)

lemma frozen_rows_keeps:
  assumes "frozen_rows env db" and "keeps db db'" and "same_identity (db_identity db) (db_identity db')"
  shows "frozen_rows env db'"
  unfolding frozen_rows_def
proof (intro ballI impI)
  fix r' assume r': "r' \<in> set (db_requests db')" "rr_request_digest r' \<noteq> None"
  with assms(2) obtain r where r: "r \<in> set (db_requests db)" "same_frozen r r'" by (auto simp: keeps_def)
  with r' have "rr_request_digest r \<noteq> None" by (simp add: same_frozen_def)
  with r(1) assms(1) obtain q plan where "frozen_as env (db_identity db) r q plan" unfolding frozen_rows_def by blast
  from frozen_as_same [OF this r(2) assms(3)] show "\<exists>q plan. frozen_as env (db_identity db') r' q plan" by blast
qed

lemma freeze_row_frozen:
  assumes q: "pending_request env s rid r0 plan ctx = Inr q" "Request_digest (e_sha env) q = Inr digest"
      "Request_canonical_bytes q = Inr payload" "sign_envelope env signer payload 1 DomainRequest = Inr b"
      "encode (rq_frozen_plan q) = Inr plan_bytes"
    and pkg: "rr_package_name r0 = package_name_str (fp_package_name plan)"
    and id: "x = Some i" "bi_key_kid i = sg_kid signer" "bi_public_key i = sg_public_key signer"
    and r: "same_intake r0 r" "rr_request_id r = public_id_str rid"
  shows "frozen_as env x (freeze_row plan ctx digest b plan_bytes r) q plan"
proof -
  let ?r = "freeze_row plan ctx digest b plan_bytes r"
  have rid: "PublicId (rr_request_id ?r) = rid" using r(2) by (cases rid) (simp add: freeze_row_def)
  have "PublicId_bytes env rid = Inr (rq_request_id q)" "oi_package_name (rq_operation_input q) = rr_package_name r0"
    "rq_requester_uid q = rr_requester_uid r0" "rq_generation q = rr_generation r0" "rq_nonce q = px_nonce ctx"
    "rq_expires_utc q = px_expires_utc ctx" "rq_plan_digest q = fp_plan_digest plan" "rq_frozen_plan q = FrozenPlan_to_cbor plan"
    using q(1) by (auto simp: pending_request_def ok_iff OperationInput_package_install_def split: if_splits)
  moreover have "rr_request_cose ?r = Some b" by (simp add: freeze_row_def)
  ultimately show ?thesis
    unfolding frozen_as_def rid using r(1) q(2-5) pkg id by (auto simp: freeze_row_def same_intake_def map_ok_def)
qed

lemma prepare_for_decision_frozen:
  assumes prep: "prepare_for_decision env rid plan ctx signer s = Inr (b, s')" and rows: "frozen_rows env (bs_db s)"
    and inv: "db_inv (e_sha env) {} (bs_db s)"
  shows "frozen_rows env (bs_db s')"
proof -
  let ?i = "public_id_str rid"
  obtain r0 q digest payload plan_bytes db1 e i where
    r0: "find_request (bs_db s) ?i = Some r0" and pkg: "rr_package_name r0 = package_name_str (fp_package_name plan)" and
    q: "pending_request env s rid r0 plan ctx = Inr q" "Request_digest (e_sha env) q = Inr digest"
      "Request_canonical_bytes q = Inr payload" "sign_envelope env signer payload 1 DomainRequest = Inr b"
      "encode (rq_frozen_plan q) = Inr plan_bytes" and
    db1: "db1 = transitioned ?i Pending e (bs_db s)" "db_inv (e_sha env) {?i} db1" and
    s': "s' = s\<lparr>bs_db := db1\<lparr>db_requests := update_request ?i (freeze_row plan ctx digest b plan_bytes) db1\<rparr>\<rparr>" and
    id: "db_identity (bs_db s) = Some i" "bi_key_kid i = sg_kid signer" "bi_public_key i = sg_public_key signer"
    by (rule prepare_for_decision_writes [OF prep inv refl])
  have keep: "keeps (bs_db s) db1" "db_identity db1 = db_identity (bs_db s)"
    using transitioned_keeps by (simp_all only: db1(1)) simp
  have rows1: "frozen_rows env db1"
    using frozen_rows_keeps [OF rows keep(1)] keep(2) by simp
  have new: "frozen_as env (db_identity (bs_db s)) (freeze_row plan ctx digest b plan_bytes r) q plan"
    if "r \<in> set (db_requests db1)" "rr_request_id r = ?i" for r
  proof -
    have "find_request db1 ?i = Some (r0\<lparr>rr_state := as_db Pending\<rparr>)" unfolding db1(1) transitioned_find using r0 by simp
    moreover have "find_request db1 ?i = Some r"
      using that db_inv_ok [OF db1(2)] by (simp add: requests_ok_def find_request_iff)
    ultimately have "same_intake r0 r" by (auto simp: same_intake_def)
    with that(2) show ?thesis using freeze_row_frozen [OF q pkg id] by simp
  qed
  show ?thesis
    unfolding frozen_rows_def
  proof (intro ballI impI)
    fix r' assume "r' \<in> set (db_requests (bs_db s'))" "rr_request_digest r' \<noteq> None"
    with rows1 keep(2) new show "\<exists>q plan. frozen_as env (db_identity (bs_db s')) r' q plan"
      by (auto simp: s' update_request_def frozen_rows_def split: if_split_asm)
  qed
qed

section \<open>Interleavings\<close>

lemma run_store_frozen:
  assumes inv: "store_inv env s" and rows: "frozen_rows env (bs_db s)"
  shows "frozen_rows env (bs_db (run_store env op s))"
proof (cases "\<exists>rid plan ctx signer. op = PrepareForDecision rid plan ctx signer")
  case True
  with rows inv show ?thesis
    by (auto simp: committed_def store_inv_def split: sum.split intro: prepare_for_decision_frozen)
next
  case False
  then have "keeps (bs_db s) (bs_db (run_store env op s))" using run_store_keeps [OF _ inv] by blast
  with rows show ?thesis using frozen_rows_keeps run_store_identity by blast
qed

lemma frozen_rows_step:
  assumes "broker_step env rotating w w'" and "world_inv env rotating w" and "frozen_rows env (w_db w)"
  shows "frozen_rows env (w_db w')"
  using assms
proof (induction rule: broker_step.induct)
  case (operate s w op)
  then show ?case using run_store_frozen [of env s op] by (simp add: world_inv_def store_inv_def)
next
  case (finish w n c out db')
  then have "same_identity (db_identity (w_db w)) (db_identity db')"
    using call_step_evolves [of env c "w_db w" out db' rotating] by (simp add: world_inv_def evolves_def)
  with finish call_step_keeps [OF finish(2)] show ?case using frozen_rows_keeps by simp
qed simp_all

lemma frozen_rows_reachable: "reachable env rotating w \<Longrightarrow> frozen_rows env (w_db w)"
proof (induction rule: rtranclp_induct)
  case base
  show ?case by (simp add: start_world_def frozen_rows_def empty_database_def)
next
  case (step w w')
  then show ?case using frozen_rows_step world_inv_reachable by blast
qed

text \<open>What a request was submitted with stays in its row.\<close>

lemma intake_world:
  assumes "(broker_step env rotating)\<^sup>*\<^sup>* w w'" and "world_inv env rotating w" and "find_request (w_db w) i = Some r"
  shows "\<exists>r'. find_request (w_db w') i = Some r' \<and> same_intake r r'"
  using assms(1)
proof (induction rule: rtranclp_induct)
  case base
  show ?case using assms(3) by simp
next
  case (step x y)
  have "world_inv env rotating x" using rank_in_run [OF step(1) assms(2)] by blast
  from broker_step_evolves [OF step(2) this] have "step_at i (w_db x) (w_db y)" by (simp add: evolves_def sound_step_def)
  with step.IH show ?case
    using same_intake_trans by (fastforce simp: step_at_def same_at_def moved_def created_def)
qed

section \<open>Properties\<close>

lemma submitted_reachable:
  assumes "reachable env rotating w" and "bs_db s = w_db w" and "submit env policy request s = Inr (Created summary, s1)"
  shows "reachable env rotating (w\<lparr>w_db := bs_db s1\<rparr>)"
    and "find_request (bs_db s1) (public_id_str (sp_request_id request))
      = Some (new_request_row (e_sha env) (bs_device_id s) request (sp_generation request))"
proof -
  have "run_store env (Submit policy request) s = s1" by (simp add: committed_def assms(3))
  moreover have "disciplined rotating (w_db w) (Submit policy request)" by (simp add: disciplined_def)
  ultimately show "reachable env rotating (w\<lparr>w_db := bs_db s1\<rparr>)" using operate_runs [OF assms(1,2)] by metis
  have "db_inv (e_sha env) {} (bs_db s)" using world_inv_reachable [OF assms(1)] assms(2) by (simp add: world_inv_def)
  from submit_cases [OF assms(3) this] show "find_request (bs_db s1) (public_id_str (sp_request_id request))
      = Some (new_request_row (e_sha env) (bs_device_id s) request (sp_generation request))" by auto
qed

text \<open>What a row in the state of a commit was frozen as.\<close>

lemma approved_frozen:
  assumes "reachable env rotating w" and "find_request (w_db w) i = Some r" and "finish_context env c r (w_db w) = Inr ctx"
  shows "\<exists>q plan. frozen_as env (db_identity (w_db w)) r q plan \<and> Request_digest (e_sha env) q = Inr (ac_request_digest ctx)
     \<and> rq_nonce q = ac_nonce ctx \<and> rq_expires_utc q = ac_expires_utc ctx"
proof -
  from assms(3) have d: "rr_request_digest r = Some (ac_request_digest ctx)" "rr_request_nonce r = Some (ac_nonce ctx)"
    "rr_request_expires_utc r = Some (ac_expires_utc ctx)" by (auto simp: finish_context_def ok_iff)
  with frozen_rows_reachable [OF assms(1)] find_request_SomeD [OF assms(2)] obtain q plan where
    "frozen_as env (db_identity (w_db w)) r q plan" by (auto simp: frozen_rows_def)
  moreover from this d have "Request_digest (e_sha env) q = Inr (ac_request_digest ctx)" "rq_nonce q = ac_nonce ctx"
    "rq_expires_utc q = ac_expires_utc ctx" by (auto simp: frozen_as_def map_ok_ok)
  ultimately show ?thesis by blast
qed

text \<open>C5: what is approved is what was submitted. Take any submission that creates a request, in any reachable
  state, then any interleaving of decision calls and operations, in which a call commits an approval of that
  request. Then the verifier accepted an assertion bound to an approval context whose digest is that of a
  request with the identifier, the package, the requester and the generation of the submission, carrying
  a plan for that package; the broker stored that request signed under the key its identity is pinned to; and any
  other request with this digest is the same one, unless SHA-256 collides on the two.\<close>

theorem approval_covers_submission:
  assumes "reachable env rotating w" and "bs_db s = w_db w" and "submit env policy request s = Inr (Created summary, s1)"
    and "runs env rotating (w\<lparr>w_db := bs_db s1\<rparr>) w'"
    and "w_calls w' n = Some c" and "dc_request_id c = sp_request_id request"
    and "call_step env c (w_db w') = Return (Inr (out, db'))" and "do_state out = Approved"
  shows "\<exists>q plan pinned a. dc_verifier c (dc_submission c) pinned = Some a
     \<and> bound_assertion (e_sha env) (call_context c) (dc_submission c) a
     \<and> Request_digest (e_sha env) q = Inr (ac_request_digest (call_context c))
     \<and> PublicId_bytes env (sp_request_id request) = Inr (rq_request_id q)
     \<and> oi_package_name (rq_operation_input q) = package_name_str (sp_package_name request)
     \<and> rq_requester_uid q = uid_i64 (sp_requester_uid request) \<and> rq_generation q = sp_generation request
     \<and> rq_nonce q = ac_nonce (call_context c) \<and> rq_expires_utc q = ac_expires_utc (call_context c)
     \<and> rq_plan_digest q = fp_plan_digest plan \<and> rq_frozen_plan q = FrozenPlan_to_cbor plan
     \<and> fp_package_name plan = sp_package_name request
     \<and> (\<exists>r cose signer payload i. find_request (w_db w') (public_id_str (sp_request_id request)) = Some r
          \<and> rr_request_cose r = Some cose \<and> Request_canonical_bytes q = Inr payload
          \<and> sign_envelope env signer payload 1 DomainRequest = Inr cose
          \<and> db_identity (w_db w') = Some i \<and> bi_key_kid i = sg_kid signer \<and> bi_public_key i = sg_public_key signer)
     \<and> (\<forall>q'. Request_digest (e_sha env) q' = Inr (ac_request_digest (call_context c))
          \<and> no_collision (e_sha env) (preimage DomainRequest (Request_to_cbor q)) (preimage DomainRequest (Request_to_cbor q'))
          \<longrightarrow> Request_norm q' = Request_norm q)"
proof -
  let ?i = "public_id_str (sp_request_id request)" and ?w1 = "w\<lparr>w_db := bs_db s1\<rparr>"
  note sub = submitted_reachable [OF assms(1-3)]
  have reach: "reachable env rotating w'" using sub(1) assms(4) by (rule rtranclp_trans)
  obtain pins r v where r: "find_request (w_db w') ?i = Some r"
    and fc: "finish_context env c r (w_db w') = Inr (call_context c)"
    and v: "verify_submission (e_sha env) (dc_verifier c) (call_context c) pins (dc_submission c) = Inr v"
    using approved_call [OF reach assms(5,7,8)] assms(6) unfolding in_context_def by metis
  from verify_submission_ok [OF v] obtain pinned a where
    a: "dc_verifier c (dc_submission c) pinned = Some a" "bound_assertion (e_sha env) (call_context c) (dc_submission c) a" by blast
  obtain q plan where q: "frozen_as env (db_identity (w_db w')) r q plan"
    "Request_digest (e_sha env) q = Inr (ac_request_digest (call_context c))"
    "rq_nonce q = ac_nonce (call_context c)" "rq_expires_utc q = ac_expires_utc (call_context c)"
    using approved_frozen [OF reach r fc] by blast
  from intake_world [OF assms(4) world_inv_reachable [OF sub(1)], of ?i] sub(2) r have
    "same_intake (new_request_row (e_sha env) (bs_device_id s) request (sp_generation request)) r" by simp
  then have row: "rr_request_id r = ?i" "rr_package_name r = package_name_str (sp_package_name request)"
    "rr_requester_uid r = uid_i64 (sp_requester_uid request)" "rr_generation r = sp_generation request"
    by (simp_all add: same_intake_def new_request_row_def)
  have "PublicId ?i = sp_request_id request" by simp
  with q(1) row have facts: "PublicId_bytes env (sp_request_id request) = Inr (rq_request_id q)"
    "oi_package_name (rq_operation_input q) = package_name_str (sp_package_name request)"
    "rq_requester_uid q = uid_i64 (sp_requester_uid request)" "rq_generation q = sp_generation request"
    "rq_plan_digest q = fp_plan_digest plan" "rq_frozen_plan q = FrozenPlan_to_cbor plan"
    "fp_package_name plan = sp_package_name request"
    by (simp_all add: frozen_as_def package_name.expand)
  from q(1) r have signed: "\<exists>r cose signer payload i. find_request (w_db w') ?i = Some r \<and> rr_request_cose r = Some cose
     \<and> Request_canonical_bytes q = Inr payload \<and> sign_envelope env signer payload 1 DomainRequest = Inr cose
     \<and> db_identity (w_db w') = Some i \<and> bi_key_kid i = sg_kid signer \<and> bi_public_key i = sg_public_key signer"
    by (auto simp: frozen_as_def)
  have "Request_norm q' = Request_norm q" if "Request_digest (e_sha env) q' = Inr (ac_request_digest (call_context c))
      \<and> no_collision (e_sha env) (preimage DomainRequest (Request_to_cbor q)) (preimage DomainRequest (Request_to_cbor q'))" for q'
    using request_digest_binding [OF q(2), of q'] that by simp
  with a q(2-4) facts signed show ?thesis by (intro exI [of _ q] exI [of _ plan] exI [of _ pinned] exI [of _ a] conjI) blast+
qed

theorem approval_covers_submission_witness:
  "\<exists>c q plan. Request_digest (e_sha demo_env) q = Inr (ac_request_digest (call_context c)) \<and> dc_request_id c = sp_request_id demo_request
     \<and> oi_package_name (rq_operation_input q) = package_name_str (sp_package_name demo_request)
     \<and> rq_frozen_plan q = FrozenPlan_to_cbor plan \<and> fp_package_name plan = sp_package_name demo_request"
proof -
  let ?w = "\<lambda>s. \<lparr>w_db = bs_db s, w_calls = (\<lambda>_. None)\<rparr>"
  obtain summary where sub: "submit demo_env (\<lambda>_ _. Allow) demo_request demo_pinned = Inr (Created summary, demo_planning)"
  proof -
    have "\<exists>summary s1. submit demo_env (\<lambda>_ _. Allow) demo_request demo_pinned = Inr (Created summary, s1)" by (simp add: run)
    with that show thesis by (auto simp: demo_planning_def committed_def)
  qed
  from demo_commit_runs [of True] obtain st out db' where
    run: "runs demo_env True (demo_world (\<lambda>_. None)) (demo_world ((\<lambda>n. if n < 2 then Some (demo_call Approve) else None)
       (0 \<mapsto> demo_call Approve\<lparr>dc_stage := st\<rparr>)))" and
    step: "call_step demo_env (demo_call Approve\<lparr>dc_stage := st\<rparr>) (bs_db demo_pending) = Return (Inr (out, db'))" "do_state out = Approved"
    by blast
  have runs: "runs demo_env True ((?w demo_pinned)\<lparr>w_db := bs_db demo_planning\<rparr>)
     (demo_world ((\<lambda>n. if n < 2 then Some (demo_call Approve) else None)(0 \<mapsto> demo_call Approve\<lparr>dc_stage := st\<rparr>)))"
    using converse_rtranclp_into_rtranclp [OF demo_frozen_step run] by simp
  have id: "dc_request_id (demo_call Approve) = sp_request_id demo_request" by (simp add: demo_call_def demo_request_def)
  from approval_covers_submission [OF demo_pinned_reachable _ sub runs, of 0 "demo_call Approve\<lparr>dc_stage := st\<rparr>" out db'] step id
  show ?thesis by fastforce
qed

end
