(* ===== verification/Store_Ledger.thy ===== *)
theory Store_Ledger
  imports Store_Concurrency
begin

text \<open>
  The abstract specification of the broker store of \<^verbatim>\<open>crates/rp-broker-core/src/lib.rs\<close>: a ledger of requests,
  without tables, events, receipts, keys or clocks. The interleaved operations on the database refine it: one
  step of the broker is none, one or (when a boot expires several requests) many steps of the ledger.
\<close>

section \<open>Forward simulation\<close>

text \<open>Every step of the implementation that starts in the invariant is matched by steps of the specification.\<close>

locale forward_simulation =
  fixes step :: "'s \<Rightarrow> 's \<Rightarrow> bool" and spec_step :: "'a \<Rightarrow> 'a \<Rightarrow> bool" and abs :: "'s \<Rightarrow> 'a" and inv :: "'s \<Rightarrow> bool"
  assumes inv_step: "step s s' \<Longrightarrow> inv s \<Longrightarrow> inv s'"
    and simulated: "step s s' \<Longrightarrow> inv s \<Longrightarrow> spec_step\<^sup>*\<^sup>* (abs s) (abs s')"
begin

lemma run_simulated: "step\<^sup>*\<^sup>* s s' \<Longrightarrow> inv s \<Longrightarrow> inv s' \<and> spec_step\<^sup>*\<^sup>* (abs s) (abs s')"
proof (induction rule: rtranclp_induct)
  case (step y z)
  then show ?case using inv_step simulated rtranclp_trans by metis
qed simp

text \<open>What every step of the specification keeps, the implementation keeps.\<close>

lemma spec_invariant:
  assumes "\<And>a a'. spec_step a a' \<Longrightarrow> P a \<Longrightarrow> P a'" and "step\<^sup>*\<^sup>* s s'" and "inv s" and "P (abs s)"
  shows "P (abs s')"
proof -
  have "spec_step\<^sup>*\<^sup>* (abs s) (abs s')" using run_simulated [OF assms(2,3)] by blast
  then show ?thesis by (induction rule: rtranclp_induct) (use assms(1,4) in auto)
qed

end

section \<open>The ledger\<close>

text \<open>What a requester sees of the broker: one entry per request.\<close>

record ledger_entry =
  le_device :: bytes
  le_requester :: i64
  le_operation_key :: bytes
  le_package :: bytes
  le_generation :: i64
  le_state :: request_state

type_synonym ledger = "bytes \<rightharpoonup> ledger_entry"

text \<open>A request may be opened in \<open>Planning\<close> when its requester has not used the operation key and the device has
  no active request; afterwards only its state changes, along the edges.\<close>

definition may_open :: "ledger \<Rightarrow> ledger_entry \<Rightarrow> bool" where
  "may_open L e \<longleftrightarrow> le_state e = Planning \<and> (\<forall>j f. L j = Some f \<longrightarrow>
     \<not> (le_requester f = le_requester e \<and> le_operation_key f = le_operation_key e)
     \<and> \<not> (is_active (le_state f) \<and> le_device f = le_device e))"

inductive ledger_step :: "ledger \<Rightarrow> ledger \<Rightarrow> bool" where
  opened: "L i = None \<Longrightarrow> may_open L e \<Longrightarrow> ledger_step L (L(i \<mapsto> e))"
| moved: "L i = Some e \<Longrightarrow> store_edge (le_state e) t \<Longrightarrow> ledger_step L (L(i \<mapsto> e\<lparr>le_state := t\<rparr>))"

inductive_cases ledger_stepE: "ledger_step L L'"

definition entry_of :: "request_row \<Rightarrow> ledger_entry" where
  "entry_of r = \<lparr>le_device = rr_device_id r, le_requester = rr_requester_uid r, le_operation_key = rr_operation_key r,
     le_package = rr_package_name r, le_generation = rr_generation r, le_state = state_of r\<rparr>"

definition ledger_of :: "database \<Rightarrow> ledger" where
  "ledger_of db i = map_option entry_of (find_request db i)"

text \<open>No two entries with one operation key, no two active entries on one device.\<close>

definition ledger_ok :: "ledger \<Rightarrow> bool" where
  "ledger_ok L \<longleftrightarrow> (\<forall>i j e f. L i = Some e \<longrightarrow> L j = Some f \<longrightarrow> i \<noteq> j \<longrightarrow>
     \<not> (le_requester f = le_requester e \<and> le_operation_key f = le_operation_key e)
     \<and> \<not> (is_active (le_state e) \<and> is_active (le_state f) \<and> le_device f = le_device e))"

lemma ledger_ok_step: "ledger_step L L' \<Longrightarrow> ledger_ok L \<Longrightarrow> ledger_ok L'"
proof (induction rule: ledger_step.induct)
  case (opened L i e)
  then show ?case by (fastforce simp: ledger_ok_def may_open_def split: if_split_asm)
next
  case (moved L i e t)
  then have "is_active (le_state e)" using store_edge_terminal is_active_iff by blast
  with moved show ?case by (fastforce simp: ledger_ok_def split: if_split_asm)
qed

text \<open>Several requests that move, and several that are opened, do so one after the other.\<close>

lemma moves_one_by_one:
  assumes "finite S" and "\<And>i. A i \<noteq> B i \<Longrightarrow> i \<in> S"
    and "\<And>i. A i \<noteq> B i \<Longrightarrow> \<exists>e t. A i = Some e \<and> store_edge (le_state e) t \<and> B i = Some (e\<lparr>le_state := t\<rparr>)"
  shows "ledger_step\<^sup>*\<^sup>* A B"
  using assms
proof (induction S arbitrary: A)
  case empty
  then have "A = B" by (intro ext) blast
  then show ?case by simp
next
  case (insert i S)
  let ?A = "A(i := B i)"
  have "ledger_step\<^sup>*\<^sup>* A ?A"
  proof (cases "A i = B i")
    case True
    then show ?thesis by (metis fun_upd_triv rtranclp.rtrancl_refl)
  next
    case False
    with insert.prems(2) [of i] show ?thesis using ledger_step.moved by fastforce
  qed
  also have "ledger_step\<^sup>*\<^sup>* ?A B"
    by (rule insert.IH) (use insert.prems in \<open>auto split: if_split_asm\<close>)
  finally show ?case .
qed

lemma opens_one_by_one:
  assumes "finite S" and "\<And>i. A i \<noteq> B i \<Longrightarrow> i \<in> S" and "ledger_ok B"
    and "\<And>i. A i \<noteq> B i \<Longrightarrow> A i = None \<and> (\<exists>e. B i = Some e \<and> le_state e = Planning)"
  shows "ledger_step\<^sup>*\<^sup>* A B"
  using assms
proof (induction S arbitrary: A)
  case empty
  then have "A = B" by (intro ext) blast
  then show ?case by simp
next
  case (insert i S)
  let ?A = "A(i := B i)"
  have "ledger_step\<^sup>*\<^sup>* A ?A"
  proof (cases "A i = B i")
    case True
    then show ?thesis by (metis fun_upd_triv rtranclp.rtrancl_refl)
  next
    case False
    with insert.prems(3) [of i] obtain e where e: "A i = None" "B i = Some e" "le_state e = Planning" by blast
    have "B j = Some f \<and> j \<noteq> i" if "A j = Some f" for j f
      using insert.prems(3) [of j] that e(1) by fastforce
    with e insert.prems(2) have "may_open A e" by (fastforce simp: may_open_def ledger_ok_def is_active_def)
    with e show ?thesis using ledger_step.opened by fastforce
  qed
  also have "ledger_step\<^sup>*\<^sup>* ?A B"
    by (rule insert.IH) (use insert.prems in \<open>auto split: if_split_asm\<close>)
  finally show ?case .
qed

section \<open>Refinement\<close>

lemma finite_requests: "finite {i. ledger_of db i \<noteq> None}"
proof -
  have "{i. ledger_of db i \<noteq> None} \<subseteq> rr_request_id ` set (db_requests db)"
    by (auto simp: ledger_of_def dest!: find_request_SomeD)
  then show ?thesis by (rule finite_subset) simp
qed

lemma ledger_of_ok:
  assumes "requests_ok (db_requests db)"
  shows "ledger_ok (ledger_of db)"
  unfolding ledger_ok_def
proof (intro allI impI)
  fix i j e f assume "ledger_of db i = Some e" "ledger_of db j = Some f" "i \<noteq> j"
  then obtain r s where r: "r \<in> set (db_requests db)" "s \<in> set (db_requests db)" "r \<noteq> s" and e: "e = entry_of r" "f = entry_of s"
    by (auto simp: ledger_of_def dest!: find_request_SomeD)
  have "rr_state r = as_db (state_of r)" "rr_state s = as_db (state_of s)"
    using r(1,2) assms requests_ok_checks request_checks_state by blast+
  then have "active_text (rr_state r) \<longleftrightarrow> is_active (state_of r)" "active_text (rr_state s) \<longleftrightarrow> is_active (state_of s)"
    by (metis active_text_as_db)+
  moreover have "inj_on (\<lambda>r. (rr_requester_uid r, rr_operation_key r)) (set (db_requests db))"
    "inj_on rr_device_id (set (filter (\<lambda>r. active_text (rr_state r)) (db_requests db)))"
    using assms by (simp_all add: requests_ok_def distinct_map)
  ultimately show "\<not> (le_requester f = le_requester e \<and> le_operation_key f = le_operation_key e)
     \<and> \<not> (is_active (le_state e) \<and> is_active (le_state f) \<and> le_device f = le_device e)"
    using r e by (auto simp: entry_of_def inj_on_def)
qed

lemma step_at_ledger:
  assumes "step_at i db db'"
  shows "ledger_of db' i = ledger_of db i
     \<or> (\<exists>e t. ledger_of db i = Some e \<and> store_edge (le_state e) t \<and> ledger_of db' i = Some (e\<lparr>le_state := t\<rparr>))
     \<or> ledger_of db i = None \<and> (\<exists>e. ledger_of db' i = Some e \<and> le_state e = Planning)"
  using assms
proof (elim step_at_def [THEN iffD1, elim_format] disjE exE)
  fix t assume "moved i t db db'"
  then obtain r r' where "find_request db i = Some r" "find_request db' i = Some r'" "same_intake r r'"
    "store_edge (state_of r) t" "state_of r' = t" using state_of_as_db by (auto simp: moved_def)
  then show ?thesis by (auto simp: ledger_of_def entry_of_def same_intake_def)
qed (use state_of_as_db in \<open>auto simp: same_at_def created_def ledger_of_def entry_of_def\<close>)

lemma sound_step_ledger:
  assumes "sound_step sha db db'"
  shows "ledger_step\<^sup>*\<^sup>* (ledger_of db) (ledger_of db')"
proof -
  let ?A = "ledger_of db" and ?B = "ledger_of db'"
  let ?C = "\<lambda>i. if ?A i = None then None else ?B i"
  have at: "step_at i db db'" for i using assms by (simp add: sound_step_def)
  have "ledger_step\<^sup>*\<^sup>* ?A ?C"
  proof (rule moves_one_by_one [OF finite_requests [of db]])
    fix i assume *: "?A i \<noteq> ?C i"
    then show "i \<in> {i. ?A i \<noteq> None}" by (auto split: if_split_asm)
    from * step_at_ledger [OF at, of i] show "\<exists>e t. ?A i = Some e \<and> store_edge (le_state e) t \<and> ?C i = Some (e\<lparr>le_state := t\<rparr>)"
      by (auto split: if_split_asm)
  qed
  also have "ledger_step\<^sup>*\<^sup>* ?C ?B"
  proof (rule opens_one_by_one [OF finite_requests [of db']])
    show "ledger_ok ?B" using assms db_inv_ok by (intro ledger_of_ok) (auto simp: sound_step_def)
    fix i assume *: "?C i \<noteq> ?B i"
    then show "i \<in> {i. ?B i \<noteq> None}" by (cases "?B i") (auto split: if_split_asm)
    from * step_at_ledger [OF at, of i] show "?C i = None \<and> (\<exists>e. ?B i = Some e \<and> le_state e = Planning)"
      by (auto split: if_split_asm)
  qed
  finally show ?thesis .
qed

interpretation broker: forward_simulation "broker_step env rotating" ledger_step "\<lambda>w. ledger_of (w_db w)" "world_inv env rotating"
proof
  show "broker_step env rotating w w' \<Longrightarrow> world_inv env rotating w \<Longrightarrow> world_inv env rotating w'" for w w'
    by (rule world_inv_step)
  show "broker_step env rotating w w' \<Longrightarrow> world_inv env rotating w \<Longrightarrow> ledger_step\<^sup>*\<^sup>* (ledger_of (w_db w)) (ledger_of (w_db w'))" for w w'
    using broker_step_evolves by (intro sound_step_ledger) (auto simp: evolves_def)
qed

interpretation store: forward_simulation "\<lambda>s s'. \<exists>op. s' = run_store env op s" ledger_step "\<lambda>s. ledger_of (bs_db s)" "store_inv env"
proof
  show "\<exists>op. s' = run_store env op s \<Longrightarrow> store_inv env s \<Longrightarrow> store_inv env s'" for s s'
    using store_inv_step by blast
  show "\<exists>op. s' = run_store env op s \<Longrightarrow> store_inv env s \<Longrightarrow> ledger_step\<^sup>*\<^sup>* (ledger_of (bs_db s)) (ledger_of (bs_db s'))" for s s'
    using run_store_sound sound_step_ledger by blast
qed

lemma uid_of_i64: "0 \<le> sint w \<Longrightarrow> sint w < 2 ^ 32 \<Longrightarrow> ucast (ucast (w :: i64) :: u32) = w"
proof -
  assume *: "0 \<le> sint w" "sint w < 2 ^ 32"
  have "uint w = take_bit 64 (sint w)" using uint_word_of_int_eq [of "sint w", where 'a = 64] by simp
  with * have "uint w = sint w" by (simp add: take_bit_int_eq_self)
  with * have "uint (take_bit 32 w) = uint w" by (simp add: unsigned_take_bit_eq take_bit_int_eq_self)
  then have "uint (ucast (ucast w :: u32) :: i64) = uint w" by (simp add: unsigned_ucast_eq)
  then show ?thesis by (simp only: word_uint_eq_iff)
qed

text \<open>The query reads the ledger.\<close>

definition summarises :: "request_summary \<Rightarrow> ledger_entry \<Rightarrow> bool" where
  "summarises m e \<longleftrightarrow> uid_i64 (sm_requester_uid m) = le_requester e \<and> sm_state m = le_state e \<and> sm_generation m = le_generation e"

lemma summary_reads_ledger:
  assumes "db_inv sha {} (bs_db s)" and "request_summary_of rid s = Inr x"
  shows "rel_option summarises x (ledger_of (bs_db s) (public_id_str rid))"
proof (cases "find_request (bs_db s) (public_id_str rid)")
  case None
  with assms(2) show ?thesis by (simp add: request_summary_of_def ledger_of_def)
next
  case (Some r)
  with assms(2) obtain m where m: "x = Some m" "summary_from_values rid (rr_requester_uid r) (rr_state r) (rr_generation r) = Inr m"
    by (auto simp: request_summary_of_def ok_iff)
  have "rr_state r = as_db (state_of r)" using assms(1) Some by (rule db_inv_state)
  with m(2) uid_of_i64 as_from_db have "summarises m (entry_of r)"
    by (auto simp: summary_from_values_def ok_iff summarises_def entry_of_def uid_i64_def u32_from_i64_def split: if_splits)
  with Some m(1) show ?thesis by (simp add: ledger_of_def)
qed

section \<open>Properties\<close>

text \<open>C14: the broker implements the ledger. Whatever the operations and decision calls of any number of
  handles on one database do, in whatever order and with whatever failures, the requests they leave
  behind are those of a ledger that starts empty, in which a request is opened in planning only when its
  requester has not used the operation key and its device has no active request, and afterwards
  changes its state along the edges of the lifecycle and nothing else; and the summaries that a handle
  returns are the entries of this ledger.\<close>

theorem broker_refines_ledger:
  assumes "reachable env rotating w" and "runs env rotating w w'"
  shows "ledger_of (w_db start_world) = Map.empty
     \<and> ledger_step\<^sup>*\<^sup>* Map.empty (ledger_of (w_db w)) \<and> ledger_step\<^sup>*\<^sup>* (ledger_of (w_db w)) (ledger_of (w_db w'))
     \<and> ledger_ok (ledger_of (w_db w'))
     \<and> (\<forall>s rid x. bs_db s = w_db w' \<longrightarrow> request_summary_of rid s = Inr x \<longrightarrow>
          rel_option summarises x (ledger_of (w_db w') (public_id_str rid)))"
proof -
  have start: "world_inv env rotating start_world" by (rule world_inv_reachable) simp
  have empty: "ledger_of (w_db start_world) = Map.empty"
    by (simp add: ledger_of_def start_world_def empty_database_def find_request_def fun_eq_iff)
  have w: "world_inv env rotating w" "ledger_step\<^sup>*\<^sup>* Map.empty (ledger_of (w_db w))"
    using broker.run_simulated [OF assms(1) start] empty by simp_all
  moreover have w': "world_inv env rotating w'" "ledger_step\<^sup>*\<^sup>* (ledger_of (w_db w)) (ledger_of (w_db w'))"
    using broker.run_simulated [OF assms(2) w(1)] by blast+
  moreover have "ledger_ok (ledger_of (w_db w'))"
    by (rule broker.spec_invariant [where P = ledger_ok, OF ledger_ok_step rtranclp_trans [OF assms] start])
       (simp_all add: empty ledger_ok_def)
  moreover have "rel_option summarises x (ledger_of (w_db w') (public_id_str rid))"
    if "bs_db s = w_db w'" "request_summary_of rid s = Inr x" for s rid x
    using summary_reads_ledger [OF _ that(2), of "e_sha env"] w'(1) that(1) by (simp add: world_inv_def)
  ultimately show ?thesis using empty by simp
qed

theorem broker_refines_ledger_witness:
  "ledger_step\<^sup>*\<^sup>* Map.empty (ledger_of (bs_db demo_planning)) \<and> ledger_step\<^sup>*\<^sup>* (ledger_of (bs_db demo_planning)) (ledger_of (bs_db demo_pending))
     \<and> map_option le_state (ledger_of (bs_db demo_planning) (public_id_str demo_id)) = Some Planning
     \<and> map_option le_state (ledger_of (bs_db demo_pending) (public_id_str demo_id)) = Some Pending"
proof -
  let ?w = "\<lparr>w_db = bs_db demo_planning, w_calls = (\<lambda>_. None)\<rparr>"
  have "reachable demo_env True ?w" by (rule rtranclp.rtrancl_into_rtrancl [OF demo_pinned_reachable demo_submitted])
  from broker_refines_ledger [OF this r_into_rtranclp [of "broker_step demo_env True", OF demo_frozen_step]]
  have "ledger_step\<^sup>*\<^sup>* Map.empty (ledger_of (bs_db demo_planning))" "ledger_step\<^sup>*\<^sup>* (ledger_of (bs_db demo_planning)) (ledger_of (bs_db demo_pending))"
    by simp_all
  moreover have "rr_state demo_row = as_db Planning" "rr_state demo_pending_row = as_db Pending"
    "find_request (bs_db demo_planning) (public_id_str demo_id) = Some demo_row"
    by (simp_all add: demo_row_def demo_pending_row_def demo_planning_eq find_request_def new_request_row_def demo_request_def demo_id_def)
  ultimately show ?thesis using demo_find by (simp add: ledger_of_def entry_of_def state_of_as_db)
qed

end
