(* ===== verification/Private_Files.thy ===== *)
theory Private_Files
  imports Store_Frames
begin

unbundle bit_operations_syntax

text \<open>
  The two private files of the broker, from \<^verbatim>\<open>crates/rp-broker-core/src/lib.rs\<close>: the Ed25519 seed of
  \<^verbatim>\<open>BrokerSigningKey::load_or_create\<close> and the database of \<^verbatim>\<open>BrokerStore::open\<close>. A path of the file system
  holds nothing, a symbolic link or a file with its metadata and contents; a file that an operation
  creates or writes stays that way when the operation fails later. What the operating system may
  refuse is the record \<open>file_io\<close>, and SQLite's reading of an opened file is the argument \<open>sqlite\<close>.
\<close>

section \<open>Paths\<close>

record inode =
  in_is_file :: bool
  in_mode :: u32
  in_uid :: u32
  in_nlink :: u64
  in_contents :: bytes

datatype path_entry = Missing | Symlink (target_exists: bool) | Inode inode

text \<open>The calls that succeed (\<open>fi_written\<close> is \<open>Some n\<close> when writing fails after \<open>n\<close> bytes), and the process:
  its effective user and its umask.\<close>

record file_io =
  fi_open :: bool
  fi_metadata :: bool
  fi_read :: bool
  fi_written :: "nat option"
  fi_sync :: bool
  fi_euid :: u32
  fi_umask :: u32

text \<open>\<^verbatim>\<open>Path::exists\<close> follows links.\<close>

fun path_exists :: "path_entry \<Rightarrow> bool" where
  "path_exists Missing = False"
| "path_exists (Symlink t) = t"
| "path_exists (Inode i) = True"

text \<open>\<^verbatim>\<open>O_RDWR | O_CREAT | O_NOFOLLOW\<close> with mode \<^verbatim>\<open>0600\<close>.\<close>

definition open_private :: "file_io \<Rightarrow> path_entry \<Rightarrow> broker_error + inode" where
  [run]: "open_private io p =
     (if \<not> fi_open io then Inl BrokerIo
      else case p of
        Missing \<Rightarrow> Inr \<lparr>in_is_file = True, in_mode = 0x180 AND NOT (fi_umask io), in_uid = fi_euid io, in_nlink = 1, in_contents = []\<rparr>
      | Symlink _ \<Rightarrow> Inl BrokerIo
      | Inode i \<Rightarrow> Inr i)"

text \<open>The check of the metadata of an opened file.\<close>

definition unsafe_metadata :: "inode \<Rightarrow> bool" where
  [run]: "unsafe_metadata i \<longleftrightarrow> \<not> in_is_file i \<or> in_mode i AND 0x3F \<noteq> 0 \<or> in_uid i \<noteq> 0 \<or> in_nlink i \<noteq> 1"

definition checked_file :: "broker_error \<Rightarrow> file_io \<Rightarrow> inode \<Rightarrow> broker_error + unit" where
  [run]: "checked_file unsafe io i =
     (if \<not> fi_metadata io then Inl BrokerIo
      else if unsafe_metadata i then Inl unsafe
      else Inr ())"

section \<open>The signing key\<close>

text \<open>\<^verbatim>\<open>read_exact\<close> into the 32 bytes of the seed, then a read that must meet the end of the file.\<close>

definition read_seed :: "file_io \<Rightarrow> inode \<Rightarrow> broker_error + bytes" where
  [run]: "read_seed io i =
     (if \<not> fi_read io \<or> length (in_contents i) < 32 then Inl BrokerIo
      else if drop 32 (in_contents i) \<noteq> [] then Inl UnsafeKey
      else Inr (take 32 (in_contents i)))"

text \<open>\<^verbatim>\<open>write_all\<close> at the start of the file, then \<^verbatim>\<open>sync_all\<close>.\<close>

definition write_seed :: "file_io \<Rightarrow> bytes \<Rightarrow> inode \<Rightarrow> (broker_error + bytes) \<times> inode" where
  [run]: "write_seed io seed i =
     (let n = (case fi_written io of None \<Rightarrow> length seed | Some n \<Rightarrow> min n (length seed)) in
      (if fi_written io = None \<and> fi_sync io then Inr seed else Inl BrokerIo,
       i\<lparr>in_contents := take n seed @ drop n (in_contents i)\<rparr>))"

text \<open>
  The path is looked at twice: \<open>before\<close> when \<^verbatim>\<open>exists\<close> asks, \<open>p\<close> when the file is opened. \<open>rnd\<close> are the bytes
  of \<^verbatim>\<open>/dev/urandom\<close>. The second component is the path afterwards.
\<close>

definition load_or_create :: "env \<Rightarrow> file_io \<Rightarrow> bytes option \<Rightarrow> path_entry \<Rightarrow> path_entry
    \<Rightarrow> (broker_error + broker_signing_key) \<times> path_entry" where
  [run]: "load_or_create env io rnd before p =
     (case open_private io p of
        Inl e \<Rightarrow> (Inl e, p)
      | Inr i \<Rightarrow>
          (case checked_file UnsafeKey io i of
             Inl e \<Rightarrow> (Inl e, Inode i)
           | Inr _ \<Rightarrow>
               if path_exists before then (map_ok (BrokerSigningKey_from_seed env) (read_seed io i), Inode i)
               else (case rnd of
                   None \<Rightarrow> (Inl BrokerIo, Inode i)
                 | Some seed \<Rightarrow>
                     let (r, i) = write_seed io seed i in
                     (map_ok (BrokerSigningKey_from_seed env) r, Inode i))))"

definition BrokerSigningKey_kid :: "broker_signing_key \<Rightarrow> bytes" where
  [run]: "BrokerSigningKey_kid k = sg_kid k"

definition BrokerSigningKey_public_key :: "broker_signing_key \<Rightarrow> bytes" where
  [run]: "BrokerSigningKey_public_key k = sg_public_key k"

section \<open>The database\<close>

text \<open>SQLite opens the inode that was checked, through its descriptor.\<close>

definition open_store :: "env \<Rightarrow> file_io \<Rightarrow> (inode \<Rightarrow> broker_error + connection) \<Rightarrow> path_entry
    \<Rightarrow> (broker_error + broker_store) \<times> path_entry" where
  [run]: "open_store env io sqlite p =
     (case open_private io p of
        Inl e \<Rightarrow> (Inl e, p)
      | Inr i \<Rightarrow> (rbind (checked_file UnsafeFile io i) (\<lambda>_. rbind (sqlite i) (from_connection env)), Inode i))"

section \<open>Lemmas\<close>

text \<open>A file that passes the check: regular, without access for group and others, of root, with one name.\<close>

lemma safe_metadata:
  "\<not> unsafe_metadata i \<longleftrightarrow> in_is_file i \<and> in_mode i AND 0x3F = 0 \<and> in_uid i = 0 \<and> in_nlink i = 1"
  by (auto simp: unsafe_metadata_def)

lemma checked_file_ok [ok_iff]: "checked_file e io i = Inr u \<longleftrightarrow> fi_metadata io \<and> \<not> unsafe_metadata i"
  by (simp add: checked_file_def)

lemma read_seed_ok [ok_iff]: "read_seed io i = Inr seed \<longleftrightarrow> fi_read io \<and> length (in_contents i) = 32 \<and> seed = in_contents i"
  by (auto simp: read_seed_def)

lemma open_private_ok [ok_iff]:
  "open_private io p = Inr i \<longleftrightarrow> fi_open io \<and> (p = Inode i
     \<or> p = Missing \<and> i = \<lparr>in_is_file = True, in_mode = 0x180 AND NOT (fi_umask io), in_uid = fi_euid io, in_nlink = 1, in_contents = []\<rparr>)"
  by (auto simp: open_private_def split: if_splits path_entry.splits)

lemma load_existing:
  assumes "fi_open io" and "fi_metadata io" and "fi_read io" and "\<not> unsafe_metadata i" and "length (in_contents i) = 32"
  shows "load_or_create env io rnd (Inode i) (Inode i) = (Inr (BrokerSigningKey_from_seed env (in_contents i)), Inode i)"
  using assms by (simp add: load_or_create_def open_private_def checked_file_def read_seed_def)

text \<open>A path that did not change between the two looks at it.\<close>

lemma load_or_create_ok:
  assumes "load_or_create env io rnd p p = (Inr k, p')" and "\<And>seed. rnd = Some seed \<Longrightarrow> length seed = 32"
  shows "\<exists>i. p' = Inode i \<and> \<not> unsafe_metadata i \<and> length (in_contents i) = 32
     \<and> k = BrokerSigningKey_from_seed env (in_contents i)
     \<and> (if path_exists p then p' = p else p = Missing \<and> rnd = Some (in_contents i))"
  using assms
  by (auto simp: load_or_create_def ok_iff write_seed_def checked_file_def unsafe_metadata_def open_private_def Let_def
      split: sum.splits option.splits if_splits path_entry.splits)

lemma pinned_identity:
  assumes "initialize_identity env rnd k s = Inr (u, s')"
  shows "\<exists>i d. db_identity (bs_db s') = Some i \<and> bi_key_kid i = sg_kid k \<and> bi_public_key i = sg_public_key k
     \<and> bi_device_id i = Some d \<and> length d = 16 \<and> bs_device_id_bytes s' = d \<and> bs_device_id s' = e_b64_encode env d"
  using assms by (auto simp: initialize_identity_def ok_iff Let_def split: option.splits if_splits)

section \<open>Properties\<close>

text \<open>C17: the signing key is stable. When \<^verbatim>\<open>load_or_create\<close> returns a key, its seed is the whole contents of a
  32-byte regular file of root with one name and no access for group and others, either the file that
  was there, unchanged, or a new one with fresh random bytes; and from then on every start that can open
  and read the file gets the same key and leaves the file alone.\<close>

theorem key_file_roundtrip:
  assumes "load_or_create env io rnd p p = (Inr k, p')" and "\<And>seed. rnd = Some seed \<Longrightarrow> length seed = 32"
  shows "\<exists>i. p' = Inode i \<and> in_is_file i \<and> in_mode i AND 0x3F = 0 \<and> in_uid i = 0 \<and> in_nlink i = 1
     \<and> length (in_contents i) = 32 \<and> k = BrokerSigningKey_from_seed env (in_contents i)
     \<and> (if path_exists p then p' = p else p = Missing \<and> rnd = Some (in_contents i))
     \<and> (fi_open io' \<and> fi_metadata io' \<and> fi_read io' \<longrightarrow> load_or_create env io' rnd' p' p' = (Inr k, p'))"
proof -
  from load_or_create_ok [OF assms] obtain i where
    i: "p' = Inode i" "\<not> unsafe_metadata i" "length (in_contents i) = 32" "k = BrokerSigningKey_from_seed env (in_contents i)"
      "if path_exists p then p' = p else p = Missing \<and> rnd = Some (in_contents i)" by blast
  then show ?thesis using load_existing [OF _ _ _ i(2,3), of io' env rnd'] safe_metadata by blast
qed

definition demo_io :: file_io where
  [run]: "demo_io = \<lparr>fi_open = True, fi_metadata = True, fi_read = True, fi_written = None, fi_sync = True, fi_euid = 0, fi_umask = 0x12\<rparr>"

abbreviation demo_key_file :: path_entry where
  "demo_key_file \<equiv> Inode \<lparr>in_is_file = True, in_mode = 0x180, in_uid = 0, in_nlink = 1, in_contents = replicate 32 7\<rparr>"

lemma demo_key_created:
  "load_or_create demo_env demo_io (Some (replicate 32 7)) Missing Missing
     = (Inr (BrokerSigningKey_from_seed demo_env (replicate 32 7)), demo_key_file)"
  by (simp add: run)

theorem key_file_roundtrip_witness:
  "load_or_create demo_env demo_io (Some (replicate 32 7)) Missing Missing
     = (Inr (BrokerSigningKey_from_seed demo_env (replicate 32 7)), demo_key_file)
   \<and> load_or_create demo_env demo_io None demo_key_file demo_key_file
     = (Inr (BrokerSigningKey_from_seed demo_env (replicate 32 7)), demo_key_file)"
  using demo_key_created key_file_roundtrip [OF demo_key_created, of demo_io None] by (auto simp: demo_io_def)

text \<open>C18: a broker keeps its identity across restarts. After the key was loaded or created and pinned in the
  database, and whatever operations ran since, opening the database file and loading the key again gives the
  same key, pinning it succeeds without changing the database, and the device identifier is the one of
  the first start; a different key is refused.\<close>

theorem identity_survives_restart:
  assumes "load_or_create env io rnd p p = (Inr k, p')" and "\<And>seed. rnd = Some seed \<Longrightarrow> length seed = 32"
    and "initialize_identity env d k s = Inr (u, s1)"
    and "fi_open io' \<and> fi_metadata io' \<and> fi_read io'" and "\<not> unsafe_metadata f"
    and "sqlite f = Inr \<lparr>cn_user_version = 7, cn_quick_check = str ''ok'', cn_db = bs_db (fold (run_store env) ops s1)\<rparr>"
  shows "load_or_create env io' rnd' p' p' = (Inr k, p')
     \<and> (\<exists>s2. open_store env io' sqlite (Inode f) = (Inr s2, Inode f)
          \<and> bs_db s2 = bs_db (fold (run_store env) ops s1)
          \<and> initialize_identity env d' k s2 = Inr ((), s2)
          \<and> bs_device_id s2 = bs_device_id s1 \<and> bs_device_id_bytes s2 = bs_device_id_bytes s1
          \<and> (sg_public_key k' \<noteq> sg_public_key k \<longrightarrow> initialize_identity env d' k' s2 = Inl UnsafeKey))"
proof -
  let ?db = "bs_db (fold (run_store env) ops s1)"
  from load_or_create_ok [OF assms(1,2)] load_existing [of io'] assms(4) have
    1: "load_or_create env io' rnd' p' p' = (Inr k, p')" by auto
  from pinned_identity [OF assms(3)] obtain i dev where
    i: "db_identity (bs_db s1) = Some i" "bi_key_kid i = sg_kid k" "bi_public_key i = sg_public_key k"
      "bi_device_id i = Some dev" "length dev = 16" "bs_device_id_bytes s1 = dev" "bs_device_id s1 = e_b64_encode env dev" by blast
  from run_identity [of s1 env ops] i obtain j where
    j: "db_identity ?db = Some j" "bi_key_kid j = sg_kid k" "bi_public_key j = sg_public_key k" "bi_device_id j = Some dev"
    by (auto simp: same_identity_def)
  let ?s2 = "\<lparr>bs_db = ?db, bs_device_id = bs_device_id s1, bs_device_id_bytes = dev\<rparr>"
  have "open_store env io' sqlite (Inode f) = (Inr ?s2, Inode f)"
    using assms(4-6) i(5-7) j
    by (simp add: open_store_def open_private_def checked_file_def from_connection_def MIGRATIONS_def fixed_array_def)
  moreover have "initialize_identity env d' k ?s2 = Inr ((), ?s2)"
    using j i(5-7) by (simp add: initialize_identity_def fixed_array_def)
  moreover have "sg_public_key k' \<noteq> sg_public_key k \<longrightarrow> initialize_identity env d' k' ?s2 = Inl UnsafeKey"
    using j by (simp add: initialize_identity_def)
  ultimately show ?thesis using 1 i(6) by auto
qed

theorem identity_survives_restart_witness:
  "\<exists>s1 s2. initialize_identity demo_env (Some (replicate 16 1)) (BrokerSigningKey_from_seed demo_env (replicate 32 7)) demo_fresh = Inr ((), s1)
     \<and> initialize_identity demo_env None (BrokerSigningKey_from_seed demo_env (replicate 32 7)) s2 = Inr ((), s2)
     \<and> bs_device_id_bytes s2 = bs_device_id_bytes s1"
proof -
  let ?k = "BrokerSigningKey_from_seed demo_env (replicate 32 7)"
  let ?sqlite = "\<lambda>s1 _. Inr \<lparr>cn_user_version = 7, cn_quick_check = str ''ok'',
    cn_db = bs_db (fold (run_store demo_env) [Submit (\<lambda>_ _. Allow) demo_request] s1)\<rparr>"
  have "\<exists>s1. initialize_identity demo_env (Some (replicate 16 1)) ?k demo_fresh = Inr ((), s1)"
    by (simp add: run)
  then obtain s1 where s1: "initialize_identity demo_env (Some (replicate 16 1)) ?k demo_fresh = Inr ((), s1)" by blast
  have "\<not> unsafe_metadata \<lparr>in_is_file = True, in_mode = 0x180, in_uid = 0, in_nlink = 1, in_contents = []\<rparr>" by (simp add: run)
  from identity_survives_restart [OF demo_key_created _ s1 _ this, where io' = demo_io and sqlite = "?sqlite s1"
      and ops = "[Submit (\<lambda>_ _. Allow) demo_request]" and d' = None]
  show ?thesis using s1 by (auto simp: demo_io_def)
qed

text \<open>Anything else at the path is refused and left as it is: a symbolic link cannot be opened, and a file
  that is not a regular one, is open to group or others, belongs to another user or has a second name
  is reported as unsafe.\<close>

theorem unsafe_path_refused:
  assumes "fi_open io" and "fi_metadata io" and "unsafe_metadata i"
  shows "load_or_create env io rnd before (Inode i) = (Inl UnsafeKey, Inode i)
     \<and> open_store env io sqlite (Inode i) = (Inl UnsafeFile, Inode i)
     \<and> load_or_create env io rnd before (Symlink t) = (Inl BrokerIo, Symlink t)
     \<and> open_store env io sqlite (Symlink t) = (Inl BrokerIo, Symlink t)"
  using assms by (simp add: load_or_create_def open_store_def open_private_def checked_file_def)

theorem unsafe_path_refused_witness:
  "load_or_create demo_env demo_io None demo_key_file
     (Inode \<lparr>in_is_file = True, in_mode = 0x1A0, in_uid = 0, in_nlink = 1, in_contents = replicate 32 7\<rparr>)
   = (Inl UnsafeKey, Inode \<lparr>in_is_file = True, in_mode = 0x1A0, in_uid = 0, in_nlink = 1, in_contents = replicate 32 7\<rparr>)"
  using unsafe_path_refused [of demo_io "\<lparr>in_is_file = True, in_mode = 0x1A0, in_uid = 0, in_nlink = 1, in_contents = replicate 32 7\<rparr>"
      demo_env None demo_key_file] by (simp add: demo_io_def unsafe_metadata_def)

text \<open>Creation is not atomic. A key file that appears between the test for existence and the opening of the
  file, as when two brokers start at once, is overwritten with a second seed: the first broker goes on
  with a key that is no longer stored, and the next start gets the second one.\<close>

theorem key_creation_race:
  assumes "\<not> path_exists before" and "\<not> unsafe_metadata i" and "length (in_contents i) = 32" and "length seed = 32"
    and "fi_open io \<and> fi_metadata io \<and> fi_read io \<and> fi_written io = None \<and> fi_sync io"
  shows "load_or_create env io (Some seed) before (Inode i)
       = (Inr (BrokerSigningKey_from_seed env seed), Inode (i\<lparr>in_contents := seed\<rparr>))
     \<and> load_or_create env io rnd (Inode (i\<lparr>in_contents := seed\<rparr>)) (Inode (i\<lparr>in_contents := seed\<rparr>))
       = (Inr (BrokerSigningKey_from_seed env seed), Inode (i\<lparr>in_contents := seed\<rparr>))"
  using assms
  by (simp add: load_or_create_def open_private_def checked_file_def write_seed_def read_seed_def unsafe_metadata_def)

theorem key_creation_race_witness:
  "fst (load_or_create demo_env demo_io None demo_key_file demo_key_file) = Inr (BrokerSigningKey_from_seed demo_env (replicate 32 7))
   \<and> fst (load_or_create demo_env demo_io (Some (replicate 32 8)) Missing demo_key_file)
     = Inr (BrokerSigningKey_from_seed demo_env (replicate 32 8))"
  using key_creation_race [of Missing "\<lparr>in_is_file = True, in_mode = 0x180, in_uid = 0, in_nlink = 1, in_contents = replicate 32 7\<rparr>"
      "replicate 32 8" demo_io demo_env None]
  by (simp add: run)

text \<open>A creation that stops before all 32 bytes are written leaves a file that no later start accepts.\<close>

theorem interrupted_key_creation:
  assumes "load_or_create env io (Some seed) Missing Missing = (r, p')" and "length seed = 32"
    and "fi_open io \<and> fi_metadata io \<and> fi_euid io = 0" and "fi_written io = Some n" and "n < 32"
  shows "r = Inl BrokerIo \<and> (\<exists>e. load_or_create env io' rnd p' p' = (Inl e, p'))"
proof -
  have "unsafe_metadata \<lparr>in_is_file = True, in_mode = 0x180 AND NOT u, in_uid = 0, in_nlink = 1, in_contents = c\<rparr> = False" for u c
  proof -
    have "(0x180 AND NOT u) AND 0x3F = (0 :: u32)"
      by (simp add: and.assoc and.commute [of "NOT u"]) (simp add: and.assoc [symmetric])
    then show ?thesis by (simp add: unsafe_metadata_def)
  qed
  with assms show ?thesis
    by (auto simp: load_or_create_def open_private_def checked_file_def write_seed_def read_seed_def split: if_splits)
qed

theorem interrupted_key_creation_witness:
  "fst (load_or_create demo_env (demo_io\<lparr>fi_written := Some 5\<rparr>) (Some (replicate 32 7)) Missing Missing) = Inl BrokerIo"
proof (cases "load_or_create demo_env (demo_io\<lparr>fi_written := Some 5\<rparr>) (Some (replicate 32 7)) Missing Missing")
  case (Pair r p')
  from interrupted_key_creation [OF this, of 5] Pair show ?thesis by (simp add: demo_io_def)
qed

end
