(* ===== verification/Relay.thy ===== *)
theory Relay
  imports Ordered_Map
begin

text \<open>
  The unprivileged relay of \<^verbatim>\<open>crates/rp-relay/src/lib.rs\<close>: opaque envelopes and their routing, the
  in-memory spool, the file spool with its snapshot format, and the hosted projection guard.

  A spool is the \<^verbatim>\<open>BTreeMap\<close> of its entries, keyed by the 16 bytes of the envelope id. A \<^verbatim>\<open>&mut self\<close>
  method returns its result with the spool after the call. The file spool is its path and the spool in memory,
  together with the files of the disk. Which step of \<^verbatim>\<open>persist\<close> fails, and with which message, is an
  argument (\<open>None\<close> when all succeed); each step has its effect on the files, the temporary file included. An error of
  \<^verbatim>\<open>fs::read\<close> other than absence is an argument of \<^verbatim>\<open>open\<close>.
\<close>

section \<open>Envelopes\<close>

abbreviation MAX_OPAQUE_ENVELOPE_BYTES :: nat where
  "MAX_OPAQUE_ENVELOPE_BYTES \<equiv> 262144"

abbreviation MAX_RETAINED_ENVELOPES :: nat where
  "MAX_RETAINED_ENVELOPES \<equiv> 4096"

definition SPOOL_MAGIC :: bytes where
  [run]: "SPOOL_MAGIC = str ''RPSPOOL1''"

type_synonym envelope_id = bytes

datatype direction = BrokerToService | ServiceToBroker

datatype object_kind =
    EnrollmentAcknowledgement
  | KindRequest
  | KindLifecycleEvent
  | KindReceipt
  | KeysetAcknowledgement
  | KindServiceKeyset
  | KindDecisionSubmission
  | KindRevocationEvent
  | ResyncRequest

fun permitted_in :: "object_kind \<Rightarrow> direction \<Rightarrow> bool" where
  "permitted_in EnrollmentAcknowledgement d \<longleftrightarrow> d = BrokerToService"
| "permitted_in KindRequest d \<longleftrightarrow> d = BrokerToService"
| "permitted_in KindLifecycleEvent d \<longleftrightarrow> d = BrokerToService"
| "permitted_in KindReceipt d \<longleftrightarrow> d = BrokerToService"
| "permitted_in KeysetAcknowledgement d \<longleftrightarrow> d = BrokerToService"
| "permitted_in KindServiceKeyset d \<longleftrightarrow> d = ServiceToBroker"
| "permitted_in KindDecisionSubmission d \<longleftrightarrow> d = ServiceToBroker"
| "permitted_in KindRevocationEvent d \<longleftrightarrow> d = ServiceToBroker"
| "permitted_in ResyncRequest d \<longleftrightarrow> d = ServiceToBroker"

datatype relay_error =
    InvalidDirection
  | PayloadTooLarge
  | DuplicateEnvelopeId
  | UnknownEnvelope
  | AcknowledgementMismatch
  | SequenceGap
  | MailboxFull
  | CorruptSpool
  | Storage bytes

record opaque_envelope =
  oe_envelope_id :: envelope_id
  oe_direction :: direction
  oe_kind :: object_kind
  oe_idempotency_key :: bytes
  oe_payload :: bytes

definition OpaqueEnvelope_new :: "envelope_id \<Rightarrow> direction \<Rightarrow> object_kind \<Rightarrow> bytes \<Rightarrow> bytes \<Rightarrow> relay_error + opaque_envelope" where
  [run]: "OpaqueEnvelope_new envelope_id direction kind idempotency_key payload =
     (if \<not> permitted_in kind direction then Inl InvalidDirection
      else if MAX_OPAQUE_ENVELOPE_BYTES < length payload then Inl PayloadTooLarge
      else Inr \<lparr>oe_envelope_id = envelope_id, oe_direction = direction, oe_kind = kind,
                 oe_idempotency_key = idempotency_key, oe_payload = payload\<rparr>)"

section \<open>The spool\<close>

record delivery_attempt =
  da_envelope :: opaque_envelope
  da_attempts :: u32

record spool_entry =
  se_envelope :: opaque_envelope
  se_attempts :: u32
  se_next_attempt_mono_ns :: u64

type_synonym relay_spool = "(envelope_id, spool_entry) btree"

type_synonym ('a, 's) relay_result = "(relay_error + 'a) \<times> 's"

definition enqueue :: "opaque_envelope \<Rightarrow> u64 \<Rightarrow> relay_spool \<Rightarrow> (unit, relay_spool) relay_result" where
  [run]: "enqueue envelope now_mono_ns spool =
     (if bt_get spool (oe_envelope_id envelope) \<noteq> None then (Inl DuplicateEnvelopeId, spool)
      else if MAX_RETAINED_ENVELOPES \<le> length spool then (Inl MailboxFull, spool)
      else (Inr (), bt_insert (oe_envelope_id envelope)
        \<lparr>se_envelope = envelope, se_attempts = 0, se_next_attempt_mono_ns = now_mono_ns\<rparr> spool))"

definition next_delivery :: "u64 \<Rightarrow> relay_spool \<Rightarrow> delivery_attempt option \<times> relay_spool" where
  [run]: "next_delivery now_mono_ns spool =
     (case find (\<lambda>(_, entry). se_next_attempt_mono_ns entry \<le> now_mono_ns) spool of
        None \<Rightarrow> (None, spool)
      | Some (i, entry) \<Rightarrow>
          (Some \<lparr>da_envelope = se_envelope entry, da_attempts = saturating_add (se_attempts entry) 1\<rparr>,
           bt_adjust i (\<lambda>entry. entry\<lparr>se_attempts := saturating_add (se_attempts entry) 1\<rparr>) spool))"

definition acknowledge :: "envelope_id \<Rightarrow> bytes \<Rightarrow> relay_spool \<Rightarrow> (unit, relay_spool) relay_result" where
  [run]: "acknowledge envelope_id idempotency_key spool =
     (case bt_get spool envelope_id of
        None \<Rightarrow> (Inl UnknownEnvelope, spool)
      | Some entry \<Rightarrow>
          if oe_idempotency_key (se_envelope entry) \<noteq> idempotency_key then (Inl AcknowledgementMismatch, spool)
          else (Inr (), bt_remove envelope_id spool))"

definition retry_later :: "envelope_id \<Rightarrow> u64 \<Rightarrow> relay_spool \<Rightarrow> (unit, relay_spool) relay_result" where
  [run]: "retry_later envelope_id next_attempt_mono_ns spool =
     (case bt_get spool envelope_id of
        None \<Rightarrow> (Inl UnknownEnvelope, spool)
      | Some _ \<Rightarrow> (Inr (), bt_adjust envelope_id (\<lambda>entry. entry\<lparr>se_next_attempt_mono_ns := next_attempt_mono_ns\<rparr>) spool))"

section \<open>The snapshot format\<close>

fun direction_code :: "direction \<Rightarrow> u8" where
  "direction_code BrokerToService = 1"
| "direction_code ServiceToBroker = 2"

fun object_kind_code :: "object_kind \<Rightarrow> u8" where
  "object_kind_code EnrollmentAcknowledgement = 1"
| "object_kind_code KindRequest = 2"
| "object_kind_code KindLifecycleEvent = 3"
| "object_kind_code KindReceipt = 4"
| "object_kind_code KeysetAcknowledgement = 5"
| "object_kind_code KindServiceKeyset = 6"
| "object_kind_code KindDecisionSubmission = 7"
| "object_kind_code KindRevocationEvent = 8"
| "object_kind_code ResyncRequest = 9"

definition decode_direction :: "u8 \<Rightarrow> relay_error + direction" where
  [run]: "decode_direction value =
     (if value = 1 then Inr BrokerToService else if value = 2 then Inr ServiceToBroker else Inl CorruptSpool)"

definition decode_object_kind :: "u8 \<Rightarrow> relay_error + object_kind" where
  [run]: "decode_object_kind value =
     (if value = 1 then Inr EnrollmentAcknowledgement
      else if value = 2 then Inr KindRequest
      else if value = 3 then Inr KindLifecycleEvent
      else if value = 4 then Inr KindReceipt
      else if value = 5 then Inr KeysetAcknowledgement
      else if value = 6 then Inr KindServiceKeyset
      else if value = 7 then Inr KindDecisionSubmission
      else if value = 8 then Inr KindRevocationEvent
      else if value = 9 then Inr ResyncRequest
      else Inl CorruptSpool)"

text \<open>\<^verbatim>\<open>u32::try_from(len).unwrap_or(u32::MAX)\<close>.\<close>

definition u32_or_max :: "nat \<Rightarrow> u32" where
  [run]: "u32_or_max n = (if n < 2 ^ 32 then of_nat n else - 1)"

definition encode_entry :: "spool_entry \<Rightarrow> bytes" where
  [run]: "encode_entry entry =
     oe_envelope_id (se_envelope entry)
     @ [direction_code (oe_direction (se_envelope entry)), object_kind_code (oe_kind (se_envelope entry))]
     @ oe_idempotency_key (se_envelope entry)
     @ u32_to_be (se_attempts entry)
     @ u64_to_be (se_next_attempt_mono_ns entry)
     @ u32_to_be (u32_or_max (length (oe_payload (se_envelope entry))))
     @ oe_payload (se_envelope entry)"

definition encode_spool :: "relay_spool \<Rightarrow> bytes" where
  [run]: "encode_spool spool =
     SPOOL_MAGIC @ u32_to_be (u32_or_max (length spool)) @ concat (map (\<lambda>(_, entry). encode_entry entry) spool)"

text \<open>\<^verbatim>\<open>read_exact\<close> on the cursor, whose state is the rest of the input.\<close>

definition read_exact :: "nat \<Rightarrow> bytes \<Rightarrow> relay_error + bytes \<times> bytes" where
  [run]: "read_exact n input = (if length input < n then Inl CorruptSpool else Inr (take n input, drop n input))"

definition read_byte :: "bytes \<Rightarrow> relay_error + u8 \<times> bytes" where
  [run]: "read_byte input = map_ok (\<lambda>(value, input). (hd value, input)) (read_exact 1 input)"

definition read_u32 :: "bytes \<Rightarrow> relay_error + u32 \<times> bytes" where
  [run]: "read_u32 input = map_ok (\<lambda>(value, input). (u32_from_be value, input)) (read_exact 4 input)"

definition read_u64 :: "bytes \<Rightarrow> relay_error + u64 \<times> bytes" where
  [run]: "read_u64 input = map_ok (\<lambda>(value, input). (u64_from_be value, input)) (read_exact 8 input)"

definition decode_entry :: "bytes \<Rightarrow> relay_error + spool_entry \<times> bytes" where
  [run]: "decode_entry input =
     rbind (read_exact 16 input) (\<lambda>(envelope_id, input).
     rbind (read_byte input) (\<lambda>(b, input). rbind (decode_direction b) (\<lambda>direction.
     rbind (read_byte input) (\<lambda>(b, input). rbind (decode_object_kind b) (\<lambda>kind.
     rbind (read_exact 32 input) (\<lambda>(idempotency_key, input).
     rbind (read_u32 input) (\<lambda>(attempts, input).
     rbind (read_u64 input) (\<lambda>(next_attempt_mono_ns, input).
     rbind (read_u32 input) (\<lambda>(payload_len, input).
     if MAX_OPAQUE_ENVELOPE_BYTES < unat payload_len then Inl CorruptSpool
     else
       rbind (read_exact (unat payload_len) input) (\<lambda>(payload, input).
       rbind (map_err (\<lambda>_. CorruptSpool) (OpaqueEnvelope_new envelope_id direction kind idempotency_key payload)) (\<lambda>envelope.
         Inr (\<lparr>se_envelope = envelope, se_attempts = attempts, se_next_attempt_mono_ns = next_attempt_mono_ns\<rparr>, input))))))))))))"

fun decode_entries :: "nat \<Rightarrow> bytes \<Rightarrow> relay_spool \<Rightarrow> relay_error + relay_spool \<times> bytes" where
  "decode_entries 0 input spool = Inr (spool, input)"
| "decode_entries (Suc count) input spool =
     rbind (decode_entry input) (\<lambda>(entry, input).
     if bt_get spool (oe_envelope_id (se_envelope entry)) \<noteq> None then Inl CorruptSpool
     else decode_entries count input (bt_insert (oe_envelope_id (se_envelope entry)) entry spool))"

definition decode_spool :: "bytes \<Rightarrow> relay_error + relay_spool" where
  [run]: "decode_spool input =
     rbind (read_exact 8 input) (\<lambda>(magic, input).
     if magic \<noteq> SPOOL_MAGIC then Inl CorruptSpool
     else
       rbind (read_u32 input) (\<lambda>(count, input).
       if MAX_RETAINED_ENVELOPES < unat count then Inl CorruptSpool
       else
         rbind (decode_entries (unat count) input bt_empty) (\<lambda>(spool, input).
         if input \<noteq> [] then Inl CorruptSpool else Inr spool)))"

section \<open>The file spool\<close>

text \<open>A path by its parent, the stem of its file name and its extension, with which \<^verbatim>\<open>Path::with_extension\<close> names
  another file.\<close>

record spool_path =
  pa_parent :: bytes
  pa_stem :: bytes
  pa_extension :: "bytes option"

definition with_extension :: "spool_path \<Rightarrow> bytes \<Rightarrow> spool_path" where
  [run]: "with_extension path extension = path\<lparr>pa_extension := Some extension\<rparr>"

type_synonym disk = "spool_path \<Rightarrow> bytes option"

record file_relay_spool =
  fr_path :: spool_path
  fr_disk :: disk
  fr_spool :: relay_spool

definition FileRelaySpool_open :: "bytes option \<Rightarrow> spool_path \<Rightarrow> disk \<Rightarrow> relay_error + file_relay_spool" where
  [run]: "FileRelaySpool_open read_error path disk =
     rbind (case read_error of
         Some error \<Rightarrow> Inl (Storage error)
       | None \<Rightarrow> (case disk path of Some b \<Rightarrow> decode_spool b | None \<Rightarrow> Inr bt_empty)) (\<lambda>spool.
       Inr \<lparr>fr_path = path, fr_disk = disk, fr_spool = spool\<rparr>)"

text \<open>A step that fails; a failed \<^verbatim>\<open>write_all\<close> has written some of the bytes.\<close>

datatype persist_step = CreateDirAll | CreateFile | WriteAll nat | SyncFile | Rename | SyncDirectory

type_synonym fault = "(persist_step \<times> bytes) option"

text \<open>Renaming a file to its own name does nothing.\<close>

definition rename_file :: "spool_path \<Rightarrow> spool_path \<Rightarrow> disk \<Rightarrow> disk" where
  [run]: "rename_file source target disk = (if source = target then disk else disk(source := None, target := disk source))"

definition persist :: "fault \<Rightarrow> spool_path \<Rightarrow> relay_spool \<Rightarrow> disk \<Rightarrow> (relay_error + unit) \<times> disk" where
  [run]: "persist fault path spool disk =
     (let temporary = with_extension path (str ''tmp''); bytes = encode_spool spool;
          written = disk(temporary \<mapsto> bytes); renamed = rename_file temporary path written in
      case fault of
        None \<Rightarrow> (Inr (), renamed)
      | Some (step, error) \<Rightarrow>
          (Inl (Storage error),
           case step of
             CreateDirAll \<Rightarrow> disk
           | CreateFile \<Rightarrow> disk
           | WriteAll n \<Rightarrow> disk(temporary \<mapsto> take n bytes)
           | SyncFile \<Rightarrow> written
           | Rename \<Rightarrow> written
           | SyncDirectory \<Rightarrow> renamed))"

text \<open>Every writing operation runs on a copy, which replaces the spool once it is persisted.\<close>

definition persisted :: "fault \<Rightarrow> ('a, relay_spool) relay_result \<Rightarrow> file_relay_spool \<Rightarrow> ('a, file_relay_spool) relay_result" where
  [run]: "persisted fault candidate s =
     (case candidate of
        (Inl e, _) \<Rightarrow> (Inl e, s)
      | (Inr x, spool) \<Rightarrow>
          (case persist fault (fr_path s) spool (fr_disk s) of
             (Inl e, disk) \<Rightarrow> (Inl e, s\<lparr>fr_disk := disk\<rparr>)
           | (Inr _, disk) \<Rightarrow> (Inr x, s\<lparr>fr_disk := disk, fr_spool := spool\<rparr>)))"

definition file_enqueue :: "fault \<Rightarrow> opaque_envelope \<Rightarrow> u64 \<Rightarrow> file_relay_spool \<Rightarrow> (unit, file_relay_spool) relay_result" where
  [run]: "file_enqueue fault envelope now_mono_ns s = persisted fault (enqueue envelope now_mono_ns (fr_spool s)) s"

definition file_next_delivery :: "u64 \<Rightarrow> file_relay_spool \<Rightarrow> delivery_attempt option \<times> file_relay_spool" where
  [run]: "file_next_delivery now_mono_ns s =
     (case next_delivery now_mono_ns (fr_spool s) of (attempt, spool) \<Rightarrow> (attempt, s\<lparr>fr_spool := spool\<rparr>))"

definition file_acknowledge :: "fault \<Rightarrow> envelope_id \<Rightarrow> bytes \<Rightarrow> file_relay_spool \<Rightarrow> (unit, file_relay_spool) relay_result" where
  [run]: "file_acknowledge fault envelope_id idempotency_key s =
     persisted fault (acknowledge envelope_id idempotency_key (fr_spool s)) s"

definition backoff_ns :: "u32 \<Rightarrow> u64" where
  [run]: "backoff_ns attempts = min (saturating_mul 1000000000 (push_bit (unat (min attempts 16)) 1)) 300000000000"

definition retry_with_backoff :: "fault \<Rightarrow> envelope_id \<Rightarrow> u64 \<Rightarrow> file_relay_spool \<Rightarrow> (u64, file_relay_spool) relay_result" where
  [run]: "retry_with_backoff fault envelope_id now_mono_ns s =
     (case bt_get (fr_spool s) envelope_id of
        None \<Rightarrow> (Inl UnknownEnvelope, s)
      | Some entry \<Rightarrow>
          let next_attempt_mono_ns = saturating_add now_mono_ns (backoff_ns (se_attempts entry)) in
          persisted fault (case retry_later envelope_id next_attempt_mono_ns (fr_spool s) of
            (res, spool) \<Rightarrow> (map_ok (\<lambda>_. next_attempt_mono_ns) res, spool)) s)"

section \<open>The hosted projection\<close>

record verified_lifecycle_event =
  vl_sequence :: u64
  vl_event_digest :: bytes

datatype projection_result = Applied | Duplicate | FrozenGap

record projection_chain =
  pj_applied :: "(u64, bytes) btree"
  pj_next_sequence :: u64
  pj_frozen_gap :: bool

definition ProjectionChain_default :: projection_chain where
  [run]: "ProjectionChain_default = \<lparr>pj_applied = bt_empty, pj_next_sequence = 0, pj_frozen_gap = False\<rparr>"

definition next_sequence :: "projection_chain \<Rightarrow> u64" where
  [run]: "next_sequence c = (if pj_next_sequence c = 0 then 1 else pj_next_sequence c)"

definition ingest :: "verified_lifecycle_event \<Rightarrow> projection_chain \<Rightarrow> projection_result \<times> projection_chain" where
  [run]: "ingest event c =
     (if pj_frozen_gap c then (FrozenGap, c)
      else
        let expected = next_sequence c in
        if vl_sequence event = expected then
          (Applied, c\<lparr>pj_applied := bt_insert (vl_sequence event) (vl_event_digest event) (pj_applied c),
                     pj_next_sequence := saturating_add expected 1\<rparr>)
        else if vl_sequence event < expected \<and> bt_get (pj_applied c) (vl_sequence event) = Some (vl_event_digest event) then
          (Duplicate, c)
        else (FrozenGap, c\<lparr>pj_frozen_gap := True\<rparr>))"

fun restore_loop :: "verified_lifecycle_event list \<Rightarrow> projection_chain \<Rightarrow> relay_error + projection_chain" where
  "restore_loop [] candidate = Inr candidate"
| "restore_loop (event # events) candidate =
     (case ingest event candidate of
        (result, candidate) \<Rightarrow> if result \<noteq> Applied then Inl SequenceGap else restore_loop events candidate)"

definition restore_contiguous :: "verified_lifecycle_event list \<Rightarrow> projection_chain \<Rightarrow> (unit, projection_chain) relay_result" where
  [run]: "restore_contiguous events c =
     (case restore_loop events ProjectionChain_default of
        Inl e \<Rightarrow> (Inl e, c)
      | Inr candidate \<Rightarrow> (Inr (), candidate))"

end
