(* ===== verification/Relay_Delivery.thy ===== *)
theory Relay_Delivery
  imports Relay
begin

text \<open>
  Lemmas on the relay. The well-formedness of a spool and that every operation keeps it; the snapshot
  format read back; the locale \<open>mailbox\<close> (what was enqueued stays retained until it is acknowledged with
  its own idempotency key) and \<open>exact_mailbox\<close> (nothing else is retained), interpreted on the spool in
  memory and on the file spool with failing writes and restarts; the retry delay; the hosted projection
  as an append-only log.
\<close>

section \<open>Well-formed spools\<close>

definition entry_ok :: "envelope_id \<Rightarrow> spool_entry \<Rightarrow> bool" where
  "entry_ok i entry \<longleftrightarrow> oe_envelope_id (se_envelope entry) = i \<and> length i = 16
     \<and> length (oe_idempotency_key (se_envelope entry)) = 32
     \<and> permitted_in (oe_kind (se_envelope entry)) (oe_direction (se_envelope entry))
     \<and> length (oe_payload (se_envelope entry)) \<le> MAX_OPAQUE_ENVELOPE_BYTES"

definition spool_ok :: "relay_spool \<Rightarrow> bool" where
  "spool_ok spool \<longleftrightarrow> bt_wf spool \<and> length spool \<le> MAX_RETAINED_ENVELOPES
     \<and> (\<forall>i entry. bt_get spool i = Some entry \<longrightarrow> entry_ok i entry)"

definition envelope_ok :: "opaque_envelope \<Rightarrow> bool" where
  "envelope_ok envelope \<longleftrightarrow> length (oe_envelope_id envelope) = 16 \<and> length (oe_idempotency_key envelope) = 32
     \<and> permitted_in (oe_kind envelope) (oe_direction envelope)
     \<and> length (oe_payload envelope) \<le> MAX_OPAQUE_ENVELOPE_BYTES"

lemma OpaqueEnvelope_new_ok [ok_iff]:
  "OpaqueEnvelope_new i d k key payload = Inr e \<longleftrightarrow> permitted_in k d \<and> length payload \<le> MAX_OPAQUE_ENVELOPE_BYTES
     \<and> e = \<lparr>oe_envelope_id = i, oe_direction = d, oe_kind = k, oe_idempotency_key = key, oe_payload = payload\<rparr>"
  by (auto simp: OpaqueEnvelope_new_def)

lemma spool_ok_empty [simp]: "spool_ok bt_empty"
  by (simp add: spool_ok_def bt.invar_empty)

lemma enqueue_ok:
  "spool_ok spool \<Longrightarrow> envelope_ok envelope \<Longrightarrow> spool_ok (snd (enqueue envelope now spool))"
  by (auto simp: enqueue_def spool_ok_def entry_ok_def envelope_ok_def bt_wf_insert bt_get_insert bt.length_insert_fresh)

lemma adjust_ok:
  assumes "spool_ok spool" and "\<And>entry. se_envelope (f entry) = se_envelope entry"
  shows "spool_ok (bt_adjust i f spool)"
  using assms by (auto simp: spool_ok_def entry_ok_def bt_get_adjust)

lemma next_delivery_ok: "spool_ok spool \<Longrightarrow> spool_ok (snd (next_delivery now spool))"
  by (auto simp: next_delivery_def adjust_ok split: option.split prod.split)

lemma length_bt_remove: "length (bt_remove i m) \<le> length m"
  by (simp add: bt_remove_def)

lemma acknowledge_ok: "spool_ok spool \<Longrightarrow> spool_ok (snd (acknowledge i key spool))"
  using length_bt_remove [of i spool]
  by (auto simp: acknowledge_def spool_ok_def bt_wf_remove bt_get_remove split: option.split)

lemma retry_later_ok: "spool_ok spool \<Longrightarrow> spool_ok (snd (retry_later i t spool))"
  by (auto simp: retry_later_def adjust_ok split: option.split)

section \<open>The snapshot format\<close>

lemma read_exact_append [simp]: "length xs = n \<Longrightarrow> read_exact n (xs @ rest) = Inr (xs, rest)"
  by (auto simp: read_exact_def)

lemma read_u32_append [simp]: "read_u32 (u32_to_be w @ rest) = Inr (w, rest)"
  by (simp add: read_u32_def)

lemma read_u64_append [simp]: "read_u64 (u64_to_be w @ rest) = Inr (w, rest)"
  by (simp add: read_u64_def)

lemma read_byte_Cons [simp]: "read_byte (b # rest) = Inr (b, rest)"
  by (simp add: read_byte_def read_exact_def)

lemma decode_codes [simp]:
  "decode_direction (direction_code d) = Inr d"
  "decode_object_kind (object_kind_code k) = Inr k"
  by (cases d; simp add: decode_direction_def) (cases k; simp add: decode_object_kind_def)

lemma unat_u32_or_max: "n < 2 ^ 32 \<Longrightarrow> unat (u32_or_max n) = n"
  by (simp add: u32_or_max_def unat_of_nat)

lemma decode_encode_entry:
  assumes "entry_ok i entry"
  shows "decode_entry (encode_entry entry @ rest) = Inr (entry, rest)"
  using assms by (simp add: entry_ok_def encode_entry_def decode_entry_def unat_u32_or_max OpaqueEnvelope_new_def)

lemma bt_insert_snoc: "\<forall>k'\<in>fst ` set m. k' < k \<Longrightarrow> bt_insert k v m = m @ [(k, v)]"
  by (induction m) auto

abbreviation encode_entries :: "relay_spool \<Rightarrow> bytes" where
  "encode_entries spool \<equiv> concat (map (\<lambda>(_, entry). encode_entry entry) spool)"

lemma decode_encode_entries:
  assumes "bt_wf (acc @ spool)" and "\<And>i entry. (i, entry) \<in> set spool \<Longrightarrow> entry_ok i entry"
  shows "decode_entries (length spool + n) (encode_entries spool @ rest) acc = decode_entries n rest (acc @ spool)"
  using assms
proof (induction spool arbitrary: acc)
  case (Cons x spool)
  obtain i entry where x: "x = (i, entry)" by (cases x)
  then have ok: "entry_ok i entry" using Cons.prems(2) by simp
  then have id: "oe_envelope_id (se_envelope entry) = i" by (simp add: entry_ok_def)
  have less: "\<forall>k\<in>fst ` set acc. k < i"
    using Cons.prems(1) unfolding bt_wf_def x by (simp add: sorted_wrt_append)
  then have "bt_get acc i = None" by (metis bt_get_def less_irrefl map_of_eq_None_iff)
  moreover have "bt_insert i entry acc = acc @ [x]" using bt_insert_snoc [OF less] x by simp
  ultimately show ?case
    using Cons.IH [of "acc @ [x]"] Cons.prems decode_encode_entry [OF ok] id by (simp add: x)
qed simp

lemma spool_entry_ok: "spool_ok spool \<Longrightarrow> (i, entry) \<in> set spool \<Longrightarrow> entry_ok i entry"
  using bt.set_entries [of spool] by (auto simp: spool_ok_def)

lemma length_SPOOL_MAGIC [simp]: "length SPOOL_MAGIC = 8"
  by (simp add: SPOOL_MAGIC_def str_def)

lemma decode_spool_encode_spool:
  assumes "length spool \<le> MAX_RETAINED_ENVELOPES"
  shows "decode_spool (encode_spool spool) =
     rbind (decode_entries (length spool) (encode_entries spool) bt_empty) (\<lambda>(spool, input).
       if input \<noteq> [] then Inl CorruptSpool else Inr spool)"
  using assms by (simp add: decode_spool_def encode_spool_def unat_u32_or_max)

lemma decode_encode_spool:
  assumes "spool_ok spool"
  shows "decode_spool (encode_spool spool) = Inr spool"
proof -
  have wf: "bt_wf spool" "length spool \<le> 4096" using assms by (simp_all add: spool_ok_def)
  then show ?thesis
    using decode_encode_entries [of "[]" spool 0 "[]"] spool_entry_ok [OF assms]
    by (simp add: decode_spool_encode_spool)
qed

text \<open>An envelope that \<^verbatim>\<open>OpaqueEnvelope::new\<close> would refuse is written but cannot be read back.\<close>

lemma decode_encode_bad_entry:
  assumes "\<not> envelope_ok (se_envelope entry)"
    and "length (oe_envelope_id (se_envelope entry)) = 16" and "length (oe_idempotency_key (se_envelope entry)) = 32"
    and "length (oe_payload (se_envelope entry)) < 2 ^ 32"
  shows "decode_entry (encode_entry entry @ rest) = Inl CorruptSpool"
  using assms
  by (auto simp: envelope_ok_def encode_entry_def decode_entry_def unat_u32_or_max OpaqueEnvelope_new_def)

lemma bt_insert_split:
  assumes "bt_wf m"
  obtains l r where "bt_insert k v m = l @ (k, v) # r" and "bt_wf l" and "set l \<subseteq> set m"
proof -
  let ?m = "bt_insert k v m"
  have wf: "bt_wf ?m" using assms by (rule bt_wf_insert)
  have "bt_get ?m k = Some v" by (simp add: bt_get_insert)
  then have "(k, v) \<in> set ?m" by (simp only: bt.set_entries [OF wf]) simp
  then obtain l r where lr: "?m = l @ (k, v) # r" by (meson split_list)
  have "bt_wf l" using wf lr by (simp add: bt_wf_def sorted_wrt_append)
  moreover have "set l \<subseteq> set m"
  proof
    fix x assume "x \<in> set l"
    then have m: "x \<in> set ?m" by (simp only: lr) simp
    have "sorted_wrt (<) (map fst (l @ (k, v) # r))" using wf lr by (simp add: bt_wf_def)
    then have "fst x \<noteq> k" using \<open>x \<in> set l\<close> by (auto simp: sorted_wrt_append)
    from m have "x \<in> {(k', v'). bt_get ?m k' = Some v'}" by (simp only: bt.set_entries [OF wf])
    then have "bt_get ?m (fst x) = Some (snd x)" by (simp add: case_prod_beta)
    with \<open>fst x \<noteq> k\<close> have "bt_get m (fst x) = Some (snd x)" by (simp add: bt_get_insert)
    then show "x \<in> set m" using bt.set_entries [OF assms] by (cases x) simp
  qed
  ultimately show thesis using that lr by blast
qed

lemma decode_encode_bad_spool:
  assumes ok: "spool_ok spool" and room: "length spool < MAX_RETAINED_ENVELOPES"
    and fresh: "bt_get spool i = None" and i: "i = oe_envelope_id (se_envelope entry)"
    and bad: "\<not> envelope_ok (se_envelope entry)" "length i = 16"
      "length (oe_idempotency_key (se_envelope entry)) = 32" "length (oe_payload (se_envelope entry)) < 2 ^ 32"
  shows "decode_spool (encode_spool (bt_insert i entry spool)) = Inl CorruptSpool"
proof -
  have wf: "bt_wf spool" using ok by (simp add: spool_ok_def)
  obtain l r where lr: "bt_insert i entry spool = l @ (i, entry) # r" "bt_wf l" "set l \<subseteq> set spool"
    using bt_insert_split [OF wf] by metis
  have "length (bt_insert i entry spool) = Suc (length spool)"
    using wf fresh by (simp add: bt.length_insert_fresh)
  then have len: "length (l @ (i, entry) # r) \<le> 4096" using room lr by simp
  have "\<And>j x. (j, x) \<in> set l \<Longrightarrow> entry_ok j x" using lr(3) spool_entry_ok [OF ok] by blast
  then have "decode_entries (length l + Suc (length r)) (encode_entries l @ encode_entry entry @ encode_entries r) [] = Inl CorruptSpool"
    using decode_encode_entries [of "[]" l "Suc (length r)"] lr(2) bad decode_encode_bad_entry [of entry] i by simp
  then show ?thesis using decode_spool_encode_spool [OF len] by (simp add: lr(1))
qed

lemma read_exact_ok [ok_iff]:
  "read_exact n input = Inr (x, rest) \<longleftrightarrow> length x = n \<and> input = x @ rest"
  by (auto simp: read_exact_def)

lemma decode_entry_ok:
  assumes "decode_entry input = Inr (entry, rest)"
  shows "entry_ok (oe_envelope_id (se_envelope entry)) entry"
  using assms
  by (auto simp: decode_entry_def ok_iff if_ok entry_ok_def split: prod.splits)

lemma decode_entries_ok:
  assumes "decode_entries n input acc = Inr (spool, rest)"
    and "bt_wf acc" and "\<And>i entry. bt_get acc i = Some entry \<Longrightarrow> entry_ok i entry"
  shows "bt_wf spool \<and> length spool = length acc + n \<and> (\<forall>i entry. bt_get spool i = Some entry \<longrightarrow> entry_ok i entry)"
  using assms
proof (induction n arbitrary: input acc)
  case (Suc n)
  from Suc.prems(1) obtain entry input' where
    e: "decode_entry input = Inr (entry, input')" "bt_get acc (oe_envelope_id (se_envelope entry)) = None"
      "decode_entries n input' (bt_insert (oe_envelope_id (se_envelope entry)) entry acc) = Inr (spool, rest)"
    by (auto simp: rbind_ok if_ok)
  let ?acc = "bt_insert (oe_envelope_id (se_envelope entry)) entry acc"
  have "bt_wf ?acc" "length ?acc = Suc (length acc)"
    using Suc.prems(2) e(2) by (simp_all add: bt_wf_insert bt.length_insert_fresh)
  moreover have "entry_ok i x" if "bt_get ?acc i = Some x" for i x
    using that decode_entry_ok [OF e(1)] Suc.prems(3) by (simp add: bt_get_insert split: if_splits)
  ultimately show ?case using Suc.IH [OF e(3)] by simp
qed simp

lemma decode_spool_ok:
  assumes "decode_spool input = Inr spool"
  shows "spool_ok spool"
proof -
  from assms obtain n input' rest where "decode_entries n input' bt_empty = Inr (spool, rest)" "n \<le> 4096"
    by (auto simp: decode_spool_def ok_iff if_ok split: prod.splits)
  from decode_entries_ok [OF this(1)] this(2) show ?thesis
    by (simp add: spool_ok_def bt.invar_empty)
qed

section \<open>Mailboxes\<close>

locale mailbox =
  fixes good :: "'s \<Rightarrow> bool"
    and valid :: "'op \<Rightarrow> bool"
    and retained :: "'s \<Rightarrow> envelope_id \<Rightarrow> opaque_envelope option"
    and step :: "'op \<Rightarrow> 's \<Rightarrow> 's"
    and acks :: "'op \<Rightarrow> (envelope_id \<times> bytes) option"
  assumes good_step: "good s \<Longrightarrow> valid op \<Longrightarrow> good (step op s)"
    and keeps: "good s \<Longrightarrow> valid op \<Longrightarrow> retained s i = Some e \<Longrightarrow>
      acks op \<noteq> Some (i, oe_idempotency_key e) \<Longrightarrow> retained (step op s) i = Some e"
begin

lemma good_run: "good s \<Longrightarrow> list_all valid ops \<Longrightarrow> good (fold step ops s)"
  by (induction ops arbitrary: s) (auto simp: good_step)

lemma at_least_once:
  assumes "good s" and "list_all valid ops" and "retained s i = Some e"
    and "Some (i, oe_idempotency_key e) \<notin> acks ` set ops"
  shows "retained (fold step ops s) i = Some e"
  using assms
proof (induction ops arbitrary: s)
  case (Cons op ops)
  then have "retained (step op s) i = Some e" by (intro keeps) auto
  with Cons show ?case by (simp add: good_step)
qed simp

end

locale exact_mailbox = mailbox +
  fixes adds :: "'b \<Rightarrow> opaque_envelope option"
  assumes takes: "good s \<Longrightarrow> valid op \<Longrightarrow> retained (step op s) i = Some e \<Longrightarrow>
      retained s i = Some e \<or> adds op = Some e \<and> i = oe_envelope_id e"
begin

lemma only_enqueued:
  assumes "good s" and "list_all valid ops" and "retained (fold step ops s) i = Some e"
  shows "retained s i = Some e \<or> Some e \<in> adds ` set ops \<and> i = oe_envelope_id e"
  using assms
proof (induction ops arbitrary: s)
  case (Cons op ops)
  then have "retained (step op s) i = Some e \<or> Some e \<in> adds ` set ops \<and> i = oe_envelope_id e"
    using good_step by simp
  with Cons.prems takes [of s op i e] show ?case by auto
qed simp

end

section \<open>The spool in memory\<close>

datatype spool_op =
    Enqueue opaque_envelope u64
  | NextDelivery u64
  | Acknowledge envelope_id bytes
  | RetryLater envelope_id u64

fun run_spool :: "spool_op \<Rightarrow> relay_spool \<Rightarrow> relay_spool" where
  "run_spool (Enqueue e now) s = snd (enqueue e now s)"
| "run_spool (NextDelivery now) s = snd (next_delivery now s)"
| "run_spool (Acknowledge i key) s = snd (acknowledge i key s)"
| "run_spool (RetryLater i t) s = snd (retry_later i t s)"

fun op_adds :: "spool_op \<Rightarrow> opaque_envelope option" where
  "op_adds (Enqueue e now) = Some e"
| "op_adds _ = None"

fun op_acks :: "spool_op \<Rightarrow> (envelope_id \<times> bytes) option" where
  "op_acks (Acknowledge i key) = Some (i, key)"
| "op_acks _ = None"

fun op_valid :: "spool_op \<Rightarrow> bool" where
  "op_valid (Enqueue e now) = envelope_ok e"
| "op_valid _ = True"

definition retains :: "relay_spool \<Rightarrow> envelope_id \<Rightarrow> opaque_envelope option" where
  "retains spool i = map_option se_envelope (bt_get spool i)"

lemma spool_ok_run: "spool_ok s \<Longrightarrow> op_valid op \<Longrightarrow> spool_ok (run_spool op s)"
  by (cases op) (simp_all add: enqueue_ok next_delivery_ok acknowledge_ok retry_later_ok)

lemma retains_adjust:
  "(\<And>entry. se_envelope (f entry) = se_envelope entry) \<Longrightarrow> retains (bt_adjust i f s) = retains s"
  by (auto simp: retains_def bt_get_adjust fun_eq_iff option.map_comp o_def)

lemma retains_next [simp]: "retains (snd (next_delivery now s)) = retains s"
  by (auto simp: next_delivery_def retains_adjust split: option.split prod.split)

lemma retains_retry [simp]: "retains (snd (retry_later i t s)) = retains s"
  by (auto simp: retry_later_def retains_adjust split: option.split)

lemma retains_enqueue:
  "retains (snd (enqueue e now s)) =
     (if fst (enqueue e now s) = Inr () then (retains s)(oe_envelope_id e \<mapsto> e) else retains s)"
  by (auto simp: enqueue_def retains_def bt_get_insert fun_eq_iff)

lemma retains_acknowledge:
  "retains (snd (acknowledge i key s)) =
     (if fst (acknowledge i key s) = Inr () then (retains s)(i := None) else retains s)"
  by (auto simp: acknowledge_def retains_def bt_get_remove fun_eq_iff split: option.split)

lemma enqueue_fresh: "fst (enqueue e now s) = Inr () \<Longrightarrow> retains s (oe_envelope_id e) = None"
  by (auto simp: enqueue_def retains_def split: if_splits)

lemma acknowledge_matches:
  "fst (acknowledge i key s) = Inr () \<Longrightarrow> \<exists>e. retains s i = Some e \<and> oe_idempotency_key e = key"
  by (auto simp: acknowledge_def retains_def split: option.splits if_splits)

lemma run_spool_keeps:
  assumes "retains s i = Some e" and "op_acks op \<noteq> Some (i, oe_idempotency_key e)"
  shows "retains (run_spool op s) i = Some e"
  using assms
  by (cases op) (auto simp: retains_enqueue retains_acknowledge dest: enqueue_fresh acknowledge_matches)

interpretation spool_mailbox: exact_mailbox spool_ok op_valid retains run_spool op_acks op_adds
proof
  show "spool_ok s \<Longrightarrow> op_valid op \<Longrightarrow> spool_ok (run_spool op s)" for s op by (rule spool_ok_run)
  show "retains s i = Some e \<Longrightarrow> op_acks op \<noteq> Some (i, oe_idempotency_key e) \<Longrightarrow>
      retains (run_spool op s) i = Some e" for s op i e by (rule run_spool_keeps)
  show "retains (run_spool op s) i = Some e \<Longrightarrow> retains s i = Some e \<or> op_adds op = Some e \<and> i = oe_envelope_id e" for s op i e
    by (cases op) (auto simp: retains_enqueue retains_acknowledge split: if_splits)
qed

section \<open>The spool on disk\<close>

datatype file_op =
    FileEnqueue fault opaque_envelope u64
  | FileNextDelivery u64
  | FileAcknowledge fault envelope_id bytes
  | RetryWithBackoff fault envelope_id u64
  | Reopen

definition on_disk :: "file_relay_spool \<Rightarrow> relay_error + relay_spool" where
  "on_disk s = map_ok fr_spool (FileRelaySpool_open None (fr_path s) (fr_disk s))"

text \<open>\<open>Reopen\<close> is a crash: the spool in memory is lost and read again from the file.\<close>

fun run_file :: "file_op \<Rightarrow> file_relay_spool \<Rightarrow> file_relay_spool" where
  "run_file (FileEnqueue fault e now) s = snd (file_enqueue fault e now s)"
| "run_file (FileNextDelivery now) s = snd (file_next_delivery now s)"
| "run_file (FileAcknowledge fault i key) s = snd (file_acknowledge fault i key s)"
| "run_file (RetryWithBackoff fault i now) s = snd (retry_with_backoff fault i now s)"
| "run_file Reopen s =
     (case FileRelaySpool_open None (fr_path s) (fr_disk s) of
        Inl _ \<Rightarrow> s | Inr s' \<Rightarrow> s')"

fun file_acks :: "file_op \<Rightarrow> (envelope_id \<times> bytes) option" where
  "file_acks (FileAcknowledge fault i key) = Some (i, key)"
| "file_acks _ = None"

fun file_valid :: "file_op \<Rightarrow> bool" where
  "file_valid (FileEnqueue fault e now) = envelope_ok e"
| "file_valid _ = True"

text \<open>The temporary file of \<^verbatim>\<open>persist\<close> is another one, the spool in memory is well formed and the snapshot readable.\<close>

definition own_temporary :: "spool_path \<Rightarrow> bool" where
  "own_temporary path \<longleftrightarrow> pa_extension path \<noteq> Some (str ''tmp'')"

definition file_inv :: "file_relay_spool \<Rightarrow> bool" where
  "file_inv s \<longleftrightarrow> own_temporary (fr_path s) \<and> spool_ok (fr_spool s) \<and> (\<exists>d. on_disk s = Inr d)"

text \<open>What is retained in memory and on disk.\<close>

definition durable :: "file_relay_spool \<Rightarrow> envelope_id \<Rightarrow> opaque_envelope option" where
  "durable s i = (case on_disk s of
     Inl _ \<Rightarrow> None
   | Inr d \<Rightarrow> if retains d i = retains (fr_spool s) i then retains d i else None)"

lemma on_disk_eq: "on_disk s = (case fr_disk s (fr_path s) of None \<Rightarrow> Inr bt_empty | Some b \<Rightarrow> decode_spool b)"
  by (auto simp: on_disk_def FileRelaySpool_open_def rbind_def map_ok_def split: option.split sum.split)

lemma with_extension_own [simp]:
  "own_temporary path \<Longrightarrow> with_extension path (str ''tmp'') \<noteq> path"
  "own_temporary path \<Longrightarrow> path \<noteq> with_extension path (str ''tmp'')"
  by (cases path, auto simp: with_extension_def own_temporary_def)+

text \<open>What a write leaves in the file of the spool: with a temporary file of its own, the old content up to the
  rename and the new one after it.\<close>

lemma persist_content:
  assumes "own_temporary path"
  shows "snd (persist fault path spool disk) path =
     (case fault of None \<Rightarrow> Some (encode_spool spool)
      | Some (step, _) \<Rightarrow> if step = SyncDirectory then Some (encode_spool spool) else disk path)"
  using assms by (auto simp: persist_def rename_file_def Let_def split: option.split persist_step.split)

lemma persist_result: "fst (persist fault path spool disk) = (case fault of None \<Rightarrow> Inr () | Some (_, error) \<Rightarrow> Inl (Storage error))"
  by (simp add: persist_def Let_def split: option.split)

lemma fr_path_persisted [simp]: "fr_path (snd (persisted fault candidate s)) = fr_path s"
  by (simp add: persisted_def split: prod.split sum.split)

text \<open>The effect of a writing operation on memory and file.\<close>

lemma persisted_cases:
  assumes "spool_ok (snd candidate)" and own: "own_temporary (fr_path s)"
  shows "let s' = snd (persisted fault candidate s) in
     (case fst (persisted fault candidate s) of
        Inr _ \<Rightarrow> fr_spool s' = snd candidate \<and> on_disk s' = Inr (snd candidate)
      | Inl _ \<Rightarrow> fr_spool s' = fr_spool s \<and> (on_disk s' = on_disk s \<or> (\<exists>x. fst candidate = Inr x) \<and> on_disk s' = Inr (snd candidate)))"
proof -
  obtain res spool where c: "candidate = (res, spool)" by (cases candidate)
  have enc: "decode_spool (encode_spool spool) = Inr spool" using assms c by (simp add: decode_encode_spool)
  obtain out disk where p: "persist fault (fr_path s) spool (fr_disk s) = (out, disk)" by (cases "persist fault (fr_path s) spool (fr_disk s)")
  with persist_content [OF own, of fault spool "fr_disk s"] persist_result [of fault "fr_path s" spool "fr_disk s"]
  have "disk (fr_path s) = (case fault of None \<Rightarrow> Some (encode_spool spool)
      | Some (step, _) \<Rightarrow> if step = SyncDirectory then Some (encode_spool spool) else fr_disk s (fr_path s))"
    "out = (case fault of None \<Rightarrow> Inr () | Some (_, error) \<Rightarrow> Inl (Storage error))" by simp_all
  with enc p show ?thesis
    unfolding c by (auto simp: persisted_def on_disk_eq Let_def split: sum.split option.split)
qed

lemma fr_spool_persisted:
  "fr_spool (snd (persisted fault candidate s)) = (case fst (persisted fault candidate s) of Inr _ \<Rightarrow> snd candidate | Inl _ \<Rightarrow> fr_spool s)"
  by (auto simp: persisted_def split: sum.split prod.split)

lemma persisted_inv:
  assumes "file_inv s" and "spool_ok (snd candidate)"
  shows "file_inv (snd (persisted fault candidate s))"
  using assms persisted_cases [OF assms(2), of s fault]
  by (auto simp: file_inv_def Let_def split: sum.splits)

lemma durable_iff:
  "durable s i = Some e \<longleftrightarrow> (\<exists>d. on_disk s = Inr d \<and> retains d i = Some e) \<and> retains (fr_spool s) i = Some e"
  by (auto simp: durable_def split: sum.split)

lemma persisted_keeps:
  assumes "durable s i = Some e" and "spool_ok (snd candidate)" and "retains (snd candidate) i = Some e"
    and "own_temporary (fr_path s)"
  shows "durable (snd (persisted fault candidate s)) i = Some e"
  using assms persisted_cases [OF assms(2,4), of fault]
  by (auto simp: durable_iff Let_def split: sum.splits)

lemma retry_with_backoff_persisted:
  "\<exists>candidate. snd (retry_with_backoff fault i now s) = snd (persisted fault (candidate :: (u64, relay_spool) relay_result) s)
     \<and> retains (snd candidate) = retains (fr_spool s) \<and> (spool_ok (fr_spool s) \<longrightarrow> spool_ok (snd candidate))"
proof (cases "bt_get (fr_spool s) i")
  case None
  then show ?thesis
    by (intro exI [of _ "(Inl UnknownEnvelope, fr_spool s)"]) (simp add: retry_with_backoff_def persisted_def)
next
  case (Some entry)
  let ?t = "saturating_add now (backoff_ns (se_attempts entry))"
  let ?c = "retry_later i ?t (fr_spool s)"
  from Some show ?thesis
    by (intro exI [of _ "(map_ok (\<lambda>_. ?t) (fst ?c), snd ?c)"])
      (simp add: retry_with_backoff_def Let_def retry_later_ok case_prod_unfold)
qed

lemma on_disk_next [simp]: "on_disk (snd (file_next_delivery now s)) = on_disk s"
  by (simp add: on_disk_eq file_next_delivery_def split: prod.split)

lemma fr_path_next [simp]: "fr_path (snd (file_next_delivery now s)) = fr_path s"
  by (simp add: file_next_delivery_def split: prod.split)

lemma fr_spool_next [simp]: "fr_spool (snd (file_next_delivery now s)) = snd (next_delivery now (fr_spool s))"
  by (simp add: file_next_delivery_def split: prod.split)

lemma decoded_disk_ok: "on_disk s = Inr d \<Longrightarrow> spool_ok d"
  by (auto simp: on_disk_eq split: option.splits dest: decode_spool_ok)

lemma reopen_disk:
  assumes "on_disk s = Inr d"
  shows "fr_spool (run_file Reopen s) = d \<and> on_disk (run_file Reopen s) = Inr d \<and> fr_path (run_file Reopen s) = fr_path s"
  using assms by (auto simp: on_disk_eq FileRelaySpool_open_def rbind_def split: sum.splits)

lemma file_inv_run: "file_inv s \<Longrightarrow> file_valid op \<Longrightarrow> file_inv (run_file op s)"
proof (cases op)
  case (RetryWithBackoff fault i now)
  assume inv: "file_inv s"
  obtain candidate :: "(u64, relay_spool) relay_result" where
    c: "snd (retry_with_backoff fault i now s) = snd (persisted fault candidate s)" "spool_ok (snd candidate)"
    using retry_with_backoff_persisted [of fault i now s] inv by (auto simp: file_inv_def)
  then show ?thesis using persisted_inv [OF inv c(2)] RetryWithBackoff by simp
next
  case Reopen
  assume "file_inv s"
  then show ?thesis using reopen_disk [of s] decoded_disk_ok [of s] Reopen by (auto simp: file_inv_def)
next
  case (FileNextDelivery now)
  assume "file_inv s"
  then show ?thesis using FileNextDelivery by (simp add: file_inv_def next_delivery_ok)
next
  case (FileEnqueue fault e now)
  assume "file_inv s" "file_valid op"
  then show ?thesis
    using FileEnqueue persisted_inv [of s "enqueue e now (fr_spool s)"] by (simp add: file_enqueue_def enqueue_ok file_inv_def)
next
  case (FileAcknowledge fault i key)
  assume "file_inv s"
  then show ?thesis
    using FileAcknowledge persisted_inv [of s "acknowledge i key (fr_spool s)"]
    by (simp add: file_acknowledge_def acknowledge_ok file_inv_def)
qed

lemma run_file_keeps:
  assumes inv: "file_inv s" and v: "file_valid op" and d: "durable s i = Some e"
    and a: "file_acks op \<noteq> Some (i, oe_idempotency_key e)"
  shows "durable (run_file op s) i = Some e"
proof -
  have mem: "retains (fr_spool s) i = Some e" and ok: "spool_ok (fr_spool s)" and own: "own_temporary (fr_path s)"
    using inv d by (simp_all add: durable_iff file_inv_def)
  show ?thesis
  proof (cases op)
    case (FileEnqueue fault e' now)
    then show ?thesis
      using v mem ok own d run_spool_keeps [OF mem, of "Enqueue e' now"]
      by (auto simp: file_enqueue_def enqueue_ok intro!: persisted_keeps)
  next
    case (FileAcknowledge fault j key)
    then show ?thesis
      using a mem ok own d run_spool_keeps [OF mem, of "Acknowledge j key"]
      by (auto simp: file_acknowledge_def acknowledge_ok intro!: persisted_keeps)
  next
    case (RetryWithBackoff fault j now)
    then show ?thesis
      using mem ok own d retry_with_backoff_persisted [of fault j now s] by (auto intro!: persisted_keeps)
  next
    case Reopen
    then show ?thesis using d reopen_disk [of s] by (auto simp: durable_iff)
  qed (use d in \<open>simp add: durable_iff\<close>)
qed

interpretation file_mailbox: mailbox file_inv file_valid durable run_file file_acks
  by unfold_locales (fact file_inv_run run_file_keeps)+

text \<open>A successful enqueue makes the envelope durable, and so at-least-once delivery holds from there.\<close>

lemma file_enqueue_retained:
  assumes "file_inv s" and "envelope_ok e" and "fst (file_enqueue fault e now s) = Inr ()"
    and "list_all file_valid ops" and "Some (oe_envelope_id e, oe_idempotency_key e) \<notin> file_acks ` set ops"
  shows "durable (fold run_file ops (snd (file_enqueue fault e now s))) (oe_envelope_id e) = Some e"
proof (rule file_mailbox.at_least_once [OF _ assms(4) _ assms(5)])
  have ok: "spool_ok (snd (enqueue e now (fr_spool s)))" using assms(1,2) by (simp add: file_inv_def enqueue_ok)
  then show "file_inv (snd (file_enqueue fault e now s))"
    using assms(1) by (simp add: file_enqueue_def persisted_inv)
  have "fst (enqueue e now (fr_spool s)) = Inr ()"
    using assms(3) by (auto simp: file_enqueue_def persisted_def split: prod.splits sum.splits)
  then show "durable (snd (file_enqueue fault e now s)) (oe_envelope_id e) = Some e"
    using persisted_cases [OF ok, of s fault] assms(1,3)
    by (auto simp: file_enqueue_def Let_def durable_iff retains_enqueue file_inv_def)
qed

section \<open>Retry delays\<close>

lemma unat_backoff_ns: "unat (backoff_ns attempts) = min (2 ^ min (unat attempts) 16) 300 * 1000000000"
proof -
  let ?n = "min (unat attempts) 16"
  have n: "unat (min attempts 16) = ?n" by (simp add: min_def word_le_nat_alt)
  have "(2 :: nat) ^ ?n \<le> 2 ^ 16" by (intro power_increasing) auto
  then have small: "(2 :: nat) ^ ?n \<le> 65536" by simp
  have pow: "unat (push_bit ?n (1 :: u64)) = 2 ^ ?n"
  proof -
    have "push_bit ?n (1 :: u64) = of_nat (2 ^ ?n)" by (simp add: push_bit_eq_mult)
    then show ?thesis using small by (simp only: unat_of_nat) simp
  qed
  have "unat (saturating_mul (1000000000 :: u64) (push_bit ?n 1)) = 1000000000 * 2 ^ ?n"
    unfolding unat_saturating_mul pow using small by simp
  then show ?thesis
    unfolding backoff_ns_def n by (simp add: min_def word_le_nat_alt)
qed

section \<open>The hosted projection\<close>

text \<open>The abstract projection: the digests applied so far, in order, and whether it is frozen.\<close>

type_synonym digest_log = "bytes list \<times> bool"

definition log_ingest :: "verified_lifecycle_event \<Rightarrow> digest_log \<Rightarrow> projection_result \<times> digest_log" where
  "log_ingest event l = (let (digests, frozen) = l; n = unat (vl_sequence event) in
     if frozen then (FrozenGap, l)
     else if n = length digests + 1 then (Applied, digests @ [vl_event_digest event], False)
     else if 1 \<le> n \<and> n \<le> length digests \<and> digests ! (n - 1) = vl_event_digest event then (Duplicate, l)
     else (FrozenGap, digests, True))"

definition log_of :: "projection_chain \<Rightarrow> digest_log" where
  "log_of c = (map snd (pj_applied c), pj_frozen_gap c)"

definition numbered :: "bytes list \<Rightarrow> (u64, bytes) btree" where
  "numbered digests = map (\<lambda>k. (of_nat (Suc k), digests ! k)) [0..<length digests]"

text \<open>The sequence numbers of the applied events are 1, 2, up to the next one expected.\<close>

definition chain_inv :: "projection_chain \<Rightarrow> bool" where
  "chain_inv c \<longleftrightarrow> pj_applied c = numbered (map snd (pj_applied c))
     \<and> unat (next_sequence c) = Suc (length (pj_applied c))"

lemma unat_of_nat_small: "n < 2 ^ 64 \<Longrightarrow> unat (of_nat n :: u64) = n"
  by (simp add: unat_of_nat)

lemma chain_inv_default [simp]: "chain_inv ProjectionChain_default"
  by (simp add: chain_inv_def ProjectionChain_default_def numbered_def next_sequence_def)

lemma numbered_snoc: "numbered (digests @ [d]) = numbered digests @ [(of_nat (Suc (length digests)), d)]"
  by (simp add: numbered_def nth_append)

lemma map_snd_numbered [simp]: "map snd (numbered digests) = digests"
  by (simp add: numbered_def o_def map_nth)

lemma length_numbered [simp]: "length (numbered digests) = length digests"
  by (simp add: numbered_def)

lemma set_numbered:
  "set (numbered digests) = {(of_nat (Suc k), digests ! k) | k. k < length digests}"
  by (auto simp: numbered_def)

lemma numbered_wf: "length digests < 2 ^ 64 \<Longrightarrow> bt_wf (numbered digests)"
proof (induction digests rule: rev_induct)
  case (snoc d digests)
  have "k < of_nat (Suc (length digests))" if "k \<in> fst ` set (numbered digests)" for k
    using that snoc.prems by (auto simp: set_numbered word_less_nat_alt unat_of_nat_small simp del: of_nat_Suc)
  with snoc show ?case
    by (simp add: bt_wf_def numbered_snoc sorted_wrt_append del: of_nat_Suc)
qed (simp add: numbered_def bt_wf_def)

lemma bt_get_numbered:
  assumes "length digests < 2 ^ 64"
  shows "bt_get (numbered digests) i = Some d \<longleftrightarrow> 1 \<le> unat i \<and> unat i \<le> length digests \<and> digests ! (unat i - 1) = d"
proof -
  have "bt_get (numbered digests) i = Some d \<longleftrightarrow> (\<exists>k<length digests. i = of_nat (Suc k) \<and> digests ! k = d)"
    using set_numbered [of digests] unfolding bt.set_entries [OF numbered_wf [OF assms]]
    by (simp add: set_eq_iff del: of_nat_Suc) metis
  also have "\<dots> \<longleftrightarrow> 1 \<le> unat i \<and> unat i \<le> length digests \<and> digests ! (unat i - 1) = d" (is "?l \<longleftrightarrow> ?r")
  proof
    assume ?l then show ?r using assms by (auto simp: unat_of_nat_small simp del: of_nat_Suc)
  next
    assume ?r then show ?l by (intro exI [of _ "unat i - 1"]) auto
  qed
  finally show ?thesis .
qed

lemma bt_insert_numbered:
  assumes "Suc (length digests) < 2 ^ 64"
  shows "bt_insert (of_nat (Suc (length digests))) d (numbered digests) = numbered (digests @ [d])"
proof -
  have "\<forall>k\<in>fst ` set (numbered digests). k < of_nat (Suc (length digests))"
    using assms by (auto simp: set_numbered word_less_nat_alt unat_of_nat_small simp del: of_nat_Suc)
  from bt_insert_snoc [OF this] show ?thesis by (simp add: numbered_snoc)
qed

lemma chain_inv_expected:
  assumes "chain_inv c"
  shows "next_sequence c = of_nat (Suc (length (pj_applied c)))" and "Suc (length (pj_applied c)) < 2 ^ 64"
proof -
  have n: "unat (next_sequence c) = Suc (length (pj_applied c))" using assms by (simp add: chain_inv_def)
  then show small: "Suc (length (pj_applied c)) < 2 ^ 64"
    using unsigned_less [of "next_sequence c", where 'a = nat] by simp
  show "next_sequence c = of_nat (Suc (length (pj_applied c)))"
    using n small by (simp add: word_unat_eq_iff unat_of_nat_small del: of_nat_Suc)
qed

lemma ingest_refines:
  assumes inv: "chain_inv c" and room: "next_sequence c \<noteq> - 1"
  shows "fst (ingest event c) = fst (log_ingest event (log_of c))"
    and "log_of (snd (ingest event c)) = snd (log_ingest event (log_of c))"
    and "chain_inv (snd (ingest event c))"
proof -
  let ?digests = "map snd (pj_applied c)"
  have app: "pj_applied c = numbered ?digests" and next_n: "unat (next_sequence c) = Suc (length ?digests)"
    using inv by (simp_all add: chain_inv_def)
  note small = chain_inv_expected(2) [OF inv]
  have get: "bt_get (pj_applied c) i = Some d \<longleftrightarrow> 1 \<le> unat i \<and> unat i \<le> length ?digests \<and> ?digests ! (unat i - 1) = d" for i d
    using bt_get_numbered [of ?digests i d] small app by simp
  have ins: "bt_insert (next_sequence c) d (pj_applied c) = numbered (?digests @ [d])" for d
    using bt_insert_numbered [of ?digests d] small app chain_inv_expected(1) [OF inv] by (simp del: of_nat_Suc)
  have ins': "bt_insert i d (pj_applied c) = numbered (?digests @ [d])" if "unat i = Suc (length (pj_applied c))" for i d
    using ins that next_n by (metis length_map word_unat_eq_iff)
  have "unat (next_sequence c) \<noteq> unat (- 1 :: u64)" using room by (simp add: word_unat_eq_iff)
  then have "unat (next_sequence c) < 2 ^ 64 - 1"
    using unsigned_less [of "next_sequence c", where 'a = nat]
    by (simp add: unsigned_minus_1_eq_mask mask_eq_exp_minus_1)
  then have succ: "unat (saturating_add (next_sequence c) 1) = Suc (Suc (length ?digests))"
    using room next_n by (simp add: unat_saturating_add)
  have seq: "vl_sequence event = next_sequence c \<longleftrightarrow> unat (vl_sequence event) = Suc (length ?digests)"
    using next_n by (simp add: word_unat_eq_iff)
  have less: "vl_sequence event < next_sequence c \<longleftrightarrow> unat (vl_sequence event) < Suc (length ?digests)"
    using next_n by (simp add: word_less_nat_alt)
  show "fst (ingest event c) = fst (log_ingest event (log_of c))"
    by (auto simp: ingest_def log_ingest_def log_of_def Let_def seq less get)
  show "log_of (snd (ingest event c)) = snd (log_ingest event (log_of c))"
    by (auto simp: ingest_def log_ingest_def log_of_def Let_def seq less get ins')
  have "next_sequence (c\<lparr>pj_applied := a, pj_next_sequence := saturating_add (next_sequence c) 1\<rparr>) = saturating_add (next_sequence c) 1" for a
    using succ by (auto simp: next_sequence_def)
  then have applied: "chain_inv (c\<lparr>pj_applied := numbered (?digests @ [d]), pj_next_sequence := saturating_add (next_sequence c) 1\<rparr>)" for d
    using succ by (simp add: chain_inv_def)
  have frozen: "chain_inv (c\<lparr>pj_frozen_gap := b\<rparr>)" for b using inv unfolding chain_inv_def next_sequence_def by auto
  show "chain_inv (snd (ingest event c))"
    using inv applied frozen by (simp add: ingest_def Let_def ins)
qed

text \<open>A restore applies its events in order, from sequence one.\<close>

lemma ingest_applied:
  assumes "chain_inv c" and "next_sequence c \<noteq> - 1" and "\<not> pj_frozen_gap c"
  shows "fst (ingest event c) = Applied \<longleftrightarrow> unat (vl_sequence event) = Suc (length (pj_applied c))"
  by (simp add: ingest_refines(1) [OF assms(1,2)] log_ingest_def log_of_def assms(3) Let_def)

lemma next_sequence_room:
  assumes "chain_inv c" and "Suc (length (pj_applied c)) < 2 ^ 64 - 1"
  shows "next_sequence c \<noteq> - 1"
  using assms by (auto simp: chain_inv_def unsigned_minus_1_eq_mask mask_eq_exp_minus_1)

lemma restore_loop_spec:
  assumes "chain_inv c" and "\<not> pj_frozen_gap c" and "length (pj_applied c) + length events < 2 ^ 64 - 1"
  shows "if map (unat \<circ> vl_sequence) events = [Suc (length (pj_applied c))..<Suc (length (pj_applied c) + length events)]
     then \<exists>c'. restore_loop events c = Inr c' \<and> chain_inv c'
       \<and> log_of c' = (fst (log_of c) @ map vl_event_digest events, False)
     else restore_loop events c = Inl SequenceGap"
  using assms
proof (induction events arbitrary: c)
  case Nil
  then show ?case by (simp add: log_of_def)
next
  case (Cons event events)
  let ?n = "length (pj_applied c)"
  have room: "next_sequence c \<noteq> - 1" using Cons.prems by (intro next_sequence_room) auto
  note applied = ingest_applied [OF Cons.prems(1) room Cons.prems(2)]
  have upt: "[Suc ?n..<Suc (Suc (?n + length events))] = Suc ?n # [Suc (Suc ?n)..<Suc (Suc (?n + length events))]"
    by (simp add: upt_conv_Cons del: upt_Suc)
  show ?case
  proof (cases "unat (vl_sequence event) = Suc ?n")
    case False
    then show ?thesis using applied by (simp add: case_prod_beta upt del: upt_Suc)
  next
    case True
    define c' where "c' = snd (ingest event c)"
    have step: "ingest event c = (Applied, c')" using applied True by (simp add: c'_def prod_eq_iff)
    have log: "log_of c' = (map snd (pj_applied c) @ [vl_event_digest event], False)"
      using ingest_refines(2) [OF Cons.prems(1) room, of event] True Cons.prems(2)
      by (simp add: c'_def log_ingest_def log_of_def Let_def)
    then have len: "length (pj_applied c') = Suc ?n" and fr: "\<not> pj_frozen_gap c'"
      by (auto simp: log_of_def dest: arg_cong [where f = length])
    have inv: "chain_inv c'" using ingest_refines(3) [OF Cons.prems(1) room, of event] by (simp add: c'_def)
    show ?thesis
      using Cons.IH [OF inv fr] Cons.prems(3) log len True
      by (auto simp: step upt log_of_def simp del: upt_Suc split: if_splits)
  qed
qed

lemma restore_contiguous_spec:
  assumes "length events < 2 ^ 64 - 1"
  shows "if map (unat \<circ> vl_sequence) events = [1..<Suc (length events)]
     then fst (restore_contiguous events c) = Inr () \<and> chain_inv (snd (restore_contiguous events c))
       \<and> log_of (snd (restore_contiguous events c)) = (map vl_event_digest events, False)
     else restore_contiguous events c = (Inl SequenceGap, c)"
  using restore_loop_spec [OF chain_inv_default, of events] assms
  by (auto simp: restore_contiguous_def ProjectionChain_default_def log_of_def simp del: upt_Suc split: if_splits)

end
