(* ===== verification/Relay_Properties.thy ===== *)
theory Relay_Properties
  imports Relay_Delivery
begin

text \<open>
  What the relay promises: snapshots read back, at-least-once delivery across failed writes and restarts,
  all-or-nothing writes, bounded retry delays, and a projection that is an append-only log.
\<close>

section \<open>A spool on disk with one envelope\<close>

definition demo_envelope :: "u8 \<Rightarrow> bytes \<Rightarrow> opaque_envelope" where
  "demo_envelope i payload = \<lparr>oe_envelope_id = replicate 16 i, oe_direction = BrokerToService, oe_kind = KindRequest,
     oe_idempotency_key = replicate 32 i, oe_payload = payload\<rparr>"

definition empty_file :: file_relay_spool where
  "empty_file = \<lparr>fr_path = \<lparr>pa_parent = str ''/s'', pa_stem = str ''q'', pa_extension = None\<rparr>, fr_disk = (\<lambda>_. None), fr_spool = bt_empty\<rparr>"

lemma demo_file_inv: "file_inv empty_file"
  by (simp add: file_inv_def empty_file_def on_disk_eq own_temporary_def)

lemma demo_envelope_ok: "length payload \<le> 262144 \<Longrightarrow> envelope_ok (demo_envelope i payload)"
  by (simp add: envelope_ok_def demo_envelope_def)

lemma demo_enqueue: "fst (file_enqueue None (demo_envelope i payload) now empty_file) = Inr ()"
  by (simp add: run empty_file_def demo_envelope_def)

section \<open>Properties\<close>

text \<open>C32: The snapshot of a spool reads back to that spool exactly when the spool is well formed: at most
  4096 entries, each keyed by its own 16-byte id, in a direction its kind permits and within the payload
  limit. No snapshot reads back to any other kind of spool.\<close>

theorem spool_snapshot_roundtrip:
  "decode_spool (encode_spool spool) = Inr spool \<longleftrightarrow> spool_ok spool"
  using decode_encode_spool decode_spool_ok by blast

text \<open>C27: At-least-once delivery. Once \<^verbatim>\<open>FileRelaySpool::enqueue\<close> has returned success, the envelope is
  retained in memory and in the file through every sequence of later operations, failed writes and
  restarts, until it is acknowledged with its id and its own idempotency key. All envelopes are ones that
  \<^verbatim>\<open>OpaqueEnvelope::new\<close> accepts, and the path of the spool does not have the extension of its temporary file.\<close>

theorem enqueued_until_acknowledged:
  assumes "file_inv s" and "envelope_ok e" and "fst (file_enqueue fault e now s) = Inr ()"
    and "list_all file_valid ops" and "Some (oe_envelope_id e, oe_idempotency_key e) \<notin> file_acks ` set ops"
  shows "durable (fold run_file ops (snd (file_enqueue fault e now s))) (oe_envelope_id e) = Some e"
  using assms by (rule file_enqueue_retained)

theorem enqueued_until_acknowledged_witness:
  "durable (fold run_file
      [FileNextDelivery 5, FileEnqueue (Some (WriteAll 3, [])) (demo_envelope 2 []) 6, FileAcknowledge None (replicate 16 1) (replicate 32 0),
       Reopen, RetryWithBackoff None (replicate 16 1) 7]
      (snd (file_enqueue None (demo_envelope 1 [7, 8, 9]) 4 empty_file)))
     (replicate 16 1) = Some (demo_envelope 1 [7, 8, 9])"
  using enqueued_until_acknowledged [OF demo_file_inv demo_envelope_ok demo_enqueue, of "[7, 8, 9]"
    "[FileNextDelivery 5, FileEnqueue (Some (WriteAll 3, [])) (demo_envelope 2 []) 6, FileAcknowledge None (replicate 16 1) (replicate 32 0),
      Reopen, RetryWithBackoff None (replicate 16 1) 7]" 1 4] demo_envelope_ok [of "[]" 2]
  by (simp add: demo_envelope_def)

text \<open>A writing operation of the file spool is all or nothing. On success memory and file both hold the
  new spool; on any failure memory is unchanged and the file holds the old or the new snapshot, never a
  partial one.\<close>

theorem spool_write_atomic:
  assumes "spool_ok (fr_spool s)" and "envelope_ok e" and "own_temporary (fr_path s)"
  shows "case file_enqueue fault e now s of
     (Inr _, s') \<Rightarrow> enqueue e now (fr_spool s) = (Inr (), fr_spool s') \<and> on_disk s' = Inr (fr_spool s')
   | (Inl _, s') \<Rightarrow> fr_spool s' = fr_spool s
       \<and> (on_disk s' = on_disk s \<or> on_disk s' = Inr (snd (enqueue e now (fr_spool s))))"
proof -
  have ok: "spool_ok (snd (enqueue e now (fr_spool s)))" using assms(1,2) by (rule enqueue_ok)
  have "fst (file_enqueue fault e now s) = Inr u \<Longrightarrow> fst (enqueue e now (fr_spool s)) = Inr ()" for u
    by (auto simp: file_enqueue_def persisted_def split: prod.splits sum.splits)
  then show ?thesis
    using persisted_cases [OF ok assms(3), of fault]
    by (auto simp: file_enqueue_def Let_def prod_eq_iff split: prod.split sum.split)
qed

theorem spool_write_atomic_witness:
  "fst (file_enqueue (Some (SyncDirectory, [])) (demo_envelope 1 []) 0 empty_file) = Inl (Storage [])
   \<and> fr_spool (snd (file_enqueue (Some (SyncDirectory, [])) (demo_envelope 1 []) 0 empty_file)) = bt_empty"
proof -
  have fail: "fst (file_enqueue (Some (SyncDirectory, [])) (demo_envelope 1 []) 0 empty_file) = Inl (Storage [])"
    by (simp add: run empty_file_def demo_envelope_def)
  with spool_write_atomic [where s = empty_file and e = "demo_envelope 1 []" and fault = "Some (SyncDirectory, [])" and now = 0] demo_envelope_ok [of "[]" 1]
  show ?thesis by (auto simp: empty_file_def own_temporary_def case_prod_beta split: sum.splits)
qed

text \<open>C33: A retry is scheduled after an exponential delay of 1 s doubled per delivery attempt, capped at 300 s,
  saturating at the end of the clock; so a deadline is never more than 300 s ahead and never in the past.\<close>

theorem retry_deadline_bounds:
  assumes "fst (retry_with_backoff fault i now s) = Inr t"
  shows "\<exists>entry. bt_get (fr_spool s) i = Some entry
     \<and> unat t = min (unat now + min (2 ^ unat (se_attempts entry)) 300 * 1000000000) (2 ^ 64 - 1)
     \<and> now \<le> t \<and> unat t \<le> unat now + 300000000000"
proof -
  obtain entry where e: "bt_get (fr_spool s) i = Some entry" and t: "t = saturating_add now (backoff_ns (se_attempts entry))"
    using assms
    by (auto simp: retry_with_backoff_def persisted_def persist_def retry_later_def Let_def split: option.splits prod.splits sum.splits)
  have "min ((2 :: nat) ^ min (unat (se_attempts entry)) 16) 300 = min (2 ^ unat (se_attempts entry)) 300"
  proof (cases "unat (se_attempts entry) \<le> 16")
    case False
    then have "(2 :: nat) ^ 16 \<le> 2 ^ unat (se_attempts entry)" by (intro power_increasing) auto
    with False show ?thesis by simp
  qed simp
  then have u: "unat t = min (unat now + min (2 ^ unat (se_attempts entry)) 300 * 1000000000) (2 ^ 64 - 1)"
    by (simp add: t unat_saturating_add unat_backoff_ns)
  moreover have "unat now \<le> 2 ^ 64 - 1" using unsigned_less [of now, where 'a = nat] by simp
  ultimately show ?thesis using e by (auto simp: word_le_nat_alt)
qed

theorem retry_deadline_bounds_witness:
  "\<exists>entry. bt_get (fr_spool (snd (file_enqueue None (demo_envelope 1 []) 4 empty_file))) (replicate 16 1) = Some entry
     \<and> unat (1000000007 :: u64) = min (unat (7 :: u64) + min (2 ^ unat (se_attempts entry)) 300 * 1000000000) (2 ^ 64 - 1)"
  using retry_deadline_bounds [of None "replicate 16 1" 7 "snd (file_enqueue None (demo_envelope 1 []) 4 empty_file)" 1000000007]
  by (auto simp: run empty_file_def demo_envelope_def)

text \<open>C31: The hosted projection implements an append-only log of event digests: an event is applied when its
  sequence number is the next one, is a duplicate when its digest is the one already at that position, and
  anything else freezes the projection, which then refuses every event.\<close>

theorem projection_refines_log:
  assumes "chain_inv c" and "next_sequence c \<noteq> - 1"
  shows "map_prod id log_of (ingest event c) = log_ingest event (log_of c) \<and> chain_inv (snd (ingest event c))"
  using ingest_refines [OF assms] by (simp add: map_prod_def prod_eq_iff case_prod_beta)

theorem projection_refines_log_witness:
  "map_prod id log_of (ingest \<lparr>vl_sequence = 1, vl_event_digest = [3]\<rparr> ProjectionChain_default)
     = (Applied, [[3]], False)"
  using projection_refines_log [OF chain_inv_default, of "\<lparr>vl_sequence = 1, vl_event_digest = [3]\<rparr>"]
  by (simp add: next_sequence_def ProjectionChain_default_def log_of_def log_ingest_def)

text \<open>A restore succeeds exactly on the events numbered 1, 2, ..., n, and then the projection holds
  their digests and is no longer frozen; on any other sequence it reports the gap and keeps its state.\<close>

theorem restore_exact:
  assumes "length events < 2 ^ 64 - 1"
  shows "if map (unat \<circ> vl_sequence) events = [1..<Suc (length events)]
     then fst (restore_contiguous events c) = Inr () \<and> chain_inv (snd (restore_contiguous events c))
       \<and> log_of (snd (restore_contiguous events c)) = (map vl_event_digest events, False)
     else restore_contiguous events c = (Inl SequenceGap, c)"
  using assms by (rule restore_contiguous_spec)

theorem restore_exact_witness:
  "log_of (snd (restore_contiguous [\<lparr>vl_sequence = 1, vl_event_digest = [3]\<rparr>, \<lparr>vl_sequence = 2, vl_event_digest = [4]\<rparr>]
     (ProjectionChain_default\<lparr>pj_frozen_gap := True\<rparr>))) = ([[3], [4]], False)"
  using restore_exact [of "[\<lparr>vl_sequence = 1, vl_event_digest = [3]\<rparr>, \<lparr>vl_sequence = 2, vl_event_digest = [4]\<rparr>]" "ProjectionChain_default\<lparr>pj_frozen_gap := True\<rparr>"]
  by simp

text \<open>\<^verbatim>\<open>enqueue\<close> does not validate: an envelope whose public fields were set past the checks of
  \<^verbatim>\<open>OpaqueEnvelope::new\<close> (too large, or of a kind its direction forbids) is accepted and written, and the
  snapshot file can never be opened again, with every other envelope in it.\<close>

theorem unchecked_envelope_corrupts_spool:
  assumes "spool_ok (fr_spool s)" and "\<not> envelope_ok e"
    and "length (oe_envelope_id e) = 16" and "length (oe_idempotency_key e) = 32" and "length (oe_payload e) < 2 ^ 32"
    and "fst (file_enqueue None e now s) = Inr ()" and "own_temporary (fr_path s)"
  shows "on_disk (snd (file_enqueue None e now s)) = Inl CorruptSpool"
proof -
  let ?entry = "\<lparr>se_envelope = e, se_attempts = 0, se_next_attempt_mono_ns = now\<rparr>"
  have fresh: "bt_get (fr_spool s) (oe_envelope_id e) = None" "length (fr_spool s) < 4096"
    and s': "snd (file_enqueue None e now s) =
      s\<lparr>fr_disk := snd (persist None (fr_path s) (bt_insert (oe_envelope_id e) ?entry (fr_spool s)) (fr_disk s)),
        fr_spool := bt_insert (oe_envelope_id e) ?entry (fr_spool s)\<rparr>"
    using assms(6) by (auto simp: file_enqueue_def persisted_def persist_def enqueue_def Let_def split: if_splits)
  show ?thesis
    using decode_encode_bad_spool [OF assms(1) fresh(2,1), of ?entry] assms(2-5)
    by (simp add: s' on_disk_eq persist_content [OF assms(7)])
qed

theorem unchecked_envelope_corrupts_spool_witness:
  "on_disk (snd (file_enqueue None (demo_envelope 1 (replicate 262145 0)) 0 empty_file)) = Inl CorruptSpool"
  using unchecked_envelope_corrupts_spool [OF _ _ _ _ _ demo_enqueue, of "1" "replicate 262145 0" 0]
  by (simp add: empty_file_def envelope_ok_def demo_envelope_def own_temporary_def)

text \<open>A spool whose own path has the extension \<^verbatim>\<open>tmp\<close> is its temporary file: \<^verbatim>\<open>File::create\<close> truncates the live
  snapshot, and when the write then fails, all retained envelopes are lost at the next start.\<close>

theorem shared_temporary_corrupts_spool:
  assumes "pa_extension (fr_path s) = Some (str ''tmp'')" and "fst (enqueue e now (fr_spool s)) = Inr ()" and "n < 8"
  shows "on_disk (snd (file_enqueue (Some (WriteAll n, error)) e now s)) = Inl CorruptSpool"
proof -
  have same: "with_extension (fr_path s) (str ''tmp'') = fr_path s"
    using assms(1) by (cases "fr_path s") (simp add: with_extension_def)
  have short: "decode_spool (take n b) = Inl CorruptSpool" for b
    using assms(3) by (simp add: decode_spool_def read_exact_def rbind_def)
  obtain spool where run_enqueue: "enqueue e now (fr_spool s) = (Inr (), spool)"
    using assms(2) by (cases "enqueue e now (fr_spool s)") simp
  show ?thesis
    by (simp add: file_enqueue_def run_enqueue persisted_def persist_def same on_disk_eq short Let_def)
qed

theorem shared_temporary_corrupts_spool_witness:
  "on_disk (snd (file_enqueue (Some (WriteAll 0, [])) (demo_envelope 1 []) 0
     (empty_file\<lparr>fr_path := \<lparr>pa_parent = [], pa_stem = str ''q'', pa_extension = Some (str ''tmp'')\<rparr>\<rparr>))) = Inl CorruptSpool"
  by (rule shared_temporary_corrupts_spool) (simp_all add: run empty_file_def demo_envelope_def)

end
