(* ===== verification/Relay_Rounds.thy ===== *)
theory Relay_Rounds
  imports Relay_Properties
begin

text \<open>
  Progress of the relay of \<^verbatim>\<open>crates/rp-relay/src/lib.rs\<close>. A delivery attempt takes what \<^verbatim>\<open>next_delivery\<close> claims
  and, as long as no acknowledgement comes, schedules its retry with \<^verbatim>\<open>retry_with_backoff\<close>. A round of attempts
  at one time offers every ready envelope once; attempts far apart offer only the lowest one.
\<close>

section \<open>Attempts\<close>

definition try_one :: "u64 \<Rightarrow> file_relay_spool \<Rightarrow> opaque_envelope option \<times> file_relay_spool" where
  [run]: "try_one now s =
     (case file_next_delivery now s of
        (None, s) \<Rightarrow> (None, s)
      | (Some attempt, s) \<Rightarrow>
          (Some (da_envelope attempt), snd (retry_with_backoff None (oe_envelope_id (da_envelope attempt)) now s)))"

text \<open>Attempts at one time, until nothing is ready or after \<open>n\<close> of them.\<close>

fun delivery_round :: "nat \<Rightarrow> u64 \<Rightarrow> file_relay_spool \<Rightarrow> opaque_envelope list \<times> file_relay_spool" where
  "delivery_round 0 now s = ([], s)"
| "delivery_round (Suc n) now s =
     (case try_one now s of
        (None, s) \<Rightarrow> ([], s)
      | (Some e, s) \<Rightarrow> (case delivery_round n now s of (es, s) \<Rightarrow> (e # es, s)))"

text \<open>One attempt at each of several times.\<close>

fun polls :: "u64 list \<Rightarrow> file_relay_spool \<Rightarrow> opaque_envelope option list" where
  "polls [] s = []"
| "polls (now # nows) s = (case try_one now s of (e, s) \<Rightarrow> e # polls nows s)"

definition due :: "u64 \<Rightarrow> relay_spool \<Rightarrow> relay_spool" where
  "due now spool = filter (\<lambda>(_, entry). se_next_attempt_mono_ns entry \<le> now) spool"

section \<open>One attempt\<close>

lemma bt_adjust_split:
  "i \<notin> fst ` set (pre @ post) \<Longrightarrow> bt_adjust i f (pre @ (i, e) # post) = pre @ (i, f e) # post"
  by (auto simp: bt_adjust_def intro!: map_idI) (force+)

lemma bt_get_split: "i \<notin> fst ` set pre \<Longrightarrow> bt_get (pre @ (i, e) # post) i = Some e"
  by (auto simp: bt_get_def map_add_def dom_map_of_conv_image_fst split: option.split dest: map_of_SomeD)
     (metis fst_conv image_eqI map_of_SomeD)

lemma bt_wf_split: "bt_wf (pre @ (i, e) # post) \<Longrightarrow> i \<notin> fst ` set (pre @ post)"
  by (auto simp: bt_wf_def sorted_wrt_append)

lemma find_first: "\<forall>x\<in>set pre. \<not> P x \<Longrightarrow> P y \<Longrightarrow> find P (pre @ y # post) = Some y"
  by (induction pre) auto

lemma next_delivery_idle: "due now spool = [] \<Longrightarrow> next_delivery now spool = (None, spool)"
proof -
  assume "due now spool = []"
  then have "find (\<lambda>(_, entry). se_next_attempt_mono_ns entry \<le> now) spool = None"
    by (auto simp: find_None_iff due_def filter_empty_conv)
  then show ?thesis by (simp add: next_delivery_def)
qed

lemma try_one_idle: "due now (fr_spool s) = [] \<Longrightarrow> try_one now s = (None, s)"
  by (simp add: try_one_def file_next_delivery_def next_delivery_idle)

text \<open>The first ready entry is offered and delayed; the others stay as they are.\<close>

lemma try_one_first:
  assumes "spool_ok (fr_spool s)" and spool: "fr_spool s = pre @ (i, e) # post"
    and pre: "due now pre = []" and e: "se_next_attempt_mono_ns e \<le> now" and now: "now \<noteq> - 1"
  shows "\<exists>e'. fst (try_one now s) = Some (se_envelope e) \<and> fr_spool (snd (try_one now s)) = pre @ (i, e') # post
     \<and> se_envelope e' = se_envelope e \<and> now < se_next_attempt_mono_ns e'
     \<and> unat (se_next_attempt_mono_ns e') \<le> unat now + 300000000000"
proof -
  let ?e1 = "e\<lparr>se_attempts := saturating_add (se_attempts e) 1\<rparr>"
  let ?t = "saturating_add now (backoff_ns (se_attempts ?e1))"
  have "bt_wf (pre @ (i, e) # post)" using assms(1) spool by (simp add: spool_ok_def)
  then have fresh: "i \<notin> fst ` set (pre @ post)" by (rule bt_wf_split)
  then have "bt_get (fr_spool s) i = Some e" unfolding spool by (intro bt_get_split) auto
  then have id: "oe_envelope_id (se_envelope e) = i" using assms(1) by (auto simp: spool_ok_def entry_ok_def)
  have "find (\<lambda>(_, entry). se_next_attempt_mono_ns entry \<le> now) (pre @ (i, e) # post) = Some (i, e)"
    using pre e by (intro find_first) (auto simp: due_def filter_empty_conv)
  then have claim: "file_next_delivery now s = (Some \<lparr>da_envelope = se_envelope e, da_attempts = saturating_add (se_attempts e) 1\<rparr>,
      s\<lparr>fr_spool := pre @ (i, ?e1) # post\<rparr>)"
    by (simp add: file_next_delivery_def next_delivery_def spool bt_adjust_split [OF fresh])
  have get: "bt_get (pre @ (i, ?e1) # post) i = Some ?e1" using fresh by (intro bt_get_split) auto
  have retry: "fr_spool (snd (retry_with_backoff None i now (s\<lparr>fr_spool := pre @ (i, ?e1) # post\<rparr>)))
      = pre @ (i, ?e1\<lparr>se_next_attempt_mono_ns := ?t\<rparr>) # post"
    by (simp add: retry_with_backoff_def get retry_later_def Let_def persisted_def persist_def bt_adjust_split [OF fresh])
  have "unat (backoff_ns (se_attempts ?e1)) \<ge> 1000000000" "unat (backoff_ns (se_attempts ?e1)) \<le> 300000000000"
    by (simp_all add: unat_backoff_ns)
  moreover have "unat now < 2 ^ 64 - 1"
  proof -
    have "unat now \<noteq> unat (- 1 :: u64)" using now unfolding word_unat_eq_iff .
    then show ?thesis using unsigned_less [of now, where 'a = nat]
      by (simp add: unsigned_minus_1_eq_mask mask_eq_exp_minus_1)
  qed
  ultimately have "now < ?t" "unat ?t \<le> unat now + 300000000000"
    by (auto simp: word_less_nat_alt unat_saturating_add)
  then show ?thesis
    using claim retry id by (intro exI [of _ "?e1\<lparr>se_next_attempt_mono_ns := ?t\<rparr>"]) (simp add: try_one_def)
qed

lemma try_one_inv: "file_inv s \<Longrightarrow> file_inv (snd (try_one now s)) \<and> retains (fr_spool (snd (try_one now s))) = retains (fr_spool s)"
proof -
  assume inv: "file_inv s"
  let ?s = "snd (file_next_delivery now s)"
  have s1: "file_inv ?s" "retains (fr_spool ?s) = retains (fr_spool s)"
    using file_inv_run [OF inv, of "FileNextDelivery now"] by simp_all
  have "file_inv (snd (retry_with_backoff None i now ?s)) \<and> retains (fr_spool (snd (retry_with_backoff None i now ?s))) = retains (fr_spool ?s)" for i
  proof -
    from retry_with_backoff_persisted [of None i now ?s] obtain candidate :: "(u64, relay_spool) relay_result" where
      c: "snd (retry_with_backoff None i now ?s) = snd (persisted None candidate ?s)"
        "retains (snd candidate) = retains (fr_spool ?s)" "spool_ok (fr_spool ?s) \<longrightarrow> spool_ok (snd candidate)" by blast
    then show ?thesis
      using persisted_inv [OF s1(1), of candidate] s1(1)
      by (auto simp: fr_spool_persisted file_inv_def split: sum.split)
  qed
  with s1 show ?thesis
    by (cases "file_next_delivery now s"; cases "fst (file_next_delivery now s)") (simp_all add: try_one_def)
qed

section \<open>Properties\<close>

lemma due_append: "due now (xs @ ys) = due now xs @ due now ys"
  by (simp add: due_def)

lemma try_one_due:
  assumes "file_inv s" and "due now (fr_spool s) = (i, e) # rest" and "now \<noteq> - 1"
  shows "fst (try_one now s) = Some (se_envelope e) \<and> due now (fr_spool (snd (try_one now s))) = rest
     \<and> length (fr_spool (snd (try_one now s))) = length (fr_spool s)"
proof -
  from assms(2) obtain pre post where
    split: "fr_spool s = pre @ (i, e) # post" "\<forall>u\<in>set pre. \<not> se_next_attempt_mono_ns (snd u) \<le> now"
      "se_next_attempt_mono_ns e \<le> now" "rest = due now post"
    unfolding due_def by (auto dest!: filter_eq_ConsD simp: case_prod_beta)
  have pre: "due now pre = []" using split(2) by (auto simp: due_def filter_empty_conv)
  have "spool_ok (fr_spool s)" using assms(1) by (simp add: file_inv_def)
  from try_one_first [OF this split(1) pre split(3) assms(3)] obtain e' where
    e': "fst (try_one now s) = Some (se_envelope e)" "fr_spool (snd (try_one now s)) = pre @ (i, e') # post"
      "now < se_next_attempt_mono_ns e'" by blast
  then show ?thesis using pre split(1,4) by (simp add: due_append) (simp add: due_def)
qed

text \<open>C28: a round of delivery attempts reaches everyone and ends. On any spool and at any time but the last
  representable one, attempting and rescheduling until \<^verbatim>\<open>next_delivery\<close> finds nothing takes at most as many
  attempts as there are envelopes, offers exactly the envelopes that were ready, each once and in the
  order of their ids, and keeps all of them retained.\<close>

theorem delivery_round_offers_all:
  assumes "file_inv s" and "now \<noteq> - 1" and "length (due now (fr_spool s)) \<le> n"
  shows "fst (delivery_round n now s) = map (\<lambda>(_, entry). se_envelope entry) (due now (fr_spool s))
     \<and> fst (next_delivery now (fr_spool (snd (delivery_round n now s)))) = None
     \<and> retains (fr_spool (snd (delivery_round n now s))) = retains (fr_spool s)"
  using assms(1,3)
proof (induction n arbitrary: s)
  case 0
  then show ?case by (simp add: next_delivery_idle)
next
  case (Suc n)
  show ?case
  proof (cases "due now (fr_spool s)")
    case Nil
    then show ?thesis by (simp add: next_delivery_idle try_one_idle)
  next
    case (Cons x rest)
    obtain i e where x: "x = (i, e)" by force
    obtain s' where s': "try_one now s = (Some (se_envelope e), s')" "due now (fr_spool s') = rest"
      using try_one_due [OF Suc.prems(1) Cons [unfolded x] assms(2)] by (metis prod.collapse)
    have inv: "file_inv s'" "retains (fr_spool s') = retains (fr_spool s)"
      using try_one_inv [OF Suc.prems(1), of now] s'(1) by simp_all
    have "length (due now (fr_spool s')) \<le> n" using Suc.prems(2) Cons s'(2) by simp
    from Suc.IH [OF inv(1) this] s' inv(2) Cons x show ?thesis by (auto split: prod.split)
  qed
qed

text \<open>Attempts that lie at least five minutes apart offer nobody else than the envelope with the lowest id, for
  as long as it is not acknowledged: by then its retry time, at most five minutes ahead, has always come
  again, and \<^verbatim>\<open>next_delivery\<close> prefers it.\<close>

theorem lowest_envelope_starves_others:
  assumes "file_inv s" and "fr_spool s = (i, e) # rest" and "ts \<noteq> []" and "se_next_attempt_mono_ns e \<le> hd ts"
    and "successively (\<lambda>a b. unat a + 300000000000 \<le> unat b) ts" and "- 1 \<notin> set ts"
  shows "polls ts s = replicate (length ts) (Some (se_envelope e))"
  using assms
proof (induction ts arbitrary: s e)
  case (Cons t ts)
  have ok: "spool_ok (fr_spool s)" using Cons.prems(1) by (simp add: file_inv_def)
  have "fr_spool s = [] @ (i, e) # rest" "due t [] = []" "se_next_attempt_mono_ns e \<le> t" "t \<noteq> - 1"
    using Cons.prems by (auto simp: due_def)
  from try_one_first [OF ok this] obtain e' where
    e': "fst (try_one t s) = Some (se_envelope e)" "fr_spool (snd (try_one t s)) = (i, e') # rest" "se_envelope e' = se_envelope e"
      "unat (se_next_attempt_mono_ns e') \<le> unat t + 300000000000" by auto
  have "polls ts (snd (try_one t s)) = replicate (length ts) (Some (se_envelope e'))"
  proof (cases "ts = []")
    case False
    then have "unat t + 300000000000 \<le> unat (hd ts)" using Cons.prems(5) by (simp add: successively_Cons)
    with e'(4) have "se_next_attempt_mono_ns e' \<le> hd ts" by (simp add: word_le_nat_alt)
    moreover have "file_inv (snd (try_one t s))" using try_one_inv [OF Cons.prems(1)] by blast
    ultimately show ?thesis
      using Cons.IH [OF _ e'(2) False] Cons.prems(5,6) False by (simp add: successively_Cons)
  qed simp
  with e' show ?case by (cases "try_one t s") simp
qed simp

definition demo_two :: file_relay_spool where
  [run]: "demo_two = snd (file_enqueue None (demo_envelope 2 []) 4 (snd (file_enqueue None (demo_envelope 1 []) 4 empty_file)))"

lemma demo_two_inv: "file_inv demo_two"
proof -
  have "file_inv (snd (file_enqueue None (demo_envelope 1 []) 4 empty_file))"
    using file_inv_run [OF demo_file_inv, of "FileEnqueue None (demo_envelope 1 []) 4"] demo_envelope_ok [of "[]" 1] by simp
  from file_inv_run [OF this, of "FileEnqueue None (demo_envelope 2 []) 4"] demo_envelope_ok [of "[]" 2] show ?thesis
    by (simp add: demo_two_def)
qed

lemma demo_two_spool: "fr_spool demo_two =
   [(replicate 16 1, \<lparr>se_envelope = demo_envelope 1 [], se_attempts = 0, se_next_attempt_mono_ns = 4\<rparr>),
    (replicate 16 2, \<lparr>se_envelope = demo_envelope 2 [], se_attempts = 0, se_next_attempt_mono_ns = 4\<rparr>)]"
proof -
  have "\<not> replicate 16 (2 :: u8) < replicate 16 1" by (simp add: numeral_eq_Suc)
  then show ?thesis by (simp add: run empty_file_def demo_envelope_def)
qed

theorem delivery_round_offers_all_witness:
  "fst (delivery_round 2 5 demo_two) = [demo_envelope 1 [], demo_envelope 2 []]"
  using delivery_round_offers_all [OF demo_two_inv, of 5 2] by (simp add: demo_two_spool due_def)

theorem lowest_envelope_starves_others_witness:
  "polls [5, 300000000005, 600000000005] demo_two
     = [Some (demo_envelope 1 []), Some (demo_envelope 1 []), Some (demo_envelope 1 [])]"
  using lowest_envelope_starves_others [OF demo_two_inv demo_two_spool, of "[5, 300000000005, 600000000005]"] by simp

end
