(* ===== verification/Peercred.thy ===== *)
theory Peercred
  imports Prelude
begin

unbundle bit_operations_syntax

text \<open>
  The Unix-domain socket adapter of \<^verbatim>\<open>crates/rp-peercred/src/lib.rs\<close> and the socket endpoints of
  \<^verbatim>\<open>crates/rp-broker-api/src/lib.rs\<close>: which paths, modes and peers they accept. The system calls are
  not code of the repository: what each returned is an argument, \<open>Inl\<close> the error of
  \<^verbatim>\<open>io::Error::last_os_error\<close>; their effect on the paths of the file system is written out, on a directory that
  every step takes and returns. A receiving call is given the packet at the head of the queue, of which
  \<^verbatim>\<open>recv\<close> with \<^verbatim>\<open>MSG_TRUNC\<close> reports the full length.
\<close>

section \<open>Errors and results of the kernel\<close>

datatype error_kind =
    ErrorKind_NotFound
  | ErrorKind_AlreadyExists
  | ErrorKind_InvalidInput
  | ErrorKind_PermissionDenied
  | ErrorKind_InvalidData
  | ErrorKind_WriteZero
  | ErrorKind_Other

record io_error =
  ie_kind :: error_kind
  ie_message :: bytes

definition Error_new :: "error_kind \<Rightarrow> string \<Rightarrow> io_error" where
  [run]: "Error_new kind message = \<lparr>ie_kind = kind, ie_message = str message\<rparr>"

text \<open>A directory maps paths to metadata, of which the mode holds the permission bits.\<close>

record metadata =
  md_is_dir :: bool
  md_uid :: u32
  md_mode :: u32

type_synonym directory = "bytes \<Rightarrow> metadata option"

text \<open>A step that may fail and change the directory, and the next one: \<^verbatim>\<open>?\<close> keeps what was changed before the error.\<close>

definition io_bind :: "(io_error + 'a) \<times> directory \<Rightarrow> ('a \<Rightarrow> directory \<Rightarrow> (io_error + 'b) \<times> directory) \<Rightarrow> (io_error + 'b) \<times> directory" where
  [run]: "io_bind m f = (case m of (Inl e, dir) \<Rightarrow> (Inl e, dir) | (Inr x, dir) \<Rightarrow> f x dir)"

record kernel =
  k_socket :: "io_error + int"
  k_bind :: "bytes \<Rightarrow> io_error + unit"
  k_listen :: "io_error + unit"
  k_connect :: "bytes \<Rightarrow> io_error + unit"

section \<open>The adapter\<close>

definition SUN_PATH_LEN :: nat where
  [run]: "SUN_PATH_LEN = 108"

definition CString_new :: "bytes \<Rightarrow> io_error + bytes" where
  [run]: "CString_new path =
     (if 0 \<in> set path then Inl (Error_new ErrorKind_InvalidInput ''socket path contains NUL'') else Inr (path @ [0]))"

text \<open>\<^verbatim>\<open>sun_path\<close> is zeroed, then the path and its NUL are copied to its front.\<close>

definition sun_path :: "bytes \<Rightarrow> io_error + bytes" where
  [run]: "sun_path path =
     (if SUN_PATH_LEN < length path then Inl (Error_new ErrorKind_InvalidInput ''socket path is too long'')
      else Inr (path @ replicate (SUN_PATH_LEN - length path) 0))"

text \<open>\<^verbatim>\<open>bind\<close> creates the path that the address names; \<open>fresh\<close> is the metadata the kernel gives a new socket.\<close>

definition sys_bind :: "kernel \<Rightarrow> metadata \<Rightarrow> bytes \<Rightarrow> directory \<Rightarrow> (io_error + unit) \<times> directory" where
  [run]: "sys_bind k fresh address dir =
     (case k_bind k address of
        Inl e \<Rightarrow> (Inl e, dir)
      | Inr _ \<Rightarrow> (Inr (), dir(takeWhile (\<lambda>b. b \<noteq> 0) address \<mapsto> fresh)))"

text \<open>The listener is its descriptor.\<close>

definition SeqPacketListener_bind :: "kernel \<Rightarrow> metadata \<Rightarrow> bytes \<Rightarrow> directory \<Rightarrow> (io_error + int) \<times> directory" where
  [run]: "SeqPacketListener_bind k fresh path dir =
     io_bind (CString_new path, dir) (\<lambda>path dir.
     io_bind (k_socket k, dir) (\<lambda>fd dir.
     io_bind (sun_path path, dir) (\<lambda>address dir.
     io_bind (sys_bind k fresh address dir) (\<lambda>_ dir.
     io_bind (k_listen k, dir) (\<lambda>_ dir. (Inr fd, dir))))))"

text \<open>\<open>raw\<close> is what \<^verbatim>\<open>accept4\<close> returned, a descriptor or a negative number; the connection is its descriptor.\<close>

definition SeqPacketListener_accept :: "int \<Rightarrow> io_error \<Rightarrow> io_error + int" where
  [run]: "SeqPacketListener_accept raw last_os_error = (if raw < 0 then Inl last_os_error else Inr raw)"

definition SeqPacketConnection_connect :: "kernel \<Rightarrow> bytes \<Rightarrow> io_error + int" where
  [run]: "SeqPacketConnection_connect k path =
     rbind (CString_new path) (\<lambda>path.
     rbind (k_socket k) (\<lambda>fd.
     rbind (sun_path path) (\<lambda>address. map_ok (\<lambda>_. fd) (k_connect k address))))"

definition receive :: "nat \<Rightarrow> io_error + bytes \<Rightarrow> io_error + bytes" where
  [run]: "receive buffer_len packet =
     rbind packet (\<lambda>packet.
       if buffer_len < length packet then Inl (Error_new ErrorKind_InvalidData ''truncated seqpacket frame'')
       else Inr packet)"

definition send :: "bytes \<Rightarrow> io_error + nat \<Rightarrow> io_error + unit" where
  [run]: "send packet sent =
     rbind sent (\<lambda>sent.
       if sent \<noteq> length packet then Inl (Error_new ErrorKind_WriteZero ''partial seqpacket write'') else Inr ())"

record credentials =
  cr_pid :: u32
  cr_uid :: u32
  cr_gid :: u32

text \<open>\<^verbatim>\<open>getsockopt(SO_PEERCRED)\<close> fills a \<^verbatim>\<open>ucred\<close> of three 32-bit fields, the process id signed.\<close>

definition peercred_get :: "io_error + credentials \<times> nat \<Rightarrow> io_error + credentials" where
  [run]: "peercred_get result =
     rbind result (\<lambda>(value, len).
       if len \<noteq> 12 \<or> cr_pid value <s 0 then Inl (Error_new ErrorKind_InvalidData ''invalid SO_PEERCRED response'')
       else Inr value)"

section \<open>The endpoints of the broker\<close>

text \<open>What the file system answers about a socket path: its parent (\<open>None\<close> when the path has none), an
  error other than absence when its metadata is read, and whether the mode can be set.\<close>

record socket_fs =
  sf_parent :: "(io_error + metadata) option"
  sf_symlink_error :: "io_error option"
  sf_set_permissions :: "u32 \<Rightarrow> io_error + unit"

text \<open>Absence is reported only where there is nothing.\<close>

definition symlink_metadata :: "socket_fs \<Rightarrow> bytes \<Rightarrow> directory \<Rightarrow> io_error + metadata" where
  [run]: "symlink_metadata fs path dir =
     (case sf_symlink_error fs of
        Some e \<Rightarrow> if ie_kind e = ErrorKind_NotFound then ok_or e (dir path) else Inl e
      | None \<Rightarrow> ok_or (Error_new ErrorKind_NotFound ''no such file'') (dir path))"

definition set_permissions :: "socket_fs \<Rightarrow> bytes \<Rightarrow> u32 \<Rightarrow> directory \<Rightarrow> (io_error + unit) \<times> directory" where
  [run]: "set_permissions fs path mode dir =
     (case sf_set_permissions fs mode of
        Inl e \<Rightarrow> (Inl e, dir)
      | Inr _ \<Rightarrow> (Inr (), dir(path := map_option (\<lambda>m. m\<lparr>md_mode := mode\<rparr>) (dir path))))"

definition validate_socket_parent :: "socket_fs \<Rightarrow> io_error + unit" where
  [run]: "validate_socket_parent fs =
     rbind (ok_or (Error_new ErrorKind_InvalidInput ''socket path has no parent'') (sf_parent fs)) (\<lambda>result.
     rbind result (\<lambda>metadata.
       if \<not> md_is_dir metadata \<or> md_uid metadata \<noteq> 0 \<or> md_mode metadata AND 0x12 \<noteq> 0 then
         Inl (Error_new ErrorKind_PermissionDenied ''socket parent is not root-owned and private'')
       else Inr ()))"

definition reject_existing :: "io_error + metadata \<Rightarrow> io_error + unit" where
  [run]: "reject_existing result =
     (case result of
        Inr _ \<Rightarrow> Inl (Error_new ErrorKind_AlreadyExists ''socket path exists'')
      | Inl error \<Rightarrow> if ie_kind error \<noteq> ErrorKind_NotFound then Inl error else Inr ())"

record bound_socket =
  bs_listener :: int
  bs_path :: bytes

definition AdminSocket_bind :: "socket_fs \<Rightarrow> kernel \<Rightarrow> metadata \<Rightarrow> bytes \<Rightarrow> directory \<Rightarrow> (io_error + bound_socket) \<times> directory" where
  [run]: "AdminSocket_bind fs k fresh path dir =
     io_bind (validate_socket_parent fs, dir) (\<lambda>_ dir.
     io_bind (reject_existing (symlink_metadata fs path dir), dir) (\<lambda>_ dir.
     io_bind (SeqPacketListener_bind k fresh path dir) (\<lambda>listener dir.
     io_bind (set_permissions fs path 0x180 dir) (\<lambda>_ dir.
       (Inr \<lparr>bs_listener = listener, bs_path = path\<rparr>, dir)))))"

text \<open>\<open>peer\<close> is what the kernel answers about the peer of a descriptor.\<close>

definition AdminSocket_accept :: "int \<Rightarrow> io_error \<Rightarrow> (int \<Rightarrow> io_error + credentials \<times> nat) \<Rightarrow> io_error + int" where
  [run]: "AdminSocket_accept raw last_os_error peer =
     rbind (SeqPacketListener_accept raw last_os_error) (\<lambda>stream.
     rbind (peercred_get (peer stream)) (\<lambda>credentials.
       if cr_uid credentials \<noteq> 0 then Inl (Error_new ErrorKind_PermissionDenied ''admin socket requires root'')
       else Inr stream))"

definition LocalSocket_bind :: "socket_fs \<Rightarrow> kernel \<Rightarrow> metadata \<Rightarrow> bytes \<Rightarrow> u32 \<Rightarrow> directory \<Rightarrow> (io_error + bound_socket) \<times> directory" where
  [run]: "LocalSocket_bind fs k fresh path mode dir =
     (if mode AND NOT 0x1F8 \<noteq> 0 \<or> mode AND 0x7 \<noteq> 0 then (Inl (Error_new ErrorKind_InvalidInput ''unsafe socket mode''), dir)
      else
        io_bind (validate_socket_parent fs, dir) (\<lambda>_ dir.
        io_bind (reject_existing (symlink_metadata fs path dir), dir) (\<lambda>_ dir.
        io_bind (SeqPacketListener_bind k fresh path dir) (\<lambda>listener dir.
        io_bind (set_permissions fs path mode dir) (\<lambda>_ dir.
          (Inr \<lparr>bs_listener = listener, bs_path = path\<rparr>, dir))))))"

record peer_credentials =
  pc_pid :: u32
  pc_uid :: u32
  pc_gid :: u32

definition from_so_peer_cred :: "u32 \<Rightarrow> u32 \<Rightarrow> u32 \<Rightarrow> peer_credentials" where
  [run]: "from_so_peer_cred pid uid gid = \<lparr>pc_pid = pid, pc_uid = uid, pc_gid = gid\<rparr>"

definition is_root :: "peer_credentials \<Rightarrow> bool" where
  [run]: "is_root peer \<longleftrightarrow> pc_uid peer = 0"

definition can_access_owned_request :: "peer_credentials \<Rightarrow> u32 \<Rightarrow> bool" where
  [run]: "can_access_owned_request peer owner_uid \<longleftrightarrow> is_root peer \<or> pc_uid peer = owner_uid"

definition LocalSocket_accept ::
  "int \<Rightarrow> io_error \<Rightarrow> (int \<Rightarrow> io_error + credentials \<times> nat) \<Rightarrow> io_error + int \<times> peer_credentials" where
  [run]: "LocalSocket_accept raw last_os_error peer =
     rbind (SeqPacketListener_accept raw last_os_error) (\<lambda>stream.
     rbind (peercred_get (peer stream)) (\<lambda>credentials.
       Inr (stream, from_so_peer_cred (cr_pid credentials) (cr_uid credentials) (cr_gid credentials))))"

section \<open>What the endpoints guarantee\<close>

lemma validate_socket_parent_ok [ok_iff]:
  "validate_socket_parent fs = Inr u \<longleftrightarrow>
     (\<exists>metadata. sf_parent fs = Some (Inr metadata) \<and> md_is_dir metadata \<and> md_uid metadata = 0 \<and> md_mode metadata AND 0x12 = 0)"
  by (auto simp: validate_socket_parent_def ok_or_def rbind_def split: option.splits sum.splits if_splits)

lemma reject_existing_ok [ok_iff]:
  "reject_existing result = Inr u \<longleftrightarrow> (\<exists>error. result = Inl error \<and> ie_kind error = ErrorKind_NotFound)"
  by (auto simp: reject_existing_def split: sum.splits if_splits)

lemma rejects_present [simp]:
  "reject_existing (symlink_metadata fs path dir) = Inr u \<longleftrightarrow>
     dir path = None \<and> (\<forall>e. sf_symlink_error fs = Some e \<longrightarrow> ie_kind e = ErrorKind_NotFound)"
  by (auto simp: ok_iff symlink_metadata_def ok_or_def Error_new_def split: option.splits if_splits)

lemma io_bind_ok: "io_bind m f = (Inr y, dir') \<longleftrightarrow> (\<exists>x dir. m = (Inr x, dir) \<and> f x dir = (Inr y, dir'))"
  by (auto simp: io_bind_def split: prod.splits sum.splits)

lemma sys_bind_ok:
  "sys_bind k fresh address dir = (Inr u, dir') \<longleftrightarrow>
     k_bind k address = Inr () \<and> dir' = dir(takeWhile (\<lambda>b. b \<noteq> 0) address \<mapsto> fresh)"
  by (cases "k_bind k address") (auto simp: sys_bind_def)

lemma set_permissions_ok:
  "set_permissions fs path mode dir = (Inr u, dir') \<longleftrightarrow>
     sf_set_permissions fs mode = Inr () \<and> dir' = dir(path := map_option (\<lambda>m. m\<lparr>md_mode := mode\<rparr>) (dir path))"
  by (cases "sf_set_permissions fs mode") (auto simp: set_permissions_def)

lemma bound_address_path: "0 \<notin> set path \<Longrightarrow> takeWhile (\<lambda>b. b \<noteq> 0) (path @ replicate n 0) = (path :: bytes)"
  by (cases n) (auto simp: takeWhile_tail)

text \<open>The address holds the path and at least its NUL, so the path that \<^verbatim>\<open>bind\<close> creates is the path asked for.\<close>

lemma sun_path_ok:
  assumes "CString_new path = Inr p" and "sun_path p = Inr address"
  shows "0 \<notin> set path \<and> length path < 108 \<and> takeWhile (\<lambda>b. b \<noteq> 0) address = path"
proof -
  have "0 \<notin> set path" "p = path @ [0]" "length path < 108" "address = path @ replicate (Suc (107 - length path)) 0"
    using assms by (auto simp: CString_new_def sun_path_def SUN_PATH_LEN_def split: if_splits)
  then show ?thesis by (simp only: bound_address_path simp_thms)
qed

lemma SeqPacketListener_bind_ok:
  assumes "SeqPacketListener_bind k fresh path dir = (Inr fd, dir')"
  shows "0 \<notin> set path \<and> length path < 108 \<and> k_socket k = Inr fd \<and> dir' = dir(path \<mapsto> fresh)"
  using assms sun_path_ok [of path] by (fastforce simp: SeqPacketListener_bind_def io_bind_ok sys_bind_ok)

text \<open>Whatever happens, at most the path asked for is created.\<close>

lemma SeqPacketListener_bind_effect:
  "snd (SeqPacketListener_bind k fresh path dir) \<in> {dir, dir(path \<mapsto> fresh)}"
  using sun_path_ok [of path]
  by (auto simp: SeqPacketListener_bind_def io_bind_def sys_bind_def split: sum.splits prod.splits)

text \<open>A mode within rwxrwx--- has no bit for others.\<close>

lemma private_mode: "mode AND NOT 0x1F8 = 0 \<Longrightarrow> bit (mode :: u32) n \<Longrightarrow> 3 \<le> n \<and> n < 9"
proof -
  assume m: "mode AND NOT 0x1F8 = 0" and b: "bit mode n"
  have "bit (0x1F8 :: u32) n"
    using m b by (metis bit_0_eq bit_and_iff bit_not_iff bit_imp_possible_bit bot_apply bot_bool_def)
  then show ?thesis by (auto simp: bit_numeral_rec bit_1_iff numeral_eq_Suc split: nat.splits)
qed

end
