(* ===== verification/Broker_Api.thy ===== *)
theory Broker_Api
  imports Schema_Fields Peercred
begin

text \<open>
  The local broker RPC of \<^verbatim>\<open>crates/rp-broker-api/src/lib.rs\<close>: the closed method and error enums, the
  three message types and their field maps, the length-prefixed frame, and reading and writing one frame
  per packet. The message readers take the remaining fields and return them with the value, as those of
  \<open>Schema_Fields\<close> do, with the errors of this crate. A correlation id is a type of 16-byte lists, as
  \<^verbatim>\<open>[u8; 16]\<close> is.
\<close>

section \<open>Methods, kinds and errors\<close>

abbreviation MAX_FRAME_PAYLOAD_BYTES :: nat where
  "MAX_FRAME_PAYLOAD_BYTES \<equiv> 65536"

abbreviation FRAME_LENGTH_BYTES :: nat where
  "FRAME_LENGTH_BYTES \<equiv> 4"

datatype rpc_error =
    RpcCbor decode_error
  | RpcEncode encode_error
  | RpcProtocolMismatch u64
  | RpcRootNotMap
  | RpcMissingField u64
  | RpcUnknownField u64
  | RpcWrongType u64
  | RpcInvalidField u64
  | UnknownMethod u64
  | InvalidMessageKind u64
  | UnknownErrorCode

datatype frame_error =
    FrameTooShort
  | LengthMismatch nat nat
  | FramePayloadTooLarge nat
  | FrameRpc rpc_error

datatype socket_error = SocketIo io_error | SocketFrame frame_error | OversizePayload

datatype rpc_method = SubmitPackageInstall | GetRequest | ListRequests | CancelRequest | GetReceipt

datatype admin_method = AdminStartPairing | AdminChangeCredentials | AdminReconcile | AdminExport | AdminPurge | AdminUnenroll

fun method_code :: "rpc_method \<Rightarrow> u64" where
  "method_code SubmitPackageInstall = 1"
| "method_code GetRequest = 2"
| "method_code ListRequests = 3"
| "method_code CancelRequest = 4"
| "method_code GetReceipt = 5"

definition method_from_code :: "u64 \<Rightarrow> rpc_error + rpc_method" where
  [run]: "method_from_code value =
     (if value = 1 then Inr SubmitPackageInstall
      else if value = 2 then Inr GetRequest
      else if value = 3 then Inr ListRequests
      else if value = 4 then Inr CancelRequest
      else if value = 5 then Inr GetReceipt
      else Inl (UnknownMethod value))"

typedef correlation_id = "{b :: bytes. length b = 16}"
  morphisms as_bytes CorrelationId
  by (rule exI [of _ "replicate 16 0"]) simp

datatype message_kind = MessageRequest | MessageResponse | MessageError

fun kind_code :: "message_kind \<Rightarrow> u64" where
  "kind_code MessageRequest = 1"
| "kind_code MessageResponse = 2"
| "kind_code MessageError = 3"

definition kind_from_code :: "u64 \<Rightarrow> rpc_error + message_kind" where
  [run]: "kind_from_code value =
     (if value = 1 then Inr MessageRequest
      else if value = 2 then Inr MessageResponse
      else if value = 3 then Inr MessageError
      else Inl (InvalidMessageKind value))"

datatype error_code =
    InvalidInput
  | NotAllowed
  | Busy
  | IdempotencyConflict
  | ApprovalLocked
  | NotFoundOrNotAuthorized
  | InvalidCursor
  | CancellationTooLate
  | DeviceNotUnpaired
  | TemporarilyUnavailable
  | CredentialLimitReached
  | UnsafeLifecycleState
  | NotRecoveryRequired
  | ReconciliationNotProved
  | RetentionProtected
  | ProtocolViolation
  | Internal

fun error_code_name :: "error_code \<Rightarrow> string" where
  "error_code_name InvalidInput = ''invalid_input''"
| "error_code_name NotAllowed = ''not_allowed''"
| "error_code_name Busy = ''busy''"
| "error_code_name IdempotencyConflict = ''idempotency_conflict''"
| "error_code_name ApprovalLocked = ''approval_locked''"
| "error_code_name NotFoundOrNotAuthorized = ''not_found_or_not_authorized''"
| "error_code_name InvalidCursor = ''invalid_cursor''"
| "error_code_name CancellationTooLate = ''cancellation_too_late''"
| "error_code_name DeviceNotUnpaired = ''device_not_unpaired''"
| "error_code_name TemporarilyUnavailable = ''temporarily_unavailable''"
| "error_code_name CredentialLimitReached = ''credential_limit_reached''"
| "error_code_name UnsafeLifecycleState = ''unsafe_lifecycle_state''"
| "error_code_name NotRecoveryRequired = ''not_recovery_required''"
| "error_code_name ReconciliationNotProved = ''reconciliation_not_proved''"
| "error_code_name RetentionProtected = ''retention_protected''"
| "error_code_name ProtocolViolation = ''protocol_violation''"
| "error_code_name Internal = ''internal''"

definition error_code_text :: "error_code \<Rightarrow> bytes" where
  [run]: "error_code_text code = str (error_code_name code)"

definition error_code_parse :: "bytes \<Rightarrow> rpc_error + error_code" where
  [run]: "error_code_parse value =
     (if value = str ''invalid_input'' then Inr InvalidInput
      else if value = str ''not_allowed'' then Inr NotAllowed
      else if value = str ''busy'' then Inr Busy
      else if value = str ''idempotency_conflict'' then Inr IdempotencyConflict
      else if value = str ''approval_locked'' then Inr ApprovalLocked
      else if value = str ''not_found_or_not_authorized'' then Inr NotFoundOrNotAuthorized
      else if value = str ''invalid_cursor'' then Inr InvalidCursor
      else if value = str ''cancellation_too_late'' then Inr CancellationTooLate
      else if value = str ''device_not_unpaired'' then Inr DeviceNotUnpaired
      else if value = str ''temporarily_unavailable'' then Inr TemporarilyUnavailable
      else if value = str ''credential_limit_reached'' then Inr CredentialLimitReached
      else if value = str ''unsafe_lifecycle_state'' then Inr UnsafeLifecycleState
      else if value = str ''not_recovery_required'' then Inr NotRecoveryRequired
      else if value = str ''reconciliation_not_proved'' then Inr ReconciliationNotProved
      else if value = str ''retention_protected'' then Inr RetentionProtected
      else if value = str ''protocol_violation'' then Inr ProtocolViolation
      else if value = str ''internal'' then Inr Internal
      else Inl UnknownErrorCode)"

text \<open>The one answer for an absent request and for one the peer may not see.\<close>

definition concealed_visibility_error :: error_code where
  [run]: "concealed_visibility_error = NotFoundOrNotAuthorized"

section \<open>Messages\<close>

record rpc_request =
  rq_correlation_id :: correlation_id
  rq_method :: rpc_method
  rq_body :: cbor_value

record rpc_response =
  rs_correlation_id :: correlation_id
  rs_method :: rpc_method
  rs_body :: cbor_value

record rpc_failure =
  rf_correlation_id :: correlation_id
  rf_method :: rpc_method
  rf_code :: error_code
  rf_retryable :: bool
  rf_details :: "cbor_value option"

datatype rpc_message = RpcRequest rpc_request | RpcResponse rpc_response | RpcFailure rpc_failure

definition validate_body :: "cbor_value \<Rightarrow> u64 \<Rightarrow> rpc_error + unit" where
  [run]: "validate_body value field_number =
     (case value of CMap _ \<Rightarrow> Inr () | _ \<Rightarrow> Inl (RpcWrongType field_number))"

definition rpc_field :: "u64 \<Rightarrow> cbor_value \<Rightarrow> cbor_value \<times> cbor_value" where
  [run]: "rpc_field number value = (Unsigned number, value)"

definition envelope_entries :: "message_kind \<Rightarrow> correlation_id \<Rightarrow> rpc_method \<Rightarrow> (cbor_value \<times> cbor_value) list" where
  [run]: "envelope_entries kind correlation_id m =
     [rpc_field 1 (Unsigned VERSION),
      rpc_field 2 (Unsigned (kind_code kind)),
      rpc_field 3 (Bytes (as_bytes correlation_id)),
      rpc_field 4 (Unsigned (method_code m))]"

definition rpc_envelope :: "message_kind \<Rightarrow> correlation_id \<Rightarrow> rpc_method \<Rightarrow> cbor_value \<Rightarrow> cbor_value" where
  [run]: "rpc_envelope kind correlation_id m body =
     CMap (envelope_entries kind correlation_id m @ [rpc_field 5 body])"

definition RpcRequest_new :: "correlation_id \<Rightarrow> rpc_method \<Rightarrow> cbor_value \<Rightarrow> rpc_error + rpc_request" where
  [run]: "RpcRequest_new correlation_id m body =
     rbind (validate_body body 5) (\<lambda>_.
       Inr \<lparr>rq_correlation_id = correlation_id, rq_method = m, rq_body = body\<rparr>)"

definition RpcRequest_to_cbor :: "rpc_request \<Rightarrow> rpc_error + cbor_value" where
  [run]: "RpcRequest_to_cbor r =
     rbind (validate_body (rq_body r) 5) (\<lambda>_.
       Inr (rpc_envelope MessageRequest (rq_correlation_id r) (rq_method r) (rq_body r)))"

definition RpcResponse_new :: "correlation_id \<Rightarrow> rpc_method \<Rightarrow> cbor_value \<Rightarrow> rpc_error + rpc_response" where
  [run]: "RpcResponse_new correlation_id m body =
     rbind (validate_body body 5) (\<lambda>_.
       Inr \<lparr>rs_correlation_id = correlation_id, rs_method = m, rs_body = body\<rparr>)"

definition RpcResponse_to_cbor :: "rpc_response \<Rightarrow> rpc_error + cbor_value" where
  [run]: "RpcResponse_to_cbor r =
     rbind (validate_body (rs_body r) 5) (\<lambda>_.
       Inr (rpc_envelope MessageResponse (rs_correlation_id r) (rs_method r) (rs_body r)))"

definition validate_details :: "cbor_value option \<Rightarrow> rpc_error + unit" where
  [run]: "validate_details details = (case details of None \<Rightarrow> Inr () | Some details \<Rightarrow> validate_body details 7)"

definition RpcFailure_new ::
  "correlation_id \<Rightarrow> rpc_method \<Rightarrow> error_code \<Rightarrow> bool \<Rightarrow> cbor_value option \<Rightarrow> rpc_error + rpc_failure" where
  [run]: "RpcFailure_new correlation_id m code retryable details =
     rbind (validate_details details) (\<lambda>_.
       Inr \<lparr>rf_correlation_id = correlation_id, rf_method = m, rf_code = code, rf_retryable = retryable, rf_details = details\<rparr>)"

definition RpcFailure_to_cbor :: "rpc_failure \<Rightarrow> rpc_error + cbor_value" where
  [run]: "RpcFailure_to_cbor r =
     rbind (validate_details (rf_details r)) (\<lambda>_.
       Inr (CMap (envelope_entries MessageError (rf_correlation_id r) (rf_method r)
         @ [rpc_field 5 (Text (error_code_text (rf_code r))), rpc_field 6 (CBool (rf_retryable r))]
         @ (case rf_details r of None \<Rightarrow> [] | Some details \<Rightarrow> [rpc_field 7 details]))))"

fun RpcMessage_to_cbor :: "rpc_message \<Rightarrow> rpc_error + cbor_value" where
  "RpcMessage_to_cbor (RpcRequest message) = RpcRequest_to_cbor message"
| "RpcMessage_to_cbor (RpcResponse message) = RpcResponse_to_cbor message"
| "RpcMessage_to_cbor (RpcFailure message) = RpcFailure_to_cbor message"

section \<open>Reading a message\<close>

fun rpc_fields_loop :: "(cbor_value \<times> cbor_value) list \<Rightarrow> field_map \<Rightarrow> rpc_error + field_map" where
  "rpc_fields_loop [] result = Inr result"
| "rpc_fields_loop ((k, value) # entries) result =
     (case k of
        Unsigned key \<Rightarrow>
          if bt_get result key \<noteq> None then Inl (RpcInvalidField key)
          else rpc_fields_loop entries (bt_insert key value result)
      | _ \<Rightarrow> Inl RpcRootNotMap)"

definition rpc_fields :: "cbor_value \<Rightarrow> rpc_error + field_map" where
  [run]: "rpc_fields value = (case value of CMap entries \<Rightarrow> rpc_fields_loop entries bt_empty | _ \<Rightarrow> Inl RpcRootNotMap)"

fun rpc_reject_unknown :: "field_map \<Rightarrow> u64 list \<Rightarrow> rpc_error + unit" where
  "rpc_reject_unknown [] known = Inr ()"
| "rpc_reject_unknown ((key, value) # rest) known =
     (if key \<in> set known then rpc_reject_unknown rest known else Inl (RpcUnknownField key))"

type_synonym 'a rpc_reader = "field_map \<Rightarrow> rpc_error + 'a \<times> field_map"

definition rpc_required :: "u64 \<Rightarrow> cbor_value rpc_reader" where
  [run]: "rpc_required field_number flds =
     (case bt_get flds field_number of
        None \<Rightarrow> Inl (RpcMissingField field_number)
      | Some value \<Rightarrow> Inr (value, bt_remove field_number flds))"

definition rpc_required_unsigned_ref :: "field_map \<Rightarrow> u64 \<Rightarrow> rpc_error + u64" where
  [run]: "rpc_required_unsigned_ref flds field_number =
     (case bt_get flds field_number of
        Some (Unsigned value) \<Rightarrow> Inr value
      | Some _ \<Rightarrow> Inl (RpcWrongType field_number)
      | None \<Rightarrow> Inl (RpcMissingField field_number))"

definition rpc_required_unsigned :: "u64 \<Rightarrow> u64 rpc_reader" where
  [run]: "rpc_required_unsigned field_number flds =
     rbind (rpc_required field_number flds) (\<lambda>(value, flds).
       case value of Unsigned value \<Rightarrow> Inr (value, flds) | _ \<Rightarrow> Inl (RpcWrongType field_number))"

definition rpc_required_bytes :: "u64 \<Rightarrow> nat \<Rightarrow> bytes rpc_reader" where
  [run]: "rpc_required_bytes field_number len flds =
     rbind (rpc_required field_number flds) (\<lambda>(value, flds).
       case value of
         Bytes value \<Rightarrow> if length value = len then Inr (value, flds) else Inl (RpcInvalidField field_number)
       | _ \<Rightarrow> Inl (RpcWrongType field_number))"

definition rpc_required_text :: "u64 \<Rightarrow> nat \<Rightarrow> bytes rpc_reader" where
  [run]: "rpc_required_text field_number maximum flds =
     rbind (rpc_required field_number flds) (\<lambda>(value, flds).
       case value of
         Text value \<Rightarrow> if length value \<le> maximum then Inr (value, flds) else Inl (RpcInvalidField field_number)
       | _ \<Rightarrow> Inl (RpcWrongType field_number))"

definition rpc_required_bool :: "u64 \<Rightarrow> bool rpc_reader" where
  [run]: "rpc_required_bool field_number flds =
     rbind (rpc_required field_number flds) (\<lambda>(value, flds).
       case value of CBool value \<Rightarrow> Inr (value, flds) | _ \<Rightarrow> Inl (RpcWrongType field_number))"

definition common_fields :: "message_kind \<Rightarrow> (correlation_id \<times> rpc_method) rpc_reader" where
  [run]: "common_fields expected_kind flds =
     rbind (rpc_required_unsigned 1 flds) (\<lambda>(version, flds).
     if version \<noteq> VERSION then Inl (RpcProtocolMismatch version)
     else
       rbind (rpc_required_unsigned 2 flds) (\<lambda>(value, flds).
       rbind (kind_from_code value) (\<lambda>kind.
       if kind \<noteq> expected_kind then Inl (RpcInvalidField 2)
       else
         rbind (rpc_required_bytes 3 16 flds) (\<lambda>(id, flds).
         rbind (if length id = 16 then Inr (CorrelationId id) else Inl (RpcInvalidField 3)) (\<lambda>correlation_id.
         rbind (rpc_required_unsigned 4 flds) (\<lambda>(value, flds).
         rbind (method_from_code value) (\<lambda>m. Inr ((correlation_id, m), flds))))))))"

definition RpcRequest_from_fields :: "field_map \<Rightarrow> rpc_error + rpc_request" where
  [run]: "RpcRequest_from_fields flds =
     rbind (rpc_reject_unknown flds [1, 2, 3, 4, 5]) (\<lambda>_.
     rbind (common_fields MessageRequest flds) (\<lambda>((correlation_id, m), flds).
     rbind (rpc_required 5 flds) (\<lambda>(body, flds). RpcRequest_new correlation_id m body)))"

definition RpcResponse_from_fields :: "field_map \<Rightarrow> rpc_error + rpc_response" where
  [run]: "RpcResponse_from_fields flds =
     rbind (rpc_reject_unknown flds [1, 2, 3, 4, 5]) (\<lambda>_.
     rbind (common_fields MessageResponse flds) (\<lambda>((correlation_id, m), flds).
     rbind (rpc_required 5 flds) (\<lambda>(body, flds). RpcResponse_new correlation_id m body)))"

definition RpcFailure_from_fields :: "field_map \<Rightarrow> rpc_error + rpc_failure" where
  [run]: "RpcFailure_from_fields flds =
     rbind (rpc_reject_unknown flds [1, 2, 3, 4, 5, 6, 7]) (\<lambda>_.
     rbind (common_fields MessageError flds) (\<lambda>((correlation_id, m), flds).
     rbind (rpc_required_text 5 64 flds) (\<lambda>(text, flds).
     rbind (error_code_parse text) (\<lambda>code.
     rbind (rpc_required_bool 6 flds) (\<lambda>(retryable, flds).
       let details = bt_get flds 7 in
       rbind (validate_details details) (\<lambda>_.
         Inr \<lparr>rf_correlation_id = correlation_id, rf_method = m, rf_code = code,
              rf_retryable = retryable, rf_details = details\<rparr>))))))"

definition RpcMessage_from_fields :: "field_map \<Rightarrow> rpc_error + rpc_message" where
  [run]: "RpcMessage_from_fields flds =
     rbind (rpc_required_unsigned_ref flds 2) (\<lambda>value.
     rbind (kind_from_code value) (\<lambda>kind.
       case kind of
         MessageRequest \<Rightarrow> map_ok RpcRequest (RpcRequest_from_fields flds)
       | MessageResponse \<Rightarrow> map_ok RpcResponse (RpcResponse_from_fields flds)
       | MessageError \<Rightarrow> map_ok RpcFailure (RpcFailure_from_fields flds)))"

definition RpcMessage_from_cbor :: "cbor_value \<Rightarrow> rpc_error + rpc_message" where
  [run]: "RpcMessage_from_cbor value = rbind (rpc_fields value) RpcMessage_from_fields"

section \<open>Frames\<close>

definition encode_frame :: "rpc_message \<Rightarrow> frame_error + bytes" where
  [run]: "encode_frame m =
     rbind (map_err FrameRpc (RpcMessage_to_cbor m)) (\<lambda>message.
     rbind (map_err (FrameRpc \<circ> RpcEncode) (encode message)) (\<lambda>payload.
     if MAX_FRAME_PAYLOAD_BYTES < length payload then Inl (FramePayloadTooLarge MAX_FRAME_PAYLOAD_BYTES)
     else if 2 ^ 32 \<le> length payload then Inl (FramePayloadTooLarge MAX_FRAME_PAYLOAD_BYTES)
     else Inr (u32_to_be (of_nat (length payload)) @ payload)))"

definition decode_frame :: "bytes \<Rightarrow> frame_error + rpc_message" where
  [run]: "decode_frame packet =
     (if length packet < FRAME_LENGTH_BYTES then Inl FrameTooShort
      else
        let declared = unat (u32_from_be (take FRAME_LENGTH_BYTES packet));
            actual = length packet - FRAME_LENGTH_BYTES
        in if MAX_FRAME_PAYLOAD_BYTES < declared then Inl (FramePayloadTooLarge MAX_FRAME_PAYLOAD_BYTES)
           else if declared \<noteq> actual then Inl (LengthMismatch declared actual)
           else
             rbind (map_err (FrameRpc \<circ> RpcCbor) (decode (drop FRAME_LENGTH_BYTES packet))) (\<lambda>value.
               map_err FrameRpc (RpcMessage_from_cbor value)))"

text \<open>One frame per packet: \<open>packet\<close> is what the kernel has queued.\<close>

definition read_frame :: "io_error + bytes \<Rightarrow> socket_error + rpc_message" where
  [run]: "read_frame packet =
     rbind (map_err SocketIo (receive (FRAME_LENGTH_BYTES + MAX_FRAME_PAYLOAD_BYTES) packet)) (\<lambda>packet.
     let received = length packet in
     if received < FRAME_LENGTH_BYTES then Inl (SocketFrame FrameTooShort)
     else
       let declared = unat (u32_from_be (take FRAME_LENGTH_BYTES packet)) in
       if MAX_FRAME_PAYLOAD_BYTES < declared then Inl OversizePayload
       else if received \<noteq> FRAME_LENGTH_BYTES + declared then
         Inl (SocketFrame (LengthMismatch declared (received - FRAME_LENGTH_BYTES)))
       else map_err SocketFrame (decode_frame packet))"

text \<open>Writing gives the packet handed to the kernel and the result of the call.\<close>

definition write_frame :: "(bytes \<Rightarrow> io_error + nat) \<Rightarrow> rpc_message \<Rightarrow> bytes option \<times> (socket_error + unit)" where
  [run]: "write_frame kernel_send m =
     (case encode_frame m of
        Inl e \<Rightarrow> (None, Inl (SocketFrame e))
      | Inr packet \<Rightarrow> (Some packet, map_err SocketIo (send packet (kernel_send packet))))"

end
