(* ===== verification/Rpc_Frames.thy ===== *)
theory Rpc_Frames
  imports Broker_Api
begin

unbundle bit_operations_syntax

text \<open>
  What the local RPC promises. A message is written as the map of its fields and read back from it, which
  is the contract \<open>schema_fields\<close> of the signed messages, interpreted here as \<open>rpc\<close>; the frame is a
  canonical codec, interpreted as \<open>rpc_frame\<close>; packets are accepted or refused as whole frames; and the
  socket endpoints are bound privately.
\<close>

section \<open>When a reader succeeds\<close>

lemma method_codes [simp]: "method_from_code (method_code m) = Inr m"
  by (cases m) (simp_all add: method_from_code_def)

lemma method_from_code_ok [ok_iff]: "method_from_code value = Inr m \<longleftrightarrow> value = method_code m"
  by (cases m) (auto simp: method_from_code_def)

lemma kind_from_code_ok [ok_iff]: "kind_from_code value = Inr k \<longleftrightarrow> value = kind_code k"
  by (cases k) (auto simp: kind_from_code_def)

lemma method_code_inject [simp]: "method_code m = method_code m' \<longleftrightarrow> m = m'"
  by (metis method_codes sum.inject(2))

lemma kind_code_inject [simp]: "kind_code k = kind_code k' \<longleftrightarrow> k = k'"
  by (cases k; cases k') simp_all

lemma error_code_parse_text [simp]: "error_code_parse (error_code_text c) = Inr c"
  by (cases c) (simp_all add: error_code_parse_def error_code_text_def str_def)

lemma error_code_parse_ok [ok_iff]: "error_code_parse value = Inr c \<longleftrightarrow> value = error_code_text c"
proof
  assume "error_code_parse value = Inr c"
  then show "value = error_code_text c"
    by (auto simp: error_code_parse_def error_code_text_def split: if_splits)
qed simp

lemma error_code_text_inject [simp]: "error_code_text c = error_code_text c' \<longleftrightarrow> c = c'"
  by (metis error_code_parse_text sum.inject(2))

lemma error_code_text_length: "length (error_code_text c) \<le> 64"
  by (cases c) (simp_all add: error_code_text_def str_def)

lemma length_as_bytes [simp]: "length (as_bytes c) = 16"
  using as_bytes by simp

lemma validate_body_ok [ok_iff]: "validate_body v n = Inr u \<longleftrightarrow> is_map v"
  by (auto simp: validate_body_def is_map_def split: cbor_value.splits)

lemma validate_details_ok [ok_iff]: "validate_details d = Inr u \<longleftrightarrow> (\<forall>v. d = Some v \<longrightarrow> is_map v)"
  by (auto simp: validate_details_def ok_iff split: option.splits)

lemma rpc_required_ok [ok_iff]:
  "rpc_required n m = Inr (v, m') \<longleftrightarrow> bt_get m n = Some v \<and> m' = bt_remove n m"
  by (auto simp: rpc_required_def split: option.splits)

lemma rpc_required_unsigned_ref_ok [ok_iff]: "rpc_required_unsigned_ref m n = Inr v \<longleftrightarrow> bt_get m n = Some (Unsigned v)"
  by (auto simp: rpc_required_unsigned_ref_def split: option.splits cbor_value.splits)

lemma rpc_required_unsigned_ok [ok_iff]:
  "rpc_required_unsigned n m = Inr (v, m') \<longleftrightarrow> bt_get m n = Some (Unsigned v) \<and> m' = bt_remove n m"
  by (cases "bt_get m n") (auto simp: rpc_required_unsigned_def rpc_required_def split: cbor_value.splits)

lemma rpc_required_bytes_ok [ok_iff]:
  "rpc_required_bytes n len m = Inr (v, m') \<longleftrightarrow> bt_get m n = Some (Bytes v) \<and> length v = len \<and> m' = bt_remove n m"
  by (cases "bt_get m n") (auto simp: rpc_required_bytes_def rpc_required_def split: cbor_value.splits if_splits)

lemma rpc_required_text_ok [ok_iff]:
  "rpc_required_text n mx m = Inr (v, m') \<longleftrightarrow> bt_get m n = Some (Text v) \<and> length v \<le> mx \<and> m' = bt_remove n m"
  by (cases "bt_get m n") (auto simp: rpc_required_text_def rpc_required_def split: cbor_value.splits if_splits)

lemma rpc_required_bool_ok [ok_iff]:
  "rpc_required_bool n m = Inr (v, m') \<longleftrightarrow> bt_get m n = Some (CBool v) \<and> m' = bt_remove n m"
  by (cases "bt_get m n") (auto simp: rpc_required_bool_def rpc_required_def split: cbor_value.splits)

lemma rpc_reject_unknown_ok [ok_iff]: "rpc_reject_unknown m known = Inr u \<longleftrightarrow> fst ` set m \<subseteq> set known"
  by (induction m) (auto split: if_splits)

lemma common_fields_ok [ok_iff]:
  "common_fields kind m = Inr ((c, meth), m') \<longleftrightarrow>
     bt_get m 1 = Some (Unsigned VERSION) \<and> bt_get m 2 = Some (Unsigned (kind_code kind))
   \<and> bt_get m 3 = Some (Bytes (as_bytes c)) \<and> bt_get m 4 = Some (Unsigned (method_code meth))
   \<and> m' = bt_remove 4 (bt_remove 3 (bt_remove 2 (bt_remove 1 m)))"
  by (auto simp: common_fields_def ok_iff if_ok bt_get_remove as_bytes_inverse CorrelationId_inverse)

lemma RpcRequest_from_fields_ok [ok_iff]:
  "RpcRequest_from_fields m = Inr r \<longleftrightarrow> fst ` set m \<subseteq> {1, 2, 3, 4, 5}
   \<and> bt_get m 1 = Some (Unsigned VERSION) \<and> bt_get m 2 = Some (Unsigned 1)
   \<and> bt_get m 3 = Some (Bytes (as_bytes (rq_correlation_id r))) \<and> bt_get m 4 = Some (Unsigned (method_code (rq_method r)))
   \<and> bt_get m 5 = Some (rq_body r) \<and> is_map (rq_body r)"
  by (cases r) (auto simp: RpcRequest_from_fields_def RpcRequest_new_def ok_iff bt_get_remove)

lemma RpcResponse_from_fields_ok [ok_iff]:
  "RpcResponse_from_fields m = Inr r \<longleftrightarrow> fst ` set m \<subseteq> {1, 2, 3, 4, 5}
   \<and> bt_get m 1 = Some (Unsigned VERSION) \<and> bt_get m 2 = Some (Unsigned 2)
   \<and> bt_get m 3 = Some (Bytes (as_bytes (rs_correlation_id r))) \<and> bt_get m 4 = Some (Unsigned (method_code (rs_method r)))
   \<and> bt_get m 5 = Some (rs_body r) \<and> is_map (rs_body r)"
  by (cases r) (auto simp: RpcResponse_from_fields_def RpcResponse_new_def ok_iff bt_get_remove)

lemma RpcFailure_from_fields_ok [ok_iff]:
  "RpcFailure_from_fields m = Inr r \<longleftrightarrow> fst ` set m \<subseteq> {1, 2, 3, 4, 5, 6, 7}
   \<and> bt_get m 1 = Some (Unsigned VERSION) \<and> bt_get m 2 = Some (Unsigned 3)
   \<and> bt_get m 3 = Some (Bytes (as_bytes (rf_correlation_id r))) \<and> bt_get m 4 = Some (Unsigned (method_code (rf_method r)))
   \<and> bt_get m 5 = Some (Text (error_code_text (rf_code r))) \<and> bt_get m 6 = Some (CBool (rf_retryable r))
   \<and> bt_get m 7 = rf_details r \<and> (\<forall>v. rf_details r = Some v \<longrightarrow> is_map v)"
  by (cases r) (auto simp: RpcFailure_from_fields_def ok_iff bt_get_remove Let_def error_code_text_length)

section \<open>The field map of a message\<close>

fun rpc_entries :: "rpc_message \<Rightarrow> field_map" where
  "rpc_entries (RpcRequest r) =
     [(1, Unsigned VERSION), (2, Unsigned 1), (3, Bytes (as_bytes (rq_correlation_id r))),
      (4, Unsigned (method_code (rq_method r))), (5, rq_body r)]"
| "rpc_entries (RpcResponse r) =
     [(1, Unsigned VERSION), (2, Unsigned 2), (3, Bytes (as_bytes (rs_correlation_id r))),
      (4, Unsigned (method_code (rs_method r))), (5, rs_body r)]"
| "rpc_entries (RpcFailure r) =
     [(1, Unsigned VERSION), (2, Unsigned 3), (3, Bytes (as_bytes (rf_correlation_id r))),
      (4, Unsigned (method_code (rf_method r))), (5, Text (error_code_text (rf_code r))), (6, CBool (rf_retryable r))]
     @ (case rf_details r of None \<Rightarrow> [] | Some details \<Rightarrow> [(7, details)])"

fun rpc_valid :: "rpc_message \<Rightarrow> bool" where
  "rpc_valid (RpcRequest r) \<longleftrightarrow> is_map (rq_body r)"
| "rpc_valid (RpcResponse r) \<longleftrightarrow> is_map (rs_body r)"
| "rpc_valid (RpcFailure r) \<longleftrightarrow> (\<forall>v. rf_details r = Some v \<longrightarrow> is_map v)"

fun rpc_norm :: "rpc_message \<Rightarrow> rpc_message" where
  "rpc_norm (RpcRequest r) = RpcRequest (r\<lparr>rq_body := canon (rq_body r)\<rparr>)"
| "rpc_norm (RpcResponse r) = RpcResponse (r\<lparr>rs_body := canon (rs_body r)\<rparr>)"
| "rpc_norm (RpcFailure r) = RpcFailure (r\<lparr>rf_details := map_option canon (rf_details r)\<rparr>)"

lemma to_cbor_ok [ok_iff]:
  "RpcMessage_to_cbor m = Inr v \<longleftrightarrow> rpc_valid m \<and> v = CMap (map ukey (rpc_entries m))"
  by (cases m)
    (auto simp: RpcRequest_to_cbor_def RpcResponse_to_cbor_def RpcFailure_to_cbor_def ok_iff rpc_envelope_def
       envelope_entries_def rpc_field_def split: option.splits)

lemma from_fields_ok:
  "RpcMessage_from_fields m = Inr r \<longleftrightarrow>
     (case r of
        RpcRequest x \<Rightarrow> RpcRequest_from_fields m = Inr x
      | RpcResponse x \<Rightarrow> RpcResponse_from_fields m = Inr x
      | RpcFailure x \<Rightarrow> RpcFailure_from_fields m = Inr x)"
proof
  assume "RpcMessage_from_fields m = Inr r"
  then obtain kind where
    "(case kind of
        MessageRequest \<Rightarrow> map_ok RpcRequest (RpcRequest_from_fields m)
      | MessageResponse \<Rightarrow> map_ok RpcResponse (RpcResponse_from_fields m)
      | MessageError \<Rightarrow> map_ok RpcFailure (RpcFailure_from_fields m)) = Inr r"
    by (auto simp: RpcMessage_from_fields_def rbind_ok)
  then show "case r of
        RpcRequest x \<Rightarrow> RpcRequest_from_fields m = Inr x
      | RpcResponse x \<Rightarrow> RpcResponse_from_fields m = Inr x
      | RpcFailure x \<Rightarrow> RpcFailure_from_fields m = Inr x"
    by (cases kind) (auto simp: map_ok_ok)
next
  assume asm: "case r of
        RpcRequest x \<Rightarrow> RpcRequest_from_fields m = Inr x
      | RpcResponse x \<Rightarrow> RpcResponse_from_fields m = Inr x
      | RpcFailure x \<Rightarrow> RpcFailure_from_fields m = Inr x"
  then have "bt_get m 2 = Some (Unsigned (case r of RpcRequest _ \<Rightarrow> 1 | RpcResponse _ \<Rightarrow> 2 | RpcFailure _ \<Rightarrow> 3))"
    by (auto simp: ok_iff split: rpc_message.splits)
  with asm show "RpcMessage_from_fields m = Inr r"
    by (cases r) (simp_all add: RpcMessage_from_fields_def rpc_required_unsigned_ref_def kind_from_code_def)
qed

section \<open>The codec\<close>

text \<open>The errors of this crate as those of the schema crate, which share the contract of a field map.\<close>

fun to_schema :: "rpc_error \<Rightarrow> schema_error" where
  "to_schema (RpcInvalidField n) = InvalidField n"
| "to_schema _ = RootNotMap"

lemma rpc_fields_loop_eq: "map_err to_schema (rpc_fields_loop es m) = fields_loop es m"
  by (induction es m rule: rpc_fields_loop.induct) (auto split: cbor_value.split)

lemma rpc_fields_eq: "map_err to_schema (rpc_fields v) = cbor_fields v"
  by (auto simp: rpc_fields_def cbor_fields_def rpc_fields_loop_eq split: cbor_value.split)

lemma rpc_entries_keys:
  "distinct (map fst (rpc_entries r))" "fst ` set (rpc_entries r) \<subseteq> {1, 2, 3, 4, 5, 6, 7}"
  by (cases r; auto split: option.splits)+

lemma absent_field: "fst ` set m \<subseteq> K \<Longrightarrow> k \<notin> K \<Longrightarrow> bt_get m k = None"
  by (auto simp: bt_get_def map_of_eq_None_iff)

lemma rpc_entries_read:
  assumes "RpcMessage_from_fields m = Inr r"
  shows "map_of (rpc_entries r) = bt_get m"
proof (rule map_of_eq_known)
  show "fst ` set (rpc_entries r) \<subseteq> set [1, 2, 3, 4, 5, 6, 7]" using rpc_entries_keys(2) by simp
  show known: "fst ` set m \<subseteq> set [1, 2, 3, 4, 5, 6, 7]"
    using assms by (cases r) (auto simp: from_fields_ok ok_iff)
  show "\<forall>k\<in>set [1, 2, 3, 4, 5, 6, 7]. map_of (rpc_entries r) k = bt_get m k"
    using assms by (cases r) (auto simp: from_fields_ok ok_iff absent_field split: option.splits)
qed

lemma rpc_entries_inject:
  assumes "map_of (rpc_entries r) = map_of (rpc_entries r')"
  shows "r = r'"
proof -
  have eq: "map_of (rpc_entries r) k = map_of (rpc_entries r') k" for k using assms by simp
  show ?thesis
    using eq [of 2] eq [of 3] eq [of 4] eq [of 5] eq [of 6] eq [of 7]
    by (cases r; cases r') (auto simp: as_bytes_inject split: option.splits)
qed

lemma rpc_read_entries:
  assumes "RpcMessage_from_fields m = Inr r'" and "map_of (rpc_entries r) = bt_get m"
  shows "r' = r"
  using rpc_entries_read [OF assms(1)] assms(2) rpc_entries_inject by metis

lemma rpc_read_canon:
  "RpcMessage_from_fields m = Inr r \<Longrightarrow> RpcMessage_from_fields (canon_fields m) = Inr (rpc_norm r)"
  by (cases r) (auto simp: from_fields_ok ok_iff is_map_canon)

interpretation rpc: schema_fields rpc_entries "\<lambda>r. CMap (map ukey (rpc_entries r))"
  "\<lambda>m. map_err to_schema (RpcMessage_from_fields m)" "\<lambda>v. map_err to_schema (RpcMessage_from_cbor v)" rpc_norm
proof
  show "map_err to_schema (RpcMessage_from_cbor v) =
     rbind (cbor_fields v) (\<lambda>m. map_err to_schema (RpcMessage_from_fields m))" for v
    by (cases "rpc_fields v") (simp_all add: RpcMessage_from_cbor_def flip: rpc_fields_eq)
qed (auto simp: rpc_entries_keys map_err_ok intro: rpc_entries_read rpc_read_entries rpc_read_canon)

lemmas rpc_from_cbor = map_err_ok [of to_schema "RpcMessage_from_cbor _"]

lemma rpc_from_cbor_valid: "RpcMessage_from_cbor v = Inr m \<Longrightarrow> rpc_valid m"
  by (cases m) (auto simp: RpcMessage_from_cbor_def rbind_ok from_fields_ok ok_iff)

lemma rpc_from_to_cbor:
  assumes "rpc_valid m"
  shows "RpcMessage_from_cbor (CMap (map ukey (rpc_entries m))) = Inr m"
proof -
  have wf: "bt_wf (rpc_entries m)" by (cases m) (auto simp: bt_wf_def split: option.splits)
  then have "cbor_fields (CMap (map ukey (rpc_entries m))) = Inr (rpc_entries m)" by (auto simp: ok_iff)
  then have "rpc_fields (CMap (map ukey (rpc_entries m))) = Inr (rpc_entries m)"
    by (simp add: map_err_ok flip: rpc_fields_eq)
  moreover have "RpcMessage_from_fields (rpc_entries m) = Inr m"
    using assms by (cases m) (auto simp: from_fields_ok ok_iff split: option.splits)
  ultimately show ?thesis by (simp add: RpcMessage_from_cbor_def)
qed

lemma rpc_decode_encode:
  assumes "rpc_valid m" and "encode (CMap (map ukey (rpc_entries m))) = Inr b"
  shows "\<exists>v. decode b = Inr v \<and> RpcMessage_from_cbor v = Inr (rpc_norm m)"
  using decode_encode [OF assms(2)] rpc.from_cbor_canon [of "CMap (map ukey (rpc_entries m))" m] rpc_from_to_cbor [OF assms(1)]
  by (simp add: map_err_ok del: canon.simps)

lemma rpc_encode_decode:
  assumes "decode b = Inr v" and "RpcMessage_from_cbor v = Inr m"
  shows "encode (CMap (map ukey (rpc_entries m))) = Inr b"
  using rpc.encode_to_cbor [OF assms(1)] assms(2) by (simp add: map_err_ok)

section \<open>Frames\<close>

lemma unat_of_length: "n \<le> 65536 \<Longrightarrow> unat (of_nat n :: u32) = n"
  by (simp add: unat_of_nat)

lemma encode_frame_ok:
  "encode_frame m = Inr f \<longleftrightarrow> (\<exists>b. rpc_valid m \<and> encode (CMap (map ukey (rpc_entries m))) = Inr b
     \<and> length b \<le> 65536 \<and> f = u32_to_be (of_nat (length b)) @ b)"
  by (auto simp: encode_frame_def ok_iff if_ok)

lemma decode_frame_ok:
  "decode_frame f = Inr m \<longleftrightarrow> (\<exists>b v. f = u32_to_be (of_nat (length b)) @ b \<and> length b \<le> 65536
     \<and> decode b = Inr v \<and> RpcMessage_from_cbor v = Inr m)"
proof
  assume "decode_frame f = Inr m"
  then obtain v where len: "4 \<le> length f" "length f - 4 \<le> 65536"
      and declared: "unat (u32_from_be (take 4 f)) = length f - 4"
      and v: "decode (drop 4 f) = Inr v" "RpcMessage_from_cbor v = Inr m"
    by (auto simp: decode_frame_def Let_def if_ok ok_iff split: if_splits)
  have "u32_from_be (take 4 f) = of_nat (length (drop 4 f))"
    using declared by (simp only: word_unat_eq_iff length_drop unat_of_length [OF len(2)])
  then have "take 4 f = u32_to_be (of_nat (length (drop 4 f)))"
    using u32_to_from_be [of "take 4 f"] len(1) by simp
  then show "\<exists>b v. f = u32_to_be (of_nat (length b)) @ b \<and> length b \<le> 65536
     \<and> decode b = Inr v \<and> RpcMessage_from_cbor v = Inr m"
    using len v by (metis append_take_drop_id length_drop)
qed (auto simp: decode_frame_def Let_def unat_of_length)

interpretation rpc_frame: canonical_codec encode_frame decode_frame rpc_norm
proof
  show "encode_frame m = Inr f \<Longrightarrow> decode_frame f = Inr (rpc_norm m)" for m f
    using rpc_decode_encode by (fastforce simp: encode_frame_ok decode_frame_ok)
  show "decode_frame f = Inr m \<Longrightarrow> encode_frame m = Inr f" for m f
    using rpc_encode_decode rpc_from_cbor_valid by (fastforce simp: encode_frame_ok decode_frame_ok)
qed

lemma decode_frame_length: "decode_frame f = Inr m \<Longrightarrow> 4 \<le> length f \<and> length f \<le> 65540"
  by (auto simp: decode_frame_ok)

lemma read_frame_decode:
  "read_frame (Inr packet) =
     (if 65540 < length packet then Inl (SocketIo (Error_new ErrorKind_InvalidData ''truncated seqpacket frame''))
      else case decode_frame packet of
          Inl (FramePayloadTooLarge _) \<Rightarrow> Inl OversizePayload
        | result \<Rightarrow> map_err SocketFrame result)"
  by (auto simp: read_frame_def decode_frame_def receive_def Let_def rbind_def map_err_def split: sum.splits)

lemma read_frame_ok: "read_frame (Inr packet) = Inr m \<longleftrightarrow> decode_frame packet = Inr m"
  using decode_frame_length [of packet m]
  by (auto simp: read_frame_decode split: sum.splits frame_error.splits)

section \<open>A request and its frame\<close>

definition demo_rpc :: rpc_message where
  "demo_rpc = RpcRequest \<lparr>rq_correlation_id = CorrelationId [7, 7, 7, 7, 7, 7, 7, 7, 7, 7, 7, 7, 7, 7, 7, 7], rq_method = GetRequest,
     rq_body = CMap [(Unsigned 2, Null), (Unsigned 1, CBool True)]\<rparr>"

definition demo_frame :: bytes where
  "demo_frame = [0, 0, 0, 31, 0xa5, 1, 1, 2, 1, 3, 0x50, 7, 7, 7, 7, 7, 7, 7, 7, 7, 7, 7, 7, 7, 7, 7, 7,
     4, 2, 5, 0xa2, 1, 0xf5, 2, 0xf6]"

lemma demo_encode: "encode_frame demo_rpc = Inr demo_frame"
  by (simp add: run demo_rpc_def demo_frame_def CorrelationId_inverse cong: rbind_weak_cong)

section \<open>Properties\<close>

text \<open>A frame that the broker writes is read back by the peer as the same message, its CBOR body in
  canonical order; it is a packet of at most 65540 bytes, so the receive buffer never truncates it.\<close>

theorem rpc_frame_delivered:
  assumes "write_frame kernel_send m = (Some packet, result)"
  shows "read_frame (Inr packet) = Inr (rpc_norm m) \<and> length packet \<le> 65540"
proof -
  from assms have enc: "encode_frame m = Inr packet" by (auto simp: write_frame_def split: sum.splits)
  then show ?thesis
    using rpc_frame.dec_of_enc [OF enc] decode_frame_length by (auto simp: read_frame_ok)
qed

theorem rpc_frame_delivered_witness:
  "read_frame (Inr demo_frame) = Inr (rpc_norm demo_rpc) \<and> length demo_frame \<le> 65540"
proof (rule rpc_frame_delivered)
  show "write_frame (\<lambda>packet. Inr (length packet)) demo_rpc = (Some demo_frame, Inr ())"
    by (simp add: write_frame_def demo_encode send_def)
qed

text \<open>C34: A packet is accepted as a message exactly when it is the frame the broker writes for that message
  and the message is in canonical form: no message has two encodings.\<close>

theorem rpc_frame_canonical:
  "read_frame (Inr packet) = Inr m \<longleftrightarrow> encode_frame m = Inr packet \<and> rpc_norm m = m"
  by (simp add: read_frame_ok rpc_frame.dec_iff)

text \<open>Packet boundaries are frame boundaries: a packet with the length prefix of an accepted frame but
  another length (cut short, or with bytes or a second frame after it) is refused with that mismatch.\<close>

theorem misframed_packet_refused:
  assumes "read_frame (Inr packet) = Inr m" and "take 4 packet' = take 4 packet"
    and "length packet' \<noteq> length packet" and "4 \<le> length packet'" and "length packet' \<le> 65540"
  shows "read_frame (Inr packet') = Inl (SocketFrame (LengthMismatch (length packet - 4) (length packet' - 4)))"
proof -
  from assms(1) obtain b where b: "packet = u32_to_be (of_nat (length b)) @ b" "length b \<le> 65536"
    by (auto simp: read_frame_ok decode_frame_ok)
  then have "unat (u32_from_be (take 4 packet')) = length b" using assms(2) by (simp add: unat_of_length)
  with b assms(3-5) show ?thesis by (auto simp: read_frame_def receive_def Let_def)
qed

theorem misframed_packet_refused_witness:
  "read_frame (Inr (demo_frame @ demo_frame)) = Inl (SocketFrame (LengthMismatch 31 66))"
proof -
  have "read_frame (Inr demo_frame) = Inr (rpc_norm demo_rpc)"
    using rpc_frame.dec_of_enc [OF demo_encode] by (simp add: read_frame_ok)
  from misframed_packet_refused [OF this, of "demo_frame @ demo_frame"] show ?thesis
    by (simp add: demo_frame_def)
qed

text \<open>Reading from the socket is decoding the packet: \<^verbatim>\<open>read_frame\<close> checks the lengths before
  \<^verbatim>\<open>decode_frame\<close> does, and agrees with it on every packet, up to the name of the oversize error and the
  truncation the kernel reports.\<close>

theorem read_frame_equals_decode_frame:
  "read_frame (Inr packet) =
     (if 65540 < length packet then Inl (SocketIo (Error_new ErrorKind_InvalidData ''truncated seqpacket frame''))
      else case decode_frame packet of
          Inl (FramePayloadTooLarge _) \<Rightarrow> Inl OversizePayload
        | result \<Rightarrow> map_err SocketFrame result)"
  by (rule read_frame_decode)

text \<open>Every message that leaves the reader is well typed: request and response bodies, and failure
  details where present, are CBOR maps, and writing the message back never fails for its shape.\<close>

theorem read_message_well_typed:
  assumes "read_frame (Inr packet) = Inr m"
  shows "rpc_valid m \<and> RpcMessage_to_cbor m = Inr (CMap (map ukey (rpc_entries m)))"
proof -
  have "rpc_valid m" using assms rpc_from_cbor_valid by (auto simp: read_frame_ok decode_frame_ok)
  then show ?thesis by (simp add: to_cbor_ok)
qed

theorem read_message_well_typed_witness: "rpc_valid (rpc_norm demo_rpc)"
  using read_message_well_typed [of demo_frame "rpc_norm demo_rpc"] rpc_frame.dec_of_enc [OF demo_encode]
  by (simp add: read_frame_ok)

end
