(* ===== verification/Socket_Files.thy ===== *)
theory Socket_Files
  imports Peercred
begin

unbundle bit_operations_syntax

text \<open>
  The life of the two listening sockets of \<^verbatim>\<open>crates/rp-broker-api/src/lib.rs\<close> in the file system: \<^verbatim>\<open>bind\<close>
  creates a path and sets its mode, the \<^verbatim>\<open>Drop\<close> of the socket removes it.
\<close>

section \<open>Dropping\<close>

text \<open>\<^verbatim>\<open>remove_file\<close>, whose result is dropped; \<open>removed\<close> says whether it succeeded.\<close>

definition LocalSocket_drop :: "bool \<Rightarrow> bound_socket \<Rightarrow> directory \<Rightarrow> directory" where
  [run]: "LocalSocket_drop removed s dir = (if removed then dir(bs_path s := None) else dir)"

definition AdminSocket_drop :: "bool \<Rightarrow> bound_socket \<Rightarrow> directory \<Rightarrow> directory" where
  [run]: "AdminSocket_drop removed s dir = (if removed then dir(bs_path s := None) else dir)"

section \<open>Lemmas\<close>

lemma rejected_present:
  assumes "dir path \<noteq> None"
  obtains e where "reject_existing (symlink_metadata fs path dir) = Inl e"
  using assms by (cases "reject_existing (symlink_metadata fs path dir)") auto

lemma reject_existing_present:
  "dir path \<noteq> None \<Longrightarrow> sf_symlink_error fs = None \<Longrightarrow>
     reject_existing (symlink_metadata fs path dir) = Inl (Error_new ErrorKind_AlreadyExists ''socket path exists'')"
  by (auto simp: reject_existing_def symlink_metadata_def ok_or_def)

text \<open>What the successful outcome of either socket leaves.\<close>

lemma bound_effect:
  assumes "LocalSocket_bind fs k fresh path mode dir = (Inr s, dir')
     \<or> AdminSocket_bind fs k fresh path dir = (Inr s, dir') \<and> mode = 0x180"
  shows "validate_socket_parent fs = Inr () \<and> dir path = None \<and> bs_path s = path \<and> k_socket k = Inr (bs_listener s)
     \<and> dir' = dir(path \<mapsto> fresh\<lparr>md_mode := mode\<rparr>) \<and> mode AND NOT 0x1F8 = 0 \<and> 0 \<notin> set path \<and> length path < 108"
  using assms
  by (auto simp: LocalSocket_bind_def AdminSocket_bind_def io_bind_ok set_permissions_ok split: if_split_asm
      dest!: SeqPacketListener_bind_ok)

text \<open>An occupied path is never touched.\<close>

lemma occupied_path:
  assumes "dir path \<noteq> None"
  shows "snd (LocalSocket_bind fs k fresh path mode dir) = dir \<and> snd (AdminSocket_bind fs k fresh path dir) = dir
     \<and> fst (LocalSocket_bind fs k fresh path mode dir) \<noteq> Inr s \<and> fst (AdminSocket_bind fs k fresh path dir) \<noteq> Inr s"
proof -
  from assms obtain e where "reject_existing (symlink_metadata fs path dir) = Inl e" by (rule rejected_present)
  then show ?thesis
    by (auto simp: LocalSocket_bind_def AdminSocket_bind_def io_bind_def split: sum.split)
qed

lemma no_write_bits: "w AND 0x12 = 0 \<Longrightarrow> \<not> bit w 4 \<and> \<not> bit w 1" for w :: u32
proof -
  have "bit (0x12 :: u32) 4" "bit (0x12 :: u32) 1" by simp_all
  then show "w AND 0x12 = 0 \<Longrightarrow> \<not> bit w 4 \<and> \<not> bit w 1" by (metis bit_0_eq bit_and_iff bot_apply bot_bool_def)
qed

section \<open>Example\<close>

definition demo_fs :: socket_fs where
  [run]: "demo_fs = \<lparr>sf_parent = Some (Inr \<lparr>md_is_dir = True, md_uid = 0, md_mode = 0x1C0\<rparr>),
     sf_symlink_error = None, sf_set_permissions = (\<lambda>_. Inr ())\<rparr>"

definition demo_kernel :: kernel where
  [run]: "demo_kernel = \<lparr>k_socket = Inr 3, k_bind = (\<lambda>_. Inr ()), k_listen = Inr (), k_connect = (\<lambda>_. Inr ())\<rparr>"

definition demo_socket_metadata :: metadata where
  [run]: "demo_socket_metadata = \<lparr>md_is_dir = False, md_uid = 0, md_mode = 0x1ED\<rparr>"

lemma demo_bound:
  "LocalSocket_bind demo_fs demo_kernel demo_socket_metadata (str ''/r'') 0x1B0 (\<lambda>_. None)
     = (Inr \<lparr>bs_listener = 3, bs_path = str ''/r''\<rparr>, (\<lambda>_. None)(str ''/r'' \<mapsto> demo_socket_metadata\<lparr>md_mode := 0x1B0\<rparr>))"
  "AdminSocket_bind demo_fs demo_kernel demo_socket_metadata (str ''/r'') (\<lambda>_. None)
     = (Inr \<lparr>bs_listener = 3, bs_path = str ''/r''\<rparr>, (\<lambda>_. None)(str ''/r'' \<mapsto> demo_socket_metadata\<lparr>md_mode := 0x180\<rparr>))"
  by (simp_all add: run)

section \<open>Properties\<close>

text \<open>C35: the sockets are private once they are bound. When \<^verbatim>\<open>bind\<close> succeeds, the path is in a root-owned
  directory that neither group nor others can write, nothing was there before, and what is there now has
  exactly the requested mode, in which no bit is set for others, for a requester socket, and mode 0600, with which only the owner
  reads and writes, for the administration socket; no other path has changed.\<close>

theorem sockets_bound_privately:
  "(LocalSocket_bind fs k fresh path mode dir = (Inr s, dir') \<longrightarrow>
      (\<exists>d. sf_parent fs = Some (Inr d) \<and> md_is_dir d \<and> md_uid d = 0 \<and> \<not> bit (md_mode d) 4 \<and> \<not> bit (md_mode d) 1)
    \<and> dir path = None \<and> (\<exists>m. dir' path = Some m \<and> md_mode m = mode \<and> (\<forall>n. bit (md_mode m) n \<longrightarrow> 3 \<le> n \<and> n < 9))
    \<and> (\<forall>other. other \<noteq> path \<longrightarrow> dir' other = dir other))
   \<and> (AdminSocket_bind fs k fresh path dir = (Inr s, dir') \<longrightarrow>
      (\<exists>d. sf_parent fs = Some (Inr d) \<and> md_is_dir d \<and> md_uid d = 0 \<and> \<not> bit (md_mode d) 4 \<and> \<not> bit (md_mode d) 1)
    \<and> dir path = None \<and> (\<exists>m. dir' path = Some m \<and> (\<forall>n. bit (md_mode m) n \<longleftrightarrow> n = 7 \<or> n = 8))
    \<and> (\<forall>other. other \<noteq> path \<longrightarrow> dir' other = dir other))"
proof -
  have parent: "\<exists>d. sf_parent fs = Some (Inr d) \<and> md_is_dir d \<and> md_uid d = 0 \<and> \<not> bit (md_mode d) 4 \<and> \<not> bit (md_mode d) 1"
    if "validate_socket_parent fs = Inr ()"
    using that no_write_bits by (auto simp: ok_iff)
  have owner: "bit (0x180 :: u32) n \<longleftrightarrow> n = 7 \<or> n = 8" for n
    by (auto simp: bit_numeral_rec bit_1_iff numeral_eq_Suc split: nat.splits)
  show ?thesis
    using bound_effect [of fs k fresh path mode dir s dir'] bound_effect [of fs k fresh path "0x180" dir s dir'] parent owner private_mode
    by auto
qed

theorem sockets_bound_privately_witness:
  "\<exists>s dir' m. AdminSocket_bind demo_fs demo_kernel demo_socket_metadata (str ''/r'') (\<lambda>_. None) = (Inr s, dir')
     \<and> dir' (str ''/r'') = Some m \<and> bit (md_mode demo_socket_metadata) 2 \<and> (\<forall>n. bit (md_mode m) n \<longleftrightarrow> n = 7 \<or> n = 8)"
proof -
  have "bit (md_mode demo_socket_metadata) 2" by (simp add: demo_socket_metadata_def)
  with sockets_bound_privately [THEN conjunct2, THEN mp, OF demo_bound(2)] demo_bound(2) show ?thesis by blast
qed

text \<open>C36: a listening socket owns its path. Binding succeeds only where nothing was and creates exactly one
  path with the requested mode; until it is dropped, no socket of either kind can be bound there and no
  attempt to do so changes the directory; dropping it leaves the directory as it was before.\<close>

theorem socket_path_exclusive:
  assumes "LocalSocket_bind fs k fresh path mode dir = (Inr s, dir')
     \<or> AdminSocket_bind fs k fresh path dir = (Inr s, dir') \<and> mode = 0x180"
  shows "dir path = None \<and> dir' = dir(path \<mapsto> fresh\<lparr>md_mode := mode\<rparr>)
     \<and> snd (LocalSocket_bind fs' k' fresh' path mode' dir') = dir' \<and> snd (AdminSocket_bind fs' k' fresh' path dir') = dir'
     \<and> fst (LocalSocket_bind fs' k' fresh' path mode' dir') \<noteq> Inr s' \<and> fst (AdminSocket_bind fs' k' fresh' path dir') \<noteq> Inr s'
     \<and> LocalSocket_drop True s dir' = dir \<and> AdminSocket_drop True s dir' = dir"
proof -
  from bound_effect [OF assms] have e: "dir path = None" "bs_path s = path" "dir' = dir(path \<mapsto> fresh\<lparr>md_mode := mode\<rparr>)"
    by simp_all
  then have "dir' path \<noteq> None" by simp
  from occupied_path [of dir' path, OF this] e show ?thesis by (auto simp: LocalSocket_drop_def AdminSocket_drop_def)
qed

theorem socket_path_exclusive_witness:
  "\<exists>s dir'. LocalSocket_bind demo_fs demo_kernel demo_socket_metadata (str ''/r'') 0x1B0 (\<lambda>_. None) = (Inr s, dir')
     \<and> fst (AdminSocket_bind demo_fs demo_kernel demo_socket_metadata (str ''/r'') dir') \<noteq> Inr s
     \<and> LocalSocket_drop True s dir' = (\<lambda>_. None)"
  using socket_path_exclusive [OF disjI1, OF demo_bound(1)] demo_bound(1) by blast

text \<open>A failure after the path was created leaves it behind. When \<^verbatim>\<open>listen\<close> or \<^verbatim>\<open>set_permissions\<close> fails, no
  socket value exists whose \<^verbatim>\<open>Drop\<close> would remove the path, and from then on every attempt to bind there
  fails, with the reason that the path exists.\<close>

theorem failed_bind_leaves_socket:
  assumes "AdminSocket_bind fs k fresh path dir = (Inl e, dir')" and "dir' path \<noteq> None" and "dir path = None"
    and "validate_socket_parent fs' = Inr ()" and "sf_symlink_error fs' = None"
  shows "dir' = dir(path \<mapsto> fresh)
     \<and> AdminSocket_bind fs' k' fresh' path dir' = (Inl (Error_new ErrorKind_AlreadyExists ''socket path exists''), dir')"
proof -
  have "dir' \<in> {dir, dir(path \<mapsto> fresh)}"
    using assms(1) SeqPacketListener_bind_effect [of k fresh path dir]
    by (auto simp: AdminSocket_bind_def io_bind_def set_permissions_def split: sum.splits prod.splits)
  with assms(2,3) have "dir' = dir(path \<mapsto> fresh)" by auto
  with reject_existing_present [of dir' path fs', OF assms(2,5)] assms(4) show ?thesis by (simp add: AdminSocket_bind_def io_bind_def)
qed

theorem failed_bind_leaves_socket_witness:
  "AdminSocket_bind demo_fs demo_kernel demo_socket_metadata (str ''/r'') ((\<lambda>_. None)(str ''/r'' \<mapsto> demo_socket_metadata))
     = (Inl (Error_new ErrorKind_AlreadyExists ''socket path exists''), (\<lambda>_. None)(str ''/r'' \<mapsto> demo_socket_metadata))"
proof -
  let ?k = "demo_kernel\<lparr>k_listen := Inl (Error_new ErrorKind_Other ''listen'')\<rparr>"
  have "AdminSocket_bind demo_fs ?k demo_socket_metadata (str ''/r'') (\<lambda>_. None)
      = (Inl (Error_new ErrorKind_Other ''listen''), (\<lambda>_. None)(str ''/r'' \<mapsto> demo_socket_metadata))" by (simp add: run)
  from failed_bind_leaves_socket [OF this, of demo_fs demo_kernel demo_socket_metadata] show ?thesis by (simp add: run)
qed

text \<open>The identity of a peer is the kernel's answer about the accepted descriptor and nothing else, and the
  administration socket keeps only root's.\<close>

theorem accepted_peer:
  "(AdminSocket_accept raw e peer = Inr stream \<longleftrightarrow>
     0 \<le> raw \<and> stream = raw \<and> (\<exists>c. peer raw = Inr (c, 12) \<and> \<not> cr_pid c <s 0 \<and> cr_uid c = 0))
   \<and> (LocalSocket_accept raw e peer = Inr (stream, p) \<longleftrightarrow>
     0 \<le> raw \<and> stream = raw \<and> (\<exists>c. peer raw = Inr (c, 12) \<and> \<not> cr_pid c <s 0
        \<and> p = \<lparr>pc_pid = cr_pid c, pc_uid = cr_uid c, pc_gid = cr_gid c\<rparr>))"
  by (auto simp: AdminSocket_accept_def LocalSocket_accept_def SeqPacketListener_accept_def peercred_get_def rbind_ok
      from_so_peer_cred_def case_prod_ok split: if_split_asm)

end
