(* ===== verification/Cli.thy ===== *)
theory Cli
  imports Intake
begin

text \<open>
  The command line clients of \<^verbatim>\<open>crates/rp-cli/src\<close>: the strict parser of the requester command
  (\<^verbatim>\<open>lib.rs\<close>), the administration command names, the JSON answers, and the two entry points
  (\<^verbatim>\<open>main.rs\<close>, \<^verbatim>\<open>admin.rs\<close>), which map the arguments of the process to the line they print. An argument is
  a list of bytes; \<^verbatim>\<open>OsString::into_string\<close> succeeds on valid UTF-8.
\<close>

section \<open>Requests and errors\<close>

record package_install_request =
  pi_package_name :: bytes
  pi_operation_key :: bytes
  pi_note :: "bytes option"

datatype admin_command = StartPairing | ChangeCredentials | Reconcile | Export | Purge | Unenroll

datatype parse_error =
    InvalidCommand
  | ParseInvalidPackageName
  | ParseInvalidOperationKey
  | InvalidNote
  | MissingValue
  | UnexpectedArgument
  | UnsupportedAdminCommand

fun parse_error_code :: "parse_error \<Rightarrow> string" where
  "parse_error_code InvalidCommand = ''invalid_command''"
| "parse_error_code UnsupportedAdminCommand = ''invalid_command''"
| "parse_error_code ParseInvalidPackageName = ''invalid_package_name''"
| "parse_error_code ParseInvalidOperationKey = ''invalid_operation_key''"
| "parse_error_code InvalidNote = ''invalid_note''"
| "parse_error_code MissingValue = ''invalid_arguments''"
| "parse_error_code UnexpectedArgument = ''invalid_arguments''"

fun parse_error_message :: "parse_error \<Rightarrow> string" where
  "parse_error_message InvalidCommand = ''only package install is supported''"
| "parse_error_message ParseInvalidPackageName = ''package name must be a Debian binary package base name''"
| "parse_error_message ParseInvalidOperationKey = ''operation key has an invalid format''"
| "parse_error_message InvalidNote = ''note exceeds the safe text contract''"
| "parse_error_message MissingValue = ''a required argument value is missing''"
| "parse_error_message UnexpectedArgument = ''unknown flag or unexpected argument''"
| "parse_error_message UnsupportedAdminCommand = ''unknown root administration command''"

section \<open>Validation\<close>

definition is_binary_package_name :: "bytes \<Rightarrow> bool" where
  [run]: "is_binary_package_name value \<longleftrightarrow>
     2 \<le> length value \<and> length value \<le> 64
     \<and> (case value of [] \<Rightarrow> False | first # _ \<Rightarrow> is_ascii_lowercase first \<or> is_ascii_digit first)
     \<and> list_all (\<lambda>b. b < 128) value
     \<and> list_all (\<lambda>b. is_ascii_lowercase b \<or> is_ascii_digit b \<or> b \<in> set (str ''+-.'')) value"

definition is_operation_key :: "bytes \<Rightarrow> bool" where
  [run]: "is_operation_key value \<longleftrightarrow>
     16 \<le> length value \<and> length value \<le> 128 \<and> list_all (\<lambda>b. is_ascii_alphanumeric b \<or> b \<in> set (str ''-_'')) value"

text \<open>Some character is a control character: U+0000 to U+001F, U+007F, and U+0080 to U+009F, which UTF-8
  writes as the byte C2 followed by one below A0.\<close>

fun any_control :: "bytes \<Rightarrow> bool" where
  "any_control [] \<longleftrightarrow> False"
| "any_control (b # r) \<longleftrightarrow>
     b < 0x20 \<or> b = 0x7F \<or> b = 0xC2 \<and> (case r of [] \<Rightarrow> False | c # _ \<Rightarrow> c < 0xA0) \<or> any_control r"

definition is_safe_note :: "bytes \<Rightarrow> bool" where
  [run]: "is_safe_note value \<longleftrightarrow> length value \<le> 512 \<and> \<not> any_control value"

section \<open>Parsing\<close>

definition arg :: "'a list \<Rightarrow> nat \<Rightarrow> 'a option" where
  [run]: "arg arguments i = (if i < length arguments then Some (arguments ! i) else None)"

definition parse_note :: "bytes list \<Rightarrow> parse_error + bytes option" where
  [run]: "parse_note arguments =
     (case arg arguments 5 of
        None \<Rightarrow> Inr None
      | Some flag \<Rightarrow>
          if flag = str ''--note'' then
            rbind (ok_or MissingValue (arg arguments 6)) (\<lambda>value.
              if \<not> is_safe_note value then Inl InvalidNote else Inr (Some value))
          else Inl UnexpectedArgument)"

definition parse_package_install :: "bytes list \<Rightarrow> parse_error + package_install_request" where
  [run]: "parse_package_install arguments =
     (if arg arguments 0 \<noteq> Some (str ''package'') \<or> arg arguments 1 \<noteq> Some (str ''install'') then Inl InvalidCommand
      else
        rbind (ok_or MissingValue (arg arguments 2)) (\<lambda>package_name.
        if \<not> is_binary_package_name package_name then Inl ParseInvalidPackageName
        else if arg arguments 3 \<noteq> Some (str ''--operation-key'') then
          Inl (if arg arguments 3 \<noteq> None then UnexpectedArgument else MissingValue)
        else
          rbind (ok_or MissingValue (arg arguments 4)) (\<lambda>operation_key.
          if \<not> is_operation_key operation_key then Inl ParseInvalidOperationKey
          else
            rbind (parse_note arguments) (\<lambda>note.
            let expected_length = if note \<noteq> None then 7 else 5 in
            if length arguments \<noteq> expected_length then Inl UnexpectedArgument
            else Inr \<lparr>pi_package_name = package_name, pi_operation_key = operation_key, pi_note = note\<rparr>))))"

definition parse_admin_command :: "bytes list \<Rightarrow> parse_error + admin_command" where
  [run]: "parse_admin_command arguments =
     (if length arguments \<noteq> 1 then Inl UnexpectedArgument
      else if arguments ! 0 = str ''start-pairing'' then Inr StartPairing
      else if arguments ! 0 = str ''change-credentials'' then Inr ChangeCredentials
      else if arguments ! 0 = str ''reconcile'' then Inr Reconcile
      else if arguments ! 0 = str ''export'' then Inr Export
      else if arguments ! 0 = str ''purge'' then Inr Purge
      else if arguments ! 0 = str ''unenroll'' then Inr Unenroll
      else Inl UnsupportedAdminCommand)"

section \<open>Answers and entry points\<close>

definition error_json :: "string \<Rightarrow> string \<Rightarrow> bytes" where
  [run]: "error_json code message =
     str (''{\"ok\":false,\"error\":{\"code\":\"'' @ code @ ''\",\"message\":\"'' @ message @ ''\"}}'')"

definition parse_error_json :: "parse_error \<Rightarrow> bytes" where
  [run]: "parse_error_json error = error_json (parse_error_code error) (parse_error_message error)"

definition invalid_arguments_json :: bytes where
  [run]: "invalid_arguments_json = error_json ''invalid_arguments'' ''arguments must be valid UTF-8''"

definition broker_unavailable_json :: bytes where
  [run]: "broker_unavailable_json = error_json ''temporarily_unavailable'' ''local broker RPC is not implemented''"

definition admin_unavailable_json :: bytes where
  [run]: "admin_unavailable_json = error_json ''temporarily_unavailable'' ''root administration RPC is not implemented''"

definition utf8_arguments :: "bytes list \<Rightarrow> bytes list option" where
  [run]: "utf8_arguments arguments = (if list_all valid_utf8 arguments then Some arguments else None)"

definition requester_main :: "bytes list \<Rightarrow> bytes" where
  [run]: "requester_main args_os =
     (case utf8_arguments (drop 1 args_os) of
        None \<Rightarrow> invalid_arguments_json
      | Some arguments \<Rightarrow>
          (case parse_package_install arguments of
             Inr _ \<Rightarrow> broker_unavailable_json
           | Inl error \<Rightarrow> parse_error_json error))"

definition admin_main :: "bytes list \<Rightarrow> bytes" where
  [run]: "admin_main args_os =
     (case utf8_arguments (drop 1 args_os) of
        None \<Rightarrow> invalid_arguments_json
      | Some arguments \<Rightarrow>
          (case parse_admin_command arguments of
             Inr _ \<Rightarrow> admin_unavailable_json
           | Inl error \<Rightarrow> parse_error_json error))"

section \<open>Lemmas\<close>

lemma package_name_agrees: "is_binary_package_name value \<longleftrightarrow> PackageName_parse value = Inr (PackageName value)"
proof -
  have ascii: "is_ascii_lowercase b \<or> is_ascii_digit b \<or> b \<in> set (str ''+-.'') \<Longrightarrow> b < 128" for b
    by (auto simp: is_ascii_lowercase_def is_ascii_digit_def str_def word_le_nat_alt word_less_nat_alt)
  have chars: "is_ascii_lowercase b \<or> is_ascii_digit b \<or> b \<in> set (str ''+-.'') \<longleftrightarrow> is_package_character b" for b
    by (auto simp: is_package_character_def str_def)
  show ?thesis
    using ascii unfolding chars
    by (cases "value") (auto simp: is_binary_package_name_def PackageName_parse_def chars list_all_iff is_package_character_def)
qed

lemma operation_key_agrees: "is_operation_key value \<longleftrightarrow> OperationKey_parse value = Inr (OperationKey value)"
  by (auto simp: is_operation_key_def OperationKey_parse_def is_base64url_def str_def list_all_iff)

text \<open>The command line that asks for a request.\<close>

definition command_line :: "package_install_request \<Rightarrow> bytes list" where
  "command_line r =
     [str ''package'', str ''install'', pi_package_name r, str ''--operation-key'', pi_operation_key r]
     @ (case pi_note r of None \<Rightarrow> [] | Some note \<Rightarrow> [str ''--note'', note])"

definition request_valid :: "package_install_request \<Rightarrow> bool" where
  "request_valid r \<longleftrightarrow> is_binary_package_name (pi_package_name r) \<and> is_operation_key (pi_operation_key r)
     \<and> (\<forall>note. pi_note r = Some note \<longrightarrow> is_safe_note note)"

lemma five: "length xs = 5 \<Longrightarrow> xs = [xs ! 0, xs ! 1, xs ! 2, xs ! 3, xs ! 4]"
  by (auto simp: numeral_eq_Suc length_Suc_conv)

lemma seven: "length xs = 7 \<Longrightarrow> xs = [xs ! 0, xs ! 1, xs ! 2, xs ! 3, xs ! 4, xs ! 5, xs ! 6]"
  by (auto simp: numeral_eq_Suc length_Suc_conv)

lemma parse_note_ok [ok_iff]:
  "parse_note arguments = Inr note \<longleftrightarrow>
     (case note of
        None \<Rightarrow> length arguments \<le> 5
      | Some n \<Rightarrow> 6 < length arguments \<and> arguments ! 5 = str ''--note'' \<and> arguments ! 6 = n \<and> is_safe_note n)"
  by (auto simp: parse_note_def arg_def ok_or_def rbind_ok split: option.splits if_splits)

lemma parse_command_line: "request_valid r \<Longrightarrow> parse_package_install (command_line r) = Inr r"
  by (cases r) (auto simp: request_valid_def command_line_def parse_package_install_def parse_note_def arg_def ok_or_def split: option.splits)

lemma parse_package_install_ok:
  assumes "parse_package_install arguments = Inr r"
  shows "arguments = command_line r \<and> request_valid r"
proof -
  from assms have a: "arg arguments 0 = Some (str ''package'')" "arg arguments 1 = Some (str ''install'')"
      "arg arguments 2 = Some (pi_package_name r)" "arg arguments 3 = Some (str ''--operation-key'')"
      "arg arguments 4 = Some (pi_operation_key r)" "is_binary_package_name (pi_package_name r)"
      "is_operation_key (pi_operation_key r)" "parse_note arguments = Inr (pi_note r)"
      "length arguments = (if pi_note r \<noteq> None then 7 else 5)"
    by (auto simp: parse_package_install_def ok_or_def rbind_ok Let_def split: option.splits if_splits)
  show ?thesis
  proof (cases "pi_note r")
    case None
    then have "length arguments = 5" using a(9) by simp
    from five [OF this] a None show ?thesis
      by (simp add: arg_def command_line_def request_valid_def split: if_splits)
  next
    case (Some n)
    then have "length arguments = 7" using a(9) by simp
    from seven [OF this] a Some show ?thesis
      by (simp add: arg_def command_line_def request_valid_def parse_note_ok split: if_splits)
  qed
qed

section \<open>Properties\<close>

text \<open>C37: The requester command line has one form per request: the parser accepts exactly the arguments that
  spell a valid request, in their fixed order and with nothing after them, and returns that request.\<close>

theorem command_line_exact:
  "parse_package_install arguments = Inr r \<longleftrightarrow> arguments = command_line r \<and> request_valid r"
  using parse_command_line parse_package_install_ok by blast

text \<open>C38: The client validates as the broker does: a name or key passes the command line check exactly when
  the broker's intake parser accepts it, so no accepted command is refused there for its form.\<close>

theorem cli_agrees_with_intake:
  "(is_binary_package_name value \<longleftrightarrow> PackageName_parse value = Inr (PackageName value))
   \<and> (is_operation_key value \<longleftrightarrow> OperationKey_parse value = Inr (OperationKey value))"
  using package_name_agrees operation_key_agrees by blast

end
