(* ===== verification/Testkit.thy ===== *)
theory Testkit
  imports Relay_Delivery "HOL-Library.Sublist"
begin

unbundle bit_operations_syntax

text \<open>
  The deterministic fixtures of \<^verbatim>\<open>crates/rp-testkit/src/lib.rs\<close>: the monotonic test clock, the
  \<^verbatim>\<open>xorshift64*\<close> byte source and the scripts of duplicated, dropped and reordered deliveries; and what the
  hosted projection makes of any such script.
\<close>

section \<open>Fixtures\<close>

record fake_monotonic_clock =
  fc_now_ns :: u64

definition clock_at :: "u64 \<Rightarrow> fake_monotonic_clock" where
  [run]: "clock_at now_ns = \<lparr>fc_now_ns = now_ns\<rparr>"

definition advance :: "u64 \<Rightarrow> fake_monotonic_clock \<Rightarrow> fake_monotonic_clock" where
  [run]: "advance duration_ns clock = clock\<lparr>fc_now_ns := saturating_add (fc_now_ns clock) duration_ns\<rparr>"

definition set_clock :: "u64 \<Rightarrow> fake_monotonic_clock \<Rightarrow> fake_monotonic_clock" where
  [run]: "set_clock now_ns clock = clock\<lparr>fc_now_ns := now_ns\<rparr>"

record fixture_bytes =
  fb_state :: u64

definition seeded :: "u64 \<Rightarrow> fixture_bytes" where
  [run]: "seeded seed = \<lparr>fb_state = seed\<rparr>"

definition next_state :: "u64 \<Rightarrow> u64" where
  [run]: "next_state s =
     (let s = s XOR drop_bit 12 s;
          s = s XOR push_bit 25 s;
          s = s XOR drop_bit 27 s
      in s * 0x2545F4914F6CDD1D)"

text \<open>The first byte of \<^verbatim>\<open>to_le_bytes\<close> is the low one.\<close>

fun next_array :: "nat \<Rightarrow> fixture_bytes \<Rightarrow> bytes \<times> fixture_bytes" where
  "next_array 0 f = ([], f)"
| "next_array (Suc n) f =
     (let s = next_state (fb_state f); (result, f) = next_array n (f\<lparr>fb_state := s\<rparr>) in (ucast s # result, f))"

datatype delivery_mutation = Deliver nat | DuplicateDelivery nat | Drop nat

fun mutate_one :: "'a list \<Rightarrow> delivery_mutation \<Rightarrow> 'a list" where
  "mutate_one input (Deliver i) = (if i < length input then [input ! i] else [])"
| "mutate_one input (DuplicateDelivery i) = (if i < length input then [input ! i, input ! i] else [])"
| "mutate_one input (Drop i) = []"

definition mutate_delivery :: "'a list \<Rightarrow> delivery_mutation list \<Rightarrow> 'a list" where
  [run]: "mutate_delivery input script = concat (map (mutate_one input) script)"

section \<open>Lemmas\<close>

lemma set_mutate_delivery: "set (mutate_delivery input script) \<subseteq> set input"
proof -
  have "set (mutate_one input x) \<subseteq> set input" for x by (cases x) auto
  then show ?thesis by (auto simp: mutate_delivery_def)
qed

definition ingest_all :: "verified_lifecycle_event list \<Rightarrow> projection_chain \<Rightarrow> projection_chain" where
  "ingest_all events c = fold (\<lambda>event c. snd (ingest event c)) events c"

text \<open>The events of one chain: numbered from one.\<close>

definition event_stream :: "bytes list \<Rightarrow> verified_lifecycle_event list" where
  "event_stream digests = map (\<lambda>k. \<lparr>vl_sequence = of_nat (Suc k), vl_event_digest = digests ! k\<rparr>) [0..<length digests]"

lemma log_ingest_prefix:
  assumes "event \<in> set (event_stream digests)" and "length digests < 2 ^ 64 - 1"
    and "prefix (fst l) digests"
  shows "prefix (fst (snd (log_ingest event l))) digests"
proof -
  from assms(1) obtain k where k: "k < length digests" "event = \<lparr>vl_sequence = of_nat (Suc k), vl_event_digest = digests ! k\<rparr>"
    by (auto simp: event_stream_def)
  have seq: "unat (vl_sequence event) = Suc k"
    using k assms(2) by (simp add: unat_of_nat_small del: of_nat_Suc)
  obtain ds frozen where l: "l = (ds, frozen)" by (cases l)
  have ds: "ds = take (length ds) digests" using assms(3) l by (auto simp: prefix_def)
  have "prefix (ds @ [digests ! k]) digests" if "k = length ds"
    using ds that k(1) by (metis take_Suc_conv_app_nth take_is_prefix)
  then show ?thesis
    using assms(3) k(2) seq by (auto simp: log_ingest_def l Let_def)
qed

lemma ingest_all_prefix:
  assumes "set events \<subseteq> set (event_stream digests)" and "length digests < 2 ^ 64 - 2"
    and "chain_inv c" and "prefix (fst (log_of c)) digests"
  shows "prefix (fst (log_of (ingest_all events c))) digests \<and> chain_inv (ingest_all events c)"
  using assms
proof (induction events arbitrary: c)
  case (Cons event events)
  let ?c = "snd (ingest event c)"
  have "length (pj_applied c) \<le> length digests" using Cons.prems(4) by (auto simp: log_of_def dest: prefix_length_le)
  then have room: "next_sequence c \<noteq> - 1" using Cons.prems(2,3) by (intro next_sequence_room) auto
  have "prefix (fst (log_of ?c)) digests"
    unfolding ingest_refines(2) [OF Cons.prems(3) room] using Cons.prems by (intro log_ingest_prefix) auto
  with Cons ingest_refines(3) [OF Cons.prems(3) room] show ?case by (simp add: ingest_all_def)
qed (simp add: ingest_all_def)

lemma drop_bit_fixpoint:
  assumes "0 < n" and "drop_bit n s = s"
  shows "s = (0 :: u64)"
proof (rule bit_eqI)
  fix i
  have "bit s (n + j)" if "bit s j" for j using assms(2) that by (metis bit_drop_bit_eq comp_apply)
  then have "bit s i \<Longrightarrow> bit s (k * n + i)" for k by (induction k) (auto simp: add.assoc)
  then have "bit s i \<Longrightarrow> bit s (64 * n + i)" .
  moreover have "\<not> bit s (64 * n + i)" using assms(1) bit_imp_le_length [of s "64 * n + i"] by auto
  ultimately show "bit s i = bit 0 i" by auto
qed

lemma push_bit_fixpoint:
  assumes "0 < n" and "push_bit n s = s"
  shows "s = (0 :: u64)"
proof (rule bit_eqI)
  fix i
  show "bit s i = bit 0 i"
  proof (induction i rule: less_induct)
    case (less i)
    have "bit s i \<Longrightarrow> n \<le> i \<and> bit s (i - n)" using assms(2) by (metis bit_push_bit_iff)
    then show ?case using less [of "i - n"] assms(1) by auto
  qed
qed

lemma odd_multiplier:
  assumes "s * 0x2545F4914F6CDD1D = 0"
  shows "s = (0 :: u64)"
proof -
  have "0x2545F4914F6CDD1D * 0x59071d96d81ecd35 = (1 :: u64)" by simp
  then have "s = s * (0x2545F4914F6CDD1D * 0x59071d96d81ecd35)" by (simp only: mult_1_right)
  also have "\<dots> = (s * 0x2545F4914F6CDD1D) * 0x59071d96d81ecd35" by (simp only: mult.assoc)
  also have "\<dots> = 0" by (simp only: assms mult_zero_left)
  finally show ?thesis .
qed

lemma xor_zero_iff: "a XOR b = 0 \<longleftrightarrow> a = (b :: u64)"
  by (auto simp: bit_eq_iff bit_xor_iff)

lemma next_state_nonzero: "next_state s = 0 \<longleftrightarrow> s = 0"
proof
  assume "next_state s = 0"
  then show "s = 0"
    unfolding next_state_def Let_def
    using odd_multiplier drop_bit_fixpoint [of 27] push_bit_fixpoint [of 25] drop_bit_fixpoint [of 12 s]
    by (metis xor_zero_iff zero_less_numeral)
qed (simp add: next_state_def)

lemma next_array_state: "fb_state (snd (next_array n f)) = (next_state ^^ n) (fb_state f)"
  by (induction n f rule: next_array.induct) (simp_all add: Let_def case_prod_beta funpow_swap1)

lemma next_array_zero: "fst (next_array n \<lparr>fb_state = 0\<rparr>) = replicate n 0"
  by (induction n) (simp_all add: Let_def case_prod_beta next_state_nonzero [THEN iffD2])

section \<open>Properties\<close>

text \<open>Whatever a relay does to a verified event stream (drops, duplicates, reorders), the projection
  holds a prefix of the stream's digests, in order: hostile delivery delays or freezes it and never
  corrupts it.\<close>

theorem hostile_delivery_prefix:
  assumes "length digests < 2 ^ 64 - 2"
  shows "prefix (fst (log_of (ingest_all (mutate_delivery (event_stream digests) script) ProjectionChain_default))) digests"
  using ingest_all_prefix [OF set_mutate_delivery assms chain_inv_default]
  by (simp add: log_of_def ProjectionChain_default_def)

theorem hostile_delivery_prefix_witness:
  "prefix (fst (log_of (ingest_all (mutate_delivery (event_stream [[1], [2], [3]])
     [Deliver 0, DuplicateDelivery 1, Drop 2, Deliver 0, Deliver 9]) ProjectionChain_default))) [[1], [2], [3]]"
  by (rule hostile_delivery_prefix) simp

text \<open>The fixture generator never degenerates: from a nonzero seed its state stays nonzero after any
  number of bytes, and from seed zero it is the constant zero.\<close>

theorem fixture_state_nonzero:
  "fb_state (snd (next_array n f)) = 0 \<longleftrightarrow> fb_state f = 0"
  "fst (next_array n (seeded 0)) = replicate n 0"
proof -
  have "(next_state ^^ n) s = 0 \<longleftrightarrow> s = 0" for s by (induction n) (simp_all add: next_state_nonzero)
  then show "fb_state (snd (next_array n f)) = 0 \<longleftrightarrow> fb_state f = 0" by (simp add: next_array_state)
  show "fst (next_array n (seeded 0)) = replicate n 0" by (simp add: seeded_def next_array_zero)
qed

end
