(* ===== verification/Spec2Isabelle.thy ===== *)
theory Spec2Isabelle
  imports Cbor_Codec Schema Schema_Records Cose Web_Authn Store_Properties Store_Recovery Store_Frozen Store_Ledger Private_Files
    Relay_Properties Relay_Rounds Rpc_Frames Socket_Files Cli Testkit
begin

text \<open>
  RootPermit lets an unprivileged process ask for one privileged operation, the installation of a package, and
  lets a person approve or deny it with a WebAuthn credential. This library models the Rust workspace under
  \<^verbatim>\<open>src/crates\<close> and proves what makes it correct.

  \<^bold>\<open>The program.\<close> A client (\<^verbatim>\<open>rp-cli\<close>) checks a command line and speaks to the root broker over a local
  packet socket (\<^verbatim>\<open>rp-peercred\<close>, \<^verbatim>\<open>rp-broker-api\<close>). The broker (\<^verbatim>\<open>rp-broker-core\<close>) stores the request,
  freezes a plan for it, signs it, waits for a decision, checks the WebAuthn assertion of the decision
  (\<^verbatim>\<open>rp-web-authn\<close>), and ends every request with a signed receipt. All signed objects are COSE envelopes over
  deterministic CBOR messages (\<^verbatim>\<open>rp-protocol\<close>). An unprivileged relay (\<^verbatim>\<open>rp-relay\<close>) carries them to the
  hosted service and back, at least once, and guards the service's view of a request's events.

  \<^bold>\<open>The theories\<close>, in the order they build on each other:
  \<^item> \<open>Prelude\<close>: machine integers, \<^verbatim>\<open>Result\<close>, big-endian layouts, saturating arithmetic, UTF-8, the locale
    \<open>canonical_codec\<close>. \<open>Ordered_Map\<close>: \<^verbatim>\<open>BTreeMap\<close> as an ordered association list behind the locale
    \<open>ordered_map\<close>.
  \<^item> \<open>Cbor\<close>, \<open>Cbor_Codec\<close>: \<^verbatim>\<open>rp-protocol/src/cbor.rs\<close>. The bounded parser and the canonical encoder; the
    parser accepts exactly the words of the grammar \<open>item\<close>, with map keys ordered by length first, the two are a
    canonical codec, and a decoded value is never larger than the message.
  \<^item> \<open>Digest\<close>, \<open>Schema_Fields\<close>, \<open>Schema\<close>, \<open>Schema_Records\<close>: \<^verbatim>\<open>digest.rs\<close>, \<^verbatim>\<open>ids.rs\<close>, \<^verbatim>\<open>schema.rs\<close>. Every message
    type with its fields, decoder, validator and digest. The locales \<open>schema_fields\<close> and \<open>schema_message\<close> state
    the contract of a message type and derive its wire form once; each type interprets them.
  \<^item> \<open>Cose\<close>: \<^verbatim>\<open>cose.rs\<close>. Signing, encoding, decoding and verifying an envelope; what a verified signature covers.
  \<^item> \<open>Web_Authn\<close>: \<^verbatim>\<open>rp-web-authn\<close>. The checks on a verified assertion before it counts as a decision.
  \<^item> \<open>Intake\<close>, \<open>Lifecycle\<close>: the typed inputs, the policy and the in-memory state machine \<^verbatim>\<open>LifecycleRecord\<close> of
    \<^verbatim>\<open>rp-broker-core\<close>. The locale \<open>lifecycle_machine\<close> gives history, finality and invariance for any machine whose
    steps follow permitted edges; it is interpreted on records and again on the store.
  \<^item> \<open>Store\<close>, \<open>Store_Invariants\<close>, \<open>Store_Operations\<close>, \<open>Store_Contracts\<close>, \<open>Store_Properties\<close>: the SQLite store of
    \<^verbatim>\<open>rp-broker-core\<close>. The tables are lists of rows with the constraints of the migrations, a transaction that fails
    leaves the database as it was; the effect of each operation, the invariant \<open>db_inv\<close>, and the promises of the
    broker, among them that an approval was authorized, that a decision is used once, that a terminal request is
    final and its receipt verifies. \<open>Store_Recovery\<close>: how a request leaves \<open>RecoveryRequired\<close>.
  \<^item> \<open>Store_Frames\<close>, \<open>Store_Concurrency\<close>: several handles on one database. \<^verbatim>\<open>apply_webauthn_submission\<close> is the one operation
    that is not a single transaction; a call of it is a machine whose steps are its statements, and \<open>broker_step\<close> is
    the step relation of any number of such calls and all other operations on one database. By rule induction over
    it, each successful call has the outcome its clock readings, the generation and the submitted decision call for,
    approvals are authorized at the moment they are committed, and one decision wins; run without interruption,
    the machine computes \<open>apply_webauthn_submission\<close>. \<open>Store_Frames\<close> holds what the operations leave alone.
  \<^item> \<open>Store_Frozen\<close>: no operation but \<^verbatim>\<open>prepare_for_decision\<close> writes the columns a decision is about, so an approval,
    however calls interleave, is one of the request that was submitted.
  \<^item> \<open>Store_Ledger\<close>: the abstract specification of the store, a ledger of requests, and the locale \<open>forward_simulation\<close>,
    interpreted on the interleaved broker and on the store alone.
  \<^item> \<open>Private_Files\<close>: \<^verbatim>\<open>BrokerSigningKey::load_or_create\<close> and \<^verbatim>\<open>BrokerStore::open\<close> over a path of the file system. Which
    files are accepted, that the key is stable, and that a broker keeps its identity across restarts.
  \<^item> \<open>Relay\<close>, \<open>Relay_Delivery\<close>, \<open>Relay_Properties\<close>, \<open>Relay_Rounds\<close>: \<^verbatim>\<open>rp-relay\<close>. The spool in memory and on disk, its snapshot
    format, retry delays, and the hosted projection. The disk maps paths to contents, so that the temporary file of a
    write is a file like any other, and may be the spool itself. The locale \<open>mailbox\<close> states at-least-once delivery and is
    interpreted on the spool and on the file spool under failing writes and restarts; the projection refines an
    append-only log; a round of attempts offers every ready envelope once.
  \<^item> \<open>Peercred\<close>, \<open>Socket_Files\<close>, \<open>Broker_Api\<close>, \<open>Rpc_Frames\<close>: \<^verbatim>\<open>rp-peercred\<close> and \<^verbatim>\<open>rp-broker-api\<close>. The socket endpoints
    bind in a directory of paths with their metadata, which each system call reads and changes; the life and the mode
    of a socket path are read from it. The RPC messages and frames: frames are a canonical codec and packets are accepted
    only as whole frames.
  \<^item> \<open>Cli\<close>: \<^verbatim>\<open>rp-cli\<close>. The command line parser accepts one form per request and validates as the broker does.
  \<^item> \<open>Testkit\<close>: \<^verbatim>\<open>rp-testkit\<close>. The test clock, the byte source, and delivery scripts, which the projection survives.

  The present theory states the wire form of all messages and composes the broker with the relay: stored histories can be followed by the projection, and
  receipts survive the relay as they were signed.

  \<^bold>\<open>Correspondence.\<close> A Rust struct is a \<open>record\<close>, an enum a \<open>datatype\<close>, \<^verbatim>\<open>u8\<close> to \<^verbatim>\<open>u64\<close> and \<^verbatim>\<open>i64\<close> are words of
  their width, a \<^verbatim>\<open>usize\<close> is a natural number, \<^verbatim>\<open>Result<T, E>\<close> is a sum with the error on the left, \<^verbatim>\<open>?\<close> is
  \<open>rbind\<close>, a \<^verbatim>\<open>&mut self\<close> method returns its state. SHA-256, Ed25519, the WebAuthn library, random bytes, the file
  system and the kernel are not code of the workspace: they are arguments, and a theorem names what it uses of them
  (that signatures of a key verify under its public key, that hashes of two different inputs differ).

  \<^bold>\<open>Trust.\<close> The theorems on approvals speak of decisions, which \<^verbatim>\<open>apply_webauthn_submission\<close> commits. The public method
  \<^verbatim>\<open>transition_nonterminal\<close> moves a pending request to \<open>Approved\<close> without an assertion, as the edges permit; its callers
  are inside the broker process.

  \<^bold>\<open>Bounds.\<close> The one function with fuel is \<open>run_call\<close>, which runs a decision call for a number of its own statements;
  six are enough for every call on whatever it reads, which is proved. The CBOR parser terminates because nesting is limited to 16 levels and each loop
  counts its items down; every other recursion is structural. Histories have at most six events, so sequence numbers
  never reach a limit; the two theorems on the projection that need room below \<open>2\<^sup>6\<^sup>4\<close> say so.

  \<^bold>\<open>Not modelled.\<close> The system calls themselves and SQLite (SQL parsing, locking, durability of a commit): their results
  are arguments, and a transaction is atomic. A loss of power, which may undo file operations that were not synced: a
  restart finds the files as the last operation left them, finished or failed. One-line accessors and \<^verbatim>\<open>Display\<close> texts, the helper \<^verbatim>\<open>transition\<close> compiled only for tests, and the unit tests. The
  hosted service in TypeScript, the apt helper in C++, and the continuous integration scripts are not Rust code of the
  workspace.
\<close>

section \<open>Signed messages\<close>

text \<open>C22: every v1 message has one canonical wire form. For the request, the approval context, the decision
  submission, the plan manifest, the lifecycle event, the receipt, the enrollment statement, the service
  keyset and the revocation event, \<^verbatim>\<open>decode\<close> returns a message for exactly the bytes \<^verbatim>\<open>canonical_bytes\<close> writes for it
  (opaque values inside it in canonical map order); so no two byte strings decode to the same message.\<close>

theorem message_wire_forms:
  "(Request_decode b = Inr q \<longleftrightarrow> Request_canonical_bytes q = Inr b \<and> Request_norm q = q)
   \<and> (ApprovalContext_decode b = Inr c \<longleftrightarrow> ApprovalContext_canonical_bytes c = Inr b)
   \<and> (DecisionSubmission_decode b = Inr s \<longleftrightarrow> DecisionSubmission_canonical_bytes s = Inr b)
   \<and> (PlanManifest_decode b = Inr p \<longleftrightarrow> PlanManifest_canonical_bytes p = Inr b \<and> PlanManifest_norm p = p)
   \<and> (LifecycleEvent_decode b = Inr l \<longleftrightarrow> LifecycleEvent_canonical_bytes l = Inr b)
   \<and> (Receipt_decode b = Inr r \<longleftrightarrow> Receipt_canonical_bytes r = Inr b \<and> Receipt_norm r = r)
   \<and> (EnrollmentStatement_decode b = Inr e \<longleftrightarrow>
        EnrollmentStatement_canonical_bytes e = Inr b \<and> EnrollmentStatement_norm e = e)
   \<and> (ServiceKeyset_decode b = Inr k \<longleftrightarrow> ServiceKeyset_canonical_bytes k = Inr b \<and> ServiceKeyset_norm k = k)
   \<and> (RevocationEvent_decode b = Inr v \<longleftrightarrow> RevocationEvent_canonical_bytes v = Inr b)"
  using request.dec_iff approval_context.dec_iff decision_submission.dec_iff plan_manifest.dec_iff lifecycle_event_msg.dec_iff
    receipt_msg.dec_iff enrollment_statement.dec_iff service_keyset.dec_iff revocation_event.dec_iff by simp

section \<open>The broker and the relay\<close>

text \<open>What the service verifier passes to the projection of a verified event.\<close>

definition verified :: "lifecycle_event \<Rightarrow> verified_lifecycle_event" where
  "verified e = \<lparr>vl_sequence = ev_sequence e, vl_event_digest = ev_event_digest e\<rparr>"

lemma history_stream:
  assumes "history_inv sha i st es"
  shows "map verified es = event_stream (map ev_event_digest es)"
proof -
  have "map ev_sequence es = map (\<lambda>k. of_nat (Suc k)) [0..<length es]"
    using assms chain_sequences [of sha "PublicId i" 0 None es] by (simp add: history_inv_def)
  then have "map ev_sequence es ! k = of_nat (Suc k)" if "k < length es" for k
    using that by (simp del: of_nat_Suc)
  then have "ev_sequence (es ! k) = of_nat (Suc k)" if "k < length es" for k using that by simp
  then show ?thesis
    by (intro nth_equalityI) (simp_all add: event_stream_def verified_def del: of_nat_Suc)
qed

text \<open>The events the store returns for a request are its history; there are none for an unknown request.\<close>

lemma stored_history:
  assumes "store_inv env s"
  shows "\<exists>es. events rid s = Inr es \<and> (es \<noteq> [] \<longrightarrow> (\<exists>st. history_inv (e_sha env) (public_id_str rid) st es))"
proof (cases "find_request (bs_db s) (public_id_str rid)")
  case None
  then have "event_rows (bs_db s) (public_id_str rid) = []"
    using assms by (auto simp: store_inv_def db_inv_def split: option.splits dest: spec [of _ "public_id_str rid"])
  then show ?thesis by (simp add: events_def events_of_def event_rows_def)
next
  case (Some r)
  then obtain es where es: "event_rows (bs_db s) (public_id_str rid) = map (row_of_event (public_id_str rid)) es"
      "history_inv (e_sha env) (public_id_str rid) (state_of r) es"
    using assms db_inv_at [of "e_sha env" "{}" "bs_db s"] by (auto simp: store_inv_def request_inv_def)
  then show ?thesis using events_inv [OF es refl] by blast
qed

lemma stored_events:
  assumes "store_inv env s"
  shows "\<exists>es. events rid s = Inr es \<and> length es \<le> 6 \<and> map verified es = event_stream (map ev_event_digest es)"
proof -
  from stored_history [OF assms] obtain es where es: "events rid s = Inr es"
      "es \<noteq> [] \<longrightarrow> (\<exists>st. history_inv (e_sha env) (public_id_str rid) st es)" by blast
  show ?thesis
  proof (cases "es = []")
    case False
    with es(2) obtain st where "history_inv (e_sha env) (public_id_str rid) st es" by blast
    with es(1) show ?thesis using history_stream history_short by blast
  qed (use es(1) in \<open>simp add: event_stream_def\<close>)
qed

lemma stream_sequences:
  "length digests < 2 ^ 64 \<Longrightarrow> map (unat \<circ> vl_sequence) (event_stream digests) = [1..<Suc (length digests)]"
  by (intro nth_equalityI) (simp_all add: event_stream_def unat_of_nat_small del: of_nat_Suc upt_Suc)

lemma stream_digests: "map vl_event_digest (event_stream digests) = digests"
  by (simp add: event_stream_def o_def map_nth)

lemma length_event_stream [simp]: "length (event_stream digests) = length digests"
  by (simp add: event_stream_def)

text \<open>C30: The history a broker has stored is one the hosted projection can follow. After any operations on the
  store, the events of a request rebuild the projection from any state, frozen or not, to exactly their
  digests; and under any script of lost, repeated and reordered deliveries the projection holds a prefix
  of them.\<close>

theorem stored_history_projects:
  "\<exists>s. in_memory env = Inr s \<and> (\<exists>es. events rid (fold (run_store env) ops s) = Inr es
     \<and> fst (restore_contiguous (map verified es) c) = Inr ()
     \<and> log_of (snd (restore_contiguous (map verified es) c)) = (map ev_event_digest es, False)
     \<and> prefix (fst (log_of (ingest_all (mutate_delivery (map verified es) script) ProjectionChain_default))) (map ev_event_digest es))"
proof -
  from store_inv_open [of env] obtain s where s: "in_memory env = Inr s" "store_inv env s" by blast
  then have "store_inv env (fold (run_store env) ops s)" using store_machine.good_run by blast
  from stored_events [OF this] obtain es where es: "events rid (fold (run_store env) ops s) = Inr es" "length es \<le> 6"
      "map verified es = event_stream (map ev_event_digest es)" by blast
  let ?ds = "map ev_event_digest es"
  have "length ?ds < 2 ^ 64 - 2" using es(2) by simp
  from ingest_all_prefix [OF set_mutate_delivery this chain_inv_default]
  have "prefix (fst (log_of (ingest_all (mutate_delivery (event_stream ?ds) script) ProjectionChain_default))) ?ds"
    by (simp add: log_of_def ProjectionChain_default_def)
  moreover have "fst (restore_contiguous (event_stream ?ds) c) = Inr ()
      \<and> log_of (snd (restore_contiguous (event_stream ?ds) c)) = (?ds, False)"
    using restore_contiguous_spec [of "event_stream ?ds" c] stream_sequences [of ?ds] stream_digests [of ?ds] es(2)
    by (simp del: upt_Suc)
  ultimately show ?thesis using s(1) es(1,3) by auto
qed

text \<open>C29: A receipt reaches the service as the broker signed it. A terminal transition's receipt, put in a
  relay envelope and enqueued successfully, is retained through failed writes and restarts until its
  acknowledgement, and what is retained still verifies under the broker's key and says how the request
  ended. Of Ed25519 it is used that the public key accepts the 64-byte signatures of the private key.\<close>

theorem receipt_survives_relay:
  assumes "transition_terminal env rnd rid expected next signer now_utc s = Inr (b, s')" and "store_inv env s"
    and "\<And>msg. ed_verify (vk_public_key key) msg (e_ed_sign env (sg_key signer) msg)"
    and "\<And>msg. length (e_ed_sign env (sg_key signer) msg) = 64"
    and "vk_kid key = sg_kid signer" and "RoleBroker \<in> set (vk_roles key)"
    and "sint (vk_not_before_utc key) \<le> sint at" and "sint at < sint (vk_not_after_utc key)"
    and "length i = 16" and "length ikey = 32" and "OpaqueEnvelope_new i BrokerToService KindReceipt ikey b = Inr e"
    and "file_inv f" and "fst (file_enqueue fault e now f) = Inr ()"
    and "list_all file_valid ops" and "Some (i, ikey) \<notin> file_acks ` set ops"
  shows "\<exists>c m. map_option oe_payload (durable (fold run_file ops (snd (file_enqueue fault e now f))) i) = Some b
     \<and> CoseSign1_decode b = Inr c
     \<and> CoseSign1_verify ed_verify c key \<lparr>vp_content_type = 3, vp_domain = DomainReceipt, vp_required_role = RoleBroker, vp_now_utc = at\<rparr> = Inr ()
     \<and> Receipt_decode (cs_payload c) = Inr m \<and> receipt_says env (bs_db s) rid next now_utc m"
proof -
  have e: "oe_envelope_id e = i" "oe_idempotency_key e = ikey" "oe_payload e = b" "envelope_ok e"
    using assms(9-11) by (auto simp: OpaqueEnvelope_new_ok envelope_ok_def)
  have "durable (fold run_file ops (snd (file_enqueue fault e now f))) i = Some e"
    using file_enqueue_retained [OF assms(12) e(4) assms(13,14)] assms(15) e(1,2) by simp
  moreover have "\<exists>c m. CoseSign1_decode b = Inr c
     \<and> CoseSign1_verify ed_verify c key \<lparr>vp_content_type = 3, vp_domain = DomainReceipt, vp_required_role = RoleBroker, vp_now_utc = at\<rparr> = Inr ()
     \<and> Receipt_decode (cs_payload c) = Inr m \<and> receipt_says env (bs_db s) rid next now_utc m"
    using assms(3-8) transition_terminal_receipt [OF assms(1,2), of ed_verify key at] by (simp add: broker_key_for_def)
  ultimately show ?thesis using e(3) by auto
qed

lemma demo_receipt:
  "\<exists>b s'. transition_terminal demo_env (Some (replicate 16 1)) demo_id Pending Cancelled demo_signer 20 demo_pending = Inr (b, s')
     \<and> length b \<le> 4096"
  unfolding demo_pending_def demo_planning_eq by (simp add: run list_all_iff cong: rbind_weak_cong)

theorem receipt_survives_relay_witness:
  "\<exists>b s' e c m. transition_terminal demo_env (Some (replicate 16 1)) demo_id Pending Cancelled demo_signer 20 demo_pending = Inr (b, s')
     \<and> map_option oe_payload (durable (fold run_file [FileNextDelivery 9, Reopen] (snd (file_enqueue None e 7 empty_file))) (replicate 16 8)) = Some b
     \<and> CoseSign1_decode b = Inr c \<and> Receipt_decode (cs_payload c) = Inr m
     \<and> receipt_says demo_env (bs_db demo_pending) demo_id Cancelled 20 m"
proof -
  from demo_receipt obtain b s' where
    t: "transition_terminal demo_env (Some (replicate 16 1)) demo_id Pending Cancelled demo_signer 20 demo_pending = Inr (b, s')"
      "length b \<le> 4096" by blast
  define e where "e = \<lparr>oe_envelope_id = replicate 16 (8 :: u8), oe_direction = BrokerToService, oe_kind = KindReceipt,
    oe_idempotency_key = replicate 32 9, oe_payload = b\<rparr>"
  have new: "OpaqueEnvelope_new (replicate 16 8) BrokerToService KindReceipt (replicate 32 9) b = Inr e"
    using t(2) by (simp add: OpaqueEnvelope_new_def e_def)
  have enq: "fst (file_enqueue None e 7 empty_file) = Inr ()"
    by (simp add: run empty_file_def e_def)
  have "\<exists>c m. map_option oe_payload (durable (fold run_file [FileNextDelivery 9, Reopen] (snd (file_enqueue None e 7 empty_file))) (replicate 16 8)) = Some b
     \<and> CoseSign1_decode b = Inr c
     \<and> CoseSign1_verify (\<lambda>(_ :: unit) _ sig. sig = replicate 64 0) c
         \<lparr>vk_kid = sg_kid demo_signer, vk_public_key = (), vk_not_before_utc = 0, vk_not_after_utc = 100, vk_roles = [RoleBroker]\<rparr>
         \<lparr>vp_content_type = 3, vp_domain = DomainReceipt, vp_required_role = RoleBroker, vp_now_utc = 50\<rparr> = Inr ()
     \<and> Receipt_decode (cs_payload c) = Inr m \<and> receipt_says demo_env (bs_db demo_pending) demo_id Cancelled 20 m"
    by (rule receipt_survives_relay [OF t(1) demo_inv(3) _ _ _ _ _ _ _ _ new demo_file_inv enq]) (simp_all add: demo_env_def)
  with t(1) show ?thesis by blast
qed

text \<open>C39: The first event the broker stores for a request has sequence one and no previous digest. The v1
  lifecycle message reserves the absent digest for sequence zero, so no message with the sequence and the
  previous digest of that event can be encoded.\<close>

theorem first_event_has_no_wire_form:
  assumes "store_inv env s" and "events rid s = Inr (e # es)"
    and "le_sequence m = ev_sequence e" and "le_previous_event_digest m = ev_previous_event_digest e"
  shows "LifecycleEvent_canonical_bytes m \<noteq> Inr b"
proof -
  from stored_history [OF assms(1), of rid] assms(2) have "chain (e_sha env) rid 0 None (e # es)"
    by (auto simp: history_inv_def simp del: chain.simps)
  then have "e = event_of (e_sha env) rid 1 None (ev_state e) (ev_reason e)" by simp
  then have "ev_sequence e = 1 \<and> ev_previous_event_digest e = None"
    by (metis event_of_def lifecycle_event.select_convs(1,2))
  then have "\<not> LifecycleEvent_valid m" using assms(3,4) by (simp add: LifecycleEvent_valid_def)
  then show ?thesis
    using lifecycle_event_msg.from_to_cbor
    by (auto simp: LifecycleEvent_canonical_bytes_def rbind_ok lifecycle_event_msg.validate_iff)
qed

lemma demo_events: "\<exists>e es. events demo_id demo_pending = Inr (e # es)"
  unfolding demo_pending_def demo_planning_eq by (simp add: run cong: rbind_weak_cong)

theorem first_event_has_no_wire_form_witness:
  "\<exists>e es. events demo_id demo_pending = Inr (e # es) \<and>
     (\<forall>b. LifecycleEvent_canonical_bytes \<lparr>le_request_id = replicate 16 0, le_sequence = ev_sequence e,
       le_previous_event_digest = ev_previous_event_digest e, le_request_digest = replicate 32 0, le_broker_epoch = 0,
       le_transition = 1, le_occurred_utc = 10, le_detail_code = 0, le_detail_digest = None\<rparr> \<noteq> Inr b)"
  using demo_events first_event_has_no_wire_form [OF demo_inv(3)] by fastforce

end
